theory Spec2Isabelle
  imports Main "HOL-Library.Word"
begin

unbundle bit_operations_syntax

section \<open>Data model\<close>

text \<open>
  Shallow embedding of \<^verbatim>\<open>sensor_integration.c\<close> (head-impact IMU, nRF52832, little endian).
  Machine integers are words: \<^verbatim>\<open>uint8_t\<close> is \<open>8 word\<close>, \<^verbatim>\<open>int8_t\<close> and \<^verbatim>\<open>int16_t\<close> are
  \<open>8 word\<close> and \<open>16 word\<close> read with \<open>sint\<close>, \<^verbatim>\<open>uint32_t\<close> is \<open>32 word\<close>.
\<close>

type_synonym u8 = "8 word"
type_synonym s8 = "8 word"
type_synonym s16 = "16 word"
type_synonym u32 = "32 word"

text \<open>
  Modelled from the spec: the struct declarations \<^verbatim>\<open>adxl372_accel_data_t\<close>,
  \<^verbatim>\<open>icm20649_data_t\<close> and \<^verbatim>\<open>impact_sample_t\<close> live in headers that are not part of the
  sources at hand; the data model gives three signed 16-bit axes for each of the high-g,
  low-g and gyro groups. The fields \<^verbatim>\<open>x\<close>, \<^verbatim>\<open>y\<close>, \<^verbatim>\<open>z\<close> of the high-g struct carry the
  prefix \<open>adxl_\<close> here. \<^verbatim>\<open>ds1388_data_t\<close> is declared in \<^verbatim>\<open>ds1388.h\<close>.
\<close>

record adxl372_accel_data =
  adxl_x :: s16
  adxl_y :: s16
  adxl_z :: s16

record icm20649_data =
  accel_x :: s16
  accel_y :: s16
  accel_z :: s16
  gyro_x :: s16
  gyro_y :: s16
  gyro_z :: s16

record ds1388_data =
  year :: u8
  month :: u8
  date :: u8
  day :: u8
  hour :: u8
  minute :: u8
  second :: u8
  hundreth :: u8

record impact_sample =
  adxl_data :: adxl372_accel_data
  icm_data :: icm20649_data
  ds_data :: ds1388_data

text \<open>The lines written to the diagnostic log (\<^verbatim>\<open>NRF_LOG_INFO\<close>), one constructor per format.\<close>

datatype log_line =
    LogText string
  | LogId nat
  | LogHighG s16 s16 s16
  | LogLowG s16 s16 s16
  | LogGyro s16 s16 s16
  | LogDate u8 u8 u8
  | LogTime u8 u8 u8 u8
  | LogWrite nat u32
  | LogRead nat u32 s16 s16
  | LogHex string u8
  | LogAddrData u32 u8
  | LogProximity "16 word"

text \<open>
  The flash driver (\<^verbatim>\<open>mt25ql256aba.c\<close>) is not part of the sources; only its prototypes
  are (\<^verbatim>\<open>mt25ql256aba.h\<close>). It is a parameter: each operation yields its \<^verbatim>\<open>int8_t\<close> status,
  the bytes it leaves in \<^verbatim>\<open>reg_data\<close> (reads only) and the next state of the device.
\<close>

record 'd flash_dev =
  mt25ql256aba_read_op :: "u8 \<Rightarrow> u8 list \<Rightarrow> nat \<Rightarrow> 'd \<Rightarrow> s8 \<times> u8 list \<times> 'd"
  mt25ql256aba_write_op :: "u8 \<Rightarrow> u8 list \<Rightarrow> u8 list \<Rightarrow> 'd \<Rightarrow> s8 \<times> 'd"
  mt25ql256aba_write_enable :: "'d \<Rightarrow> s8 \<times> 'd"
  mt25ql256aba_write_disable :: "'d \<Rightarrow> s8 \<times> 'd"

text \<open>
  The globals \<^verbatim>\<open>g_sample_set_buf\<close>, \<^verbatim>\<open>g_flash_output_buf\<close>, \<^verbatim>\<open>g_buf_index\<close>, the local
  \<^verbatim>\<open>flash_addr\<close> of \<^verbatim>\<open>main\<close> (passed by pointer), the log and the state of the flash device.
\<close>

record 'd system =
  g_sample_set_buf :: "impact_sample list"
  g_flash_output_buf :: "impact_sample list"
  g_buf_index :: nat
  flash_addr :: u32
  nrf_log :: "log_line list"
  flash :: 'd

text \<open>
  What the sensors deliver during one call of \<^verbatim>\<open>sample_impact_data\<close>: the struct filled
  by \<^verbatim>\<open>adxl372_get_accel_data\<close> (driver not in the sources), the answer of
  \<^verbatim>\<open>spi_write_and_read\<close> (transmit bytes, receive buffer, receive length to status and
  receive buffer) and the answer of \<^verbatim>\<open>readRegister\<close> for each RTC register.
\<close>

record acquisition =
  acq_adxl :: adxl372_accel_data
  acq_spi :: "u8 list \<Rightarrow> u8 list \<Rightarrow> nat \<Rightarrow> s8 \<times> u8 list"
  acq_rtc :: "u8 \<Rightarrow> u8"

datatype 'a outcome = HALT_FAULT "log_line list" | PASSED 'a "log_line list"

datatype phase = WAIT_IMPACT | CAPTURING

section \<open>Constants of the headers\<close>

abbreviation (input) MT25QL256ABA_READ_ID :: u8 where "MT25QL256ABA_READ_ID \<equiv> 0x9E"
abbreviation (input) MT25QL256ABA_READ :: u8 where "MT25QL256ABA_READ \<equiv> 0x03"
abbreviation (input) MT25QL256ABA_READ_STATUS_REGISTER :: u8 where "MT25QL256ABA_READ_STATUS_REGISTER \<equiv> 0x05"
abbreviation (input) MT25QL256ABA_PAGE_PROGRAM :: u8 where "MT25QL256ABA_PAGE_PROGRAM \<equiv> 0x02"
abbreviation (input) MT25QL256ABA_LOW_128MBIT_SEGMENT_ADDRESS_START :: u32 where
  "MT25QL256ABA_LOW_128MBIT_SEGMENT_ADDRESS_START \<equiv> 0x00000000"

abbreviation (input) HUNDRED_SEC_REG :: u8 where "HUNDRED_SEC_REG \<equiv> 0x00"
abbreviation (input) SEC_REG :: u8 where "SEC_REG \<equiv> 0x01"
abbreviation (input) MIN_REG :: u8 where "MIN_REG \<equiv> 0x02"
abbreviation (input) HOUR_REG :: u8 where "HOUR_REG \<equiv> 0x03"
abbreviation (input) DAY_REG :: u8 where "DAY_REG \<equiv> 0x04"
abbreviation (input) DATE_REG :: u8 where "DATE_REG \<equiv> 0x05"
abbreviation (input) MONTH_REG :: u8 where "MONTH_REG \<equiv> 0x06"
abbreviation (input) YEAR_REG :: u8 where "YEAR_REG \<equiv> 0x07"
abbreviation (input) HOUR_MODE_24 :: u8 where "HOUR_MODE_24 \<equiv> 0x00"

text \<open>
  The identity values of the ADXL372 are macros of a header that is not in the sources;
  the values are the ones the comments and log formats of \<^verbatim>\<open>adxl372_startup_test\<close> give.
\<close>

abbreviation (input) ADI_ADXL372_ADI_DEVID_VAL :: u8 where "ADI_ADXL372_ADI_DEVID_VAL \<equiv> 0xAD"
abbreviation (input) ADI_ADXL372_MST_DEVID_VAL :: u8 where "ADI_ADXL372_MST_DEVID_VAL \<equiv> 0x1D"
abbreviation (input) ADI_ADXL372_DEVID_VAL :: u8 where "ADI_ADXL372_DEVID_VAL \<equiv> 0xFA"

section \<open>DS1388 timestamp codecs\<close>

text \<open>
  \<^verbatim>\<open>val = val + 6 * (val / 10)\<close> and \<^verbatim>\<open>val = val - 6 * (val >> 4)\<close>: the operands are
  promoted to \<^verbatim>\<open>int\<close> and the result is cut to eight bits, which is arithmetic modulo 256
  with the unsigned quotient and shift of the byte.
\<close>

definition dec2hex :: "u8 \<Rightarrow> u8" where
  "dec2hex val = val + 6 * (val div 10)"

definition hex2dec :: "u8 \<Rightarrow> u8" where
  "hex2dec val = val - 6 * (drop_bit 4 val)"

text \<open>
  \<^verbatim>\<open>get_time\<close>: eight register reads, then the BCD fields are converted; the weekday is kept
  as read. The result pair is the returned mode (0 AM, 1 PM, 2 for 24-hour) and the struct.
\<close>

definition get_time :: "(u8 \<Rightarrow> u8) \<Rightarrow> u8 \<times> ds1388_data" where
  "get_time readRegister =
     (let d0 = \<lparr>year = readRegister YEAR_REG, month = readRegister MONTH_REG,
                date = readRegister DATE_REG, day = readRegister DAY_REG,
                hour = readRegister HOUR_REG, minute = readRegister MIN_REG,
                second = readRegister SEC_REG, hundreth = readRegister HUNDRED_SEC_REG\<rparr>;
          d1 = d0\<lparr>year := hex2dec (year d0)\<rparr>;
          d2 = d1\<lparr>month := hex2dec (month d1)\<rparr>;
          d3 = d2\<lparr>date := hex2dec (date d2)\<rparr>;
          d4 = d3\<lparr>minute := hex2dec (minute d3)\<rparr>;
          d5 = d4\<lparr>second := hex2dec (second d4)\<rparr>;
          d6 = d5\<lparr>hundreth := hex2dec (hundreth d5)\<rparr>
      in if (hour d6 AND 0x40) = HOUR_MODE_24
         then (2, d6\<lparr>hour := hex2dec (hour d6)\<rparr>)
         else (drop_bit 5 (hour d6 AND 0x20), d6\<lparr>hour := hex2dec (hour d6 AND 0x1F)\<rparr>))"

section \<open>Flash address codec\<close>

text \<open>The bytes of a \<^verbatim>\<open>uint32_t\<close> in memory, lowest address first (little endian).\<close>

definition u32_bytes :: "u32 \<Rightarrow> u8 list" where
  "u32_bytes w = [ucast w, ucast (drop_bit 8 w), ucast (drop_bit 16 w), ucast (drop_bit 24 w)]"

definition convert_4byte_address_to_3byte_address :: "u32 \<Rightarrow> u8 list" where
  "convert_4byte_address_to_3byte_address flash_addr_v =
     (let flash_addr_ptr = u32_bytes flash_addr_v
      in [flash_addr_ptr ! 2, flash_addr_ptr ! 1, flash_addr_ptr ! 0])"

text \<open>
  Reading a 3-byte device address back as a number, most significant byte first
  (what the flash device does with the address bytes of a command).
\<close>

definition address_of_3byte :: "u8 list \<Rightarrow> u32" where
  "address_of_3byte bs =
     push_bit 16 (ucast (bs ! 0)) OR push_bit 8 (ucast (bs ! 1)) OR ucast (bs ! 2)"

section \<open>ICM20649 register reads and unit conversion\<close>

text \<open>\<^verbatim>\<open>memcpy (dst, src, n)\<close> on byte lists: the first \<open>n\<close> bytes of \<open>dst\<close> are replaced.\<close>

definition memcpy :: "u8 list \<Rightarrow> u8 list \<Rightarrow> nat \<Rightarrow> u8 list" where
  "memcpy dst src n = take n src @ drop n dst"

text \<open>
  \<^verbatim>\<open>icm20649_multibyte_read_reg\<close>. The result is the returned status and the contents of the
  caller's \<^verbatim>\<open>reg_data\<close> afterwards. \<^verbatim>\<open>spi_write_and_read\<close> is not in the sources: it is the
  parameter, given the transmit bytes, the receive buffer and the receive length.
\<close>

definition icm20649_multibyte_read_reg ::
  "(u8 list \<Rightarrow> u8 list \<Rightarrow> nat \<Rightarrow> s8 \<times> u8 list) \<Rightarrow> u8 \<Rightarrow> u8 list \<Rightarrow> u8 \<Rightarrow> s8 \<times> u8 list" where
  "icm20649_multibyte_read_reg spi_write_and_read reg_addr reg_data num_bytes =
     (if unat num_bytes > 256 then (- 1, reg_data)
      else
        let read_addr = reg_addr OR 0x80;
            buf = replicate (unat num_bytes + 1) (0 :: u8);
            res = spi_write_and_read [read_addr] buf (unat num_bytes + 1);
            ret = fst res;
            buf1 = snd res
        in if sint ret < 0 then (ret, reg_data)
           else (ret, memcpy reg_data (drop 1 buf1) (unat num_bytes)))"

text \<open>\<^verbatim>\<open>rx_buf[k]<<8 | rx_buf[k+1]\<close> stored into an \<^verbatim>\<open>int16_t\<close>.\<close>

definition s16_of_bytes :: "u8 \<Rightarrow> u8 \<Rightarrow> s16" where
  "s16_of_bytes hi lo = push_bit 8 (ucast hi) OR ucast lo"

text \<open>
  \<^verbatim>\<open>icm20649_read_gyro_accel_data\<close>: the bank-select write (status discarded) changes
  nothing the function reads; the twelve data bytes come from the multibyte read into a
  zeroed local buffer, whose status is discarded too.
\<close>

definition icm20649_read_gyro_accel_data ::
  "(u8 list \<Rightarrow> u8 list \<Rightarrow> nat \<Rightarrow> s8 \<times> u8 list) \<Rightarrow> icm20649_data" where
  "icm20649_read_gyro_accel_data spi_write_and_read =
     (let rx_buf = snd (icm20649_multibyte_read_reg spi_write_and_read 0x2D (replicate 12 0) 12)
      in \<lparr>accel_x = s16_of_bytes (rx_buf ! 0) (rx_buf ! 1),
          accel_y = s16_of_bytes (rx_buf ! 2) (rx_buf ! 3),
          accel_z = s16_of_bytes (rx_buf ! 4) (rx_buf ! 5),
          gyro_x = s16_of_bytes (rx_buf ! 6) (rx_buf ! 7),
          gyro_y = s16_of_bytes (rx_buf ! 8) (rx_buf ! 9),
          gyro_z = s16_of_bytes (rx_buf ! 10) (rx_buf ! 11)\<rparr>)"

text \<open>
  \<^verbatim>\<open>icm20649_convert_data\<close> computes in floating point; the two expressions are parameters:
  \<open>to_mg v\<close> stands for \<^verbatim>\<open>((float) v / 1024.0) * 1000\<close> and \<open>to_mrad v\<close> for
  \<^verbatim>\<open>((float) v / 32767.0) * 2000.0 * deg2rad * 1000\<close>, each stored back into the field.
\<close>

definition icm20649_convert_data ::
  "(s16 \<Rightarrow> s16) \<Rightarrow> (s16 \<Rightarrow> s16) \<Rightarrow> icm20649_data \<Rightarrow> icm20649_data" where
  "icm20649_convert_data to_mg to_mrad d =
     (let d1 = d\<lparr>accel_x := to_mg (accel_x d)\<rparr>;
          d2 = d1\<lparr>accel_y := to_mg (accel_y d1)\<rparr>;
          d3 = d2\<lparr>accel_z := to_mg (accel_z d2)\<rparr>;
          d4 = d3\<lparr>gyro_x := to_mrad (gyro_x d3)\<rparr>;
          d5 = d4\<lparr>gyro_y := to_mrad (gyro_y d4)\<rparr>
      in d5\<lparr>gyro_z := to_mrad (gyro_z d5)\<rparr>)"

section \<open>Sample buffer and capture\<close>

text \<open>
  \<^verbatim>\<open>sample_impact_data\<close>; \<open>MAX_SAMPLE_BUF_LENGTH\<close> is a macro of a header that is not in the
  sources and is a parameter. The function returns nothing.
\<close>

definition sample_impact_data ::
  "nat \<Rightarrow> (s16 \<Rightarrow> s16) \<Rightarrow> (s16 \<Rightarrow> s16) \<Rightarrow> acquisition \<Rightarrow> 'd system \<Rightarrow> 'd system" where
  "sample_impact_data MAX_SAMPLE_BUF_LENGTH to_mg to_mrad a st =
     (let high_g_data = acq_adxl a;
          low_g_gyro_data = icm20649_read_gyro_accel_data (acq_spi a);
          low_g_gyro_data = icm20649_convert_data to_mg to_mrad low_g_gyro_data;
          rtc_data = snd (get_time (acq_rtc a))
      in if g_buf_index st < MAX_SAMPLE_BUF_LENGTH
         then
           let i = g_buf_index st;
               b1 = (g_sample_set_buf st)[i := (g_sample_set_buf st ! i)\<lparr>adxl_data := high_g_data\<rparr>];
               b2 = b1[i := (b1 ! i)\<lparr>icm_data := low_g_gyro_data\<rparr>];
               b3 = b2[i := (b2 ! i)\<lparr>ds_data := rtc_data\<rparr>]
           in st\<lparr>g_sample_set_buf := b3, g_buf_index := i + 1\<rparr>
         else st)"

text \<open>
  The capture loop of \<^verbatim>\<open>main\<close>, \<^verbatim>\<open>while (g_measurement_done == false)\<close>: the timer decides
  how many calls are made; the list holds what the sensors deliver at each of them.
\<close>

fun capture ::
  "nat \<Rightarrow> (s16 \<Rightarrow> s16) \<Rightarrow> (s16 \<Rightarrow> s16) \<Rightarrow> acquisition list \<Rightarrow> 'd system \<Rightarrow> 'd system" where
  "capture MAX_SAMPLE_BUF_LENGTH to_mg to_mrad [] st = st"
| "capture MAX_SAMPLE_BUF_LENGTH to_mg to_mrad (a # as) st =
     capture MAX_SAMPLE_BUF_LENGTH to_mg to_mrad as
       (sample_impact_data MAX_SAMPLE_BUF_LENGTH to_mg to_mrad a st)"

text \<open>The record \<^verbatim>\<open>sample_impact_data\<close> builds from one acquisition.\<close>

definition acquired_sample :: "(s16 \<Rightarrow> s16) \<Rightarrow> (s16 \<Rightarrow> s16) \<Rightarrow> acquisition \<Rightarrow> impact_sample" where
  "acquired_sample to_mg to_mrad a =
     \<lparr>adxl_data = acq_adxl a,
      icm_data = icm20649_convert_data to_mg to_mrad (icm20649_read_gyro_accel_data (acq_spi a)),
      ds_data = snd (get_time (acq_rtc a))\<rparr>"

section \<open>Impact wait\<close>

text \<open>
  The test of the wait loop of \<^verbatim>\<open>main\<close>; \<^verbatim>\<open>abs\<close> works on the value promoted to \<^verbatim>\<open>int\<close>.
  \<open>IMPACT_G_THRESHOLD\<close> is a macro of a header that is not in the sources: a parameter.
\<close>

definition impact_threshold_met :: "int \<Rightarrow> adxl372_accel_data \<Rightarrow> bool" where
  "impact_threshold_met IMPACT_G_THRESHOLD high_g_data =
     (\<bar>sint (adxl_x high_g_data)\<bar> \<ge> IMPACT_G_THRESHOLD \<or>
      \<bar>sint (adxl_y high_g_data)\<bar> \<ge> IMPACT_G_THRESHOLD \<or>
      \<bar>sint (adxl_z high_g_data)\<bar> \<ge> IMPACT_G_THRESHOLD)"

text \<open>
  The outer \<^verbatim>\<open>while(1)\<close> of \<^verbatim>\<open>main\<close> over the readings polled so far: the phase reached after
  them. The loop is left for the capture at the first reading that passes the test.
\<close>

fun wait_impact :: "int \<Rightarrow> adxl372_accel_data list \<Rightarrow> phase" where
  "wait_impact IMPACT_G_THRESHOLD [] = WAIT_IMPACT"
| "wait_impact IMPACT_G_THRESHOLD (high_g_data # rs) =
     (if impact_threshold_met IMPACT_G_THRESHOLD high_g_data then CAPTURING
      else wait_impact IMPACT_G_THRESHOLD rs)"

section \<open>Verification output\<close>

text \<open>The body of the loop of \<^verbatim>\<open>serial_output_flash_data\<close> for index \<open>i\<close>: \<open>f\<close> is
  \<^verbatim>\<open>g_flash_output_buf[i]\<close>, \<open>s\<close> is \<^verbatim>\<open>g_sample_set_buf[i]\<close>, \<open>lg\<close> the log so far.\<close>

definition serial_output_record ::
  "nat \<Rightarrow> impact_sample \<Rightarrow> impact_sample \<Rightarrow> log_line list \<Rightarrow> log_line list" where
  "serial_output_record i f s lg =
     (let lg1 = lg @ [LogText ''''];
          lg2 = lg1 @ [LogId i];
          lg3 = (if adxl_x (adxl_data f) = adxl_x (adxl_data s) \<and>
                    adxl_y (adxl_data f) = adxl_y (adxl_data s) \<and>
                    adxl_z (adxl_data f) = adxl_z (adxl_data s)
                 then lg2 @ [LogHighG (adxl_x (adxl_data f)) (adxl_y (adxl_data f))
                                      (adxl_z (adxl_data f))]
                 else lg2);
          lg4 = (if accel_x (icm_data f) = accel_x (icm_data s) \<and>
                    accel_y (icm_data f) = accel_y (icm_data s) \<and>
                    accel_z (icm_data f) = accel_z (icm_data s)
                 then lg3 @ [LogLowG (accel_x (icm_data f)) (accel_y (icm_data f))
                                     (accel_z (icm_data f))]
                 else lg3);
          lg5 = (if gyro_x (icm_data f) = gyro_x (icm_data s) \<and>
                    gyro_y (icm_data f) = gyro_y (icm_data s) \<and>
                    gyro_z (icm_data f) = gyro_z (icm_data s)
                 then lg4 @ [LogGyro (gyro_x (icm_data f)) (gyro_y (icm_data f))
                                     (gyro_z (icm_data f))]
                 else lg4)
      in if date (ds_data f) = date (ds_data s) \<and>
            day (ds_data f) = day (ds_data s) \<and>
            year (ds_data f) = year (ds_data s) \<and>
            month (ds_data f) = month (ds_data s) \<and>
            hour (ds_data f) = hour (ds_data s) \<and>
            minute (ds_data f) = minute (ds_data s) \<and>
            second (ds_data f) = second (ds_data s) \<and>
            hundreth (ds_data f) = hundreth (ds_data s)
         then lg5 @ [LogDate (month (ds_data f)) (date (ds_data f)) (year (ds_data f)),
                     LogTime (hour (ds_data f)) (minute (ds_data f)) (second (ds_data f))
                             (hundreth (ds_data f))]
         else lg5)"

function serial_output_loop :: "'d system \<Rightarrow> nat \<Rightarrow> log_line list \<Rightarrow> log_line list" where
  "serial_output_loop st i lg =
     (if i < g_buf_index st
      then serial_output_loop st (i + 1)
             (serial_output_record i (g_flash_output_buf st ! i) (g_sample_set_buf st ! i) lg)
      else lg)"
  by pat_completeness auto
termination
  by (relation "measure (\<lambda>(st, i, lg). g_buf_index st - i)") auto

declare serial_output_loop.simps [simp del]

text \<open>A record with every byte zero, as \<^verbatim>\<open>memset\<close> leaves it.\<close>

definition zero_sample :: impact_sample where
  "zero_sample =
     \<lparr>adxl_data = \<lparr>adxl_x = 0, adxl_y = 0, adxl_z = 0\<rparr>,
      icm_data = \<lparr>accel_x = 0, accel_y = 0, accel_z = 0, gyro_x = 0, gyro_y = 0, gyro_z = 0\<rparr>,
      ds_data = \<lparr>year = 0, month = 0, date = 0, day = 0, hour = 0, minute = 0, second = 0,
                 hundreth = 0\<rparr>\<rparr>"

definition serial_output_flash_data :: "'d system \<Rightarrow> 'd system" where
  "serial_output_flash_data st =
     (let lg0 = nrf_log st @ [LogText ''===================IMPACT DATA OUTPUT===================''];
          lg1 = serial_output_loop st 0 lg0
      in st\<lparr>g_flash_output_buf := replicate (length (g_flash_output_buf st)) zero_sample,
            nrf_log := lg1 @ [LogText ''====================DATA OUTPUT FINISH=================='']\<rparr>)"

text \<open>
  The lines of one record, group by group: the two heading lines, then the line(s) of each
  group whose own fields all agree.
\<close>

definition high_g_match :: "impact_sample \<Rightarrow> impact_sample \<Rightarrow> bool" where
  "high_g_match f s = (adxl_data f = adxl_data s)"

definition low_g_match :: "impact_sample \<Rightarrow> impact_sample \<Rightarrow> bool" where
  "low_g_match f s =
     (accel_x (icm_data f) = accel_x (icm_data s) \<and> accel_y (icm_data f) = accel_y (icm_data s) \<and>
      accel_z (icm_data f) = accel_z (icm_data s))"

definition gyro_match :: "impact_sample \<Rightarrow> impact_sample \<Rightarrow> bool" where
  "gyro_match f s =
     (gyro_x (icm_data f) = gyro_x (icm_data s) \<and> gyro_y (icm_data f) = gyro_y (icm_data s) \<and>
      gyro_z (icm_data f) = gyro_z (icm_data s))"

definition timestamp_match :: "impact_sample \<Rightarrow> impact_sample \<Rightarrow> bool" where
  "timestamp_match f s = (ds_data f = ds_data s)"

definition record_block :: "nat \<Rightarrow> impact_sample \<Rightarrow> impact_sample \<Rightarrow> log_line list" where
  "record_block i f s =
     [LogText '''', LogId i] @
     (if high_g_match f s
      then [LogHighG (adxl_x (adxl_data s)) (adxl_y (adxl_data s)) (adxl_z (adxl_data s))] else []) @
     (if low_g_match f s
      then [LogLowG (accel_x (icm_data s)) (accel_y (icm_data s)) (accel_z (icm_data s))] else []) @
     (if gyro_match f s
      then [LogGyro (gyro_x (icm_data s)) (gyro_y (icm_data s)) (gyro_z (icm_data s))] else []) @
     (if timestamp_match f s
      then [LogDate (month (ds_data s)) (date (ds_data s)) (year (ds_data s)),
            LogTime (hour (ds_data s)) (minute (ds_data s)) (second (ds_data s))
                    (hundreth (ds_data s))]
      else [])"

section \<open>Start-up tests\<close>

definition spi_ret_check :: "s8 \<Rightarrow> log_line list \<Rightarrow> log_line list" where
  "spi_ret_check ret lg = (if sint ret < 0 then lg @ [LogText ''SPI WRITE READ FAIL''] else lg)"

text \<open>The endless \<^verbatim>\<open>while(1) { __WFE(); }\<close> is the outcome \<open>HALT_FAULT\<close>; returning is \<open>PASSED\<close>.\<close>

definition mt25ql256aba_startup_test :: "'d flash_dev \<Rightarrow> 'd \<Rightarrow> log_line list \<Rightarrow> 'd outcome" where
  "mt25ql256aba_startup_test dv d lg =
     (let lg1 = lg @ [LogText '''', LogText ''PERFORMING FLASH TEST....''];
          res = mt25ql256aba_read_op dv MT25QL256ABA_READ_ID [] 3 d;
          ret = fst res;
          val = fst (snd res);
          d1 = snd (snd res);
          lg2 = spi_ret_check ret lg1;
          lg3 = lg2 @ [LogHex ''1: device id'' (val ! 0)]
      in if val ! 0 \<noteq> 0x20 then HALT_FAULT (lg3 @ [LogText ''FLASH READ TEST FAIL''])
         else
           let lg4 = lg3 @ [LogHex ''2:memory type'' (val ! 1)]
           in if val ! 1 \<noteq> 0xBA then HALT_FAULT (lg4 @ [LogText ''FLASH READ TEST FAIL''])
              else
                let lg5 = lg4 @ [LogHex ''3:memory capacity'' (val ! 2)]
                in if val ! 2 \<noteq> 0x19 then HALT_FAULT (lg5 @ [LogText ''FLASH READ TEST FAIL''])
                   else PASSED d1 lg5)"

text \<open>\<^verbatim>\<open>icm20649_read_test\<close> and \<^verbatim>\<open>icm20649_write_test\<close>, given the byte the register read
  delivers.\<close>

definition icm20649_read_test :: "u8 \<Rightarrow> log_line list \<Rightarrow> unit outcome" where
  "icm20649_read_test who_am_i lg =
     (let lg1 = lg @ [LogText '''', LogText ''PERFORMING ICM READ TEST....'',
                      LogHex ''1:who_am_i'' who_am_i]
      in if who_am_i = 0xE1 then PASSED () (lg1 @ [LogText ''READ SUCCESSFUL''])
         else HALT_FAULT (lg1 @ [LogText ''VAL ERROR: CHECK WIRING!'']))"

definition icm20649_write_test :: "u8 \<Rightarrow> log_line list \<Rightarrow> unit outcome" where
  "icm20649_write_test write_read lg =
     (let lg1 = lg @ [LogText '''', LogText ''PERFORMING ICM WRITE TEST....'',
                      LogHex ''2:write_read'' write_read]
      in if write_read = 0x1 then PASSED () (lg1 @ [LogText ''WRITE SUCCESSFUL''])
         else HALT_FAULT (lg1 @ [LogText ''VAL ERROR: CHECK WIRING!'']))"

text \<open>\<^verbatim>\<open>adxl372_startup_test\<close>, given the three identity bytes the ADXL372 driver delivers.\<close>

definition adxl372_startup_test :: "u8 \<Rightarrow> u8 \<Rightarrow> u8 \<Rightarrow> log_line list \<Rightarrow> unit outcome" where
  "adxl372_startup_test device_id mst_devid devid lg =
     (let lg1 = lg @ [LogText '''', LogText ''PERFORMING ADXL TEST....'',
                      LogHex ''1: adi device id'' device_id];
          lg2 = (if device_id \<noteq> ADI_ADXL372_ADI_DEVID_VAL
                 then lg1 @ [LogText ''ADXL READ TEST FAIL''] else lg1);
          lg3 = lg2 @ [LogHex ''2:mst device id2'' mst_devid];
          lg4 = (if mst_devid \<noteq> ADI_ADXL372_MST_DEVID_VAL
                 then lg3 @ [LogText ''ADXL READ TEST FAIL''] else lg3);
          lg5 = lg4 @ [LogHex ''3:mems id'' devid]
      in if devid \<noteq> ADI_ADXL372_DEVID_VAL
         then HALT_FAULT (lg5 @ [LogText ''ADXL READ TEST FAIL''])
         else PASSED () (lg5 @ [LogText ''ADXL READ TEST PASS'']))"

text \<open>The start-up tests in the order \<^verbatim>\<open>main\<close> runs them.\<close>

definition self_test ::
  "'d flash_dev \<Rightarrow> 'd \<Rightarrow> u8 \<Rightarrow> u8 \<Rightarrow> u8 \<Rightarrow> u8 \<Rightarrow> u8 \<Rightarrow> log_line list \<Rightarrow> 'd outcome" where
  "self_test dv d who_am_i write_read device_id mst_devid devid lg =
     (case mt25ql256aba_startup_test dv d lg of
        HALT_FAULT l \<Rightarrow> HALT_FAULT l
      | PASSED d1 lg1 \<Rightarrow>
          (case icm20649_read_test who_am_i lg1 of
             HALT_FAULT l \<Rightarrow> HALT_FAULT l
           | PASSED u lg2 \<Rightarrow>
               (case icm20649_write_test write_read lg2 of
                  HALT_FAULT l \<Rightarrow> HALT_FAULT l
                | PASSED u lg3 \<Rightarrow>
                    (case adxl372_startup_test device_id mst_devid devid lg3 of
                       HALT_FAULT l \<Rightarrow> HALT_FAULT l
                     | PASSED u lg4 \<Rightarrow> PASSED d1 lg4))))"

section \<open>Flash storage\<close>

text \<open>
  Modelled from the spec: the byte image of \<^verbatim>\<open>impact_sample_t\<close> (its declaration is in a
  header that is not in the sources): nine 16-bit fields, low byte first, then the eight
  timestamp bytes in the order of \<^verbatim>\<open>ds1388_data_t\<close>; no padding is needed, so
  \<^verbatim>\<open>sizeof(impact_sample_t)\<close> is 26.
\<close>

definition s16_bytes :: "s16 \<Rightarrow> u8 list" where
  "s16_bytes w = [ucast w, ucast (drop_bit 8 w)]"

definition impact_sample_bytes :: "impact_sample \<Rightarrow> u8 list" where
  "impact_sample_bytes s =
     s16_bytes (adxl_x (adxl_data s)) @ s16_bytes (adxl_y (adxl_data s)) @
     s16_bytes (adxl_z (adxl_data s)) @
     s16_bytes (accel_x (icm_data s)) @ s16_bytes (accel_y (icm_data s)) @
     s16_bytes (accel_z (icm_data s)) @
     s16_bytes (gyro_x (icm_data s)) @ s16_bytes (gyro_y (icm_data s)) @
     s16_bytes (gyro_z (icm_data s)) @
     [year (ds_data s), month (ds_data s), date (ds_data s), day (ds_data s),
      hour (ds_data s), minute (ds_data s), second (ds_data s), hundreth (ds_data s)]"

definition impact_sample_of_bytes :: "u8 list \<Rightarrow> impact_sample" where
  "impact_sample_of_bytes bs =
     \<lparr>adxl_data = \<lparr>adxl_x = s16_of_bytes (bs ! 1) (bs ! 0), adxl_y = s16_of_bytes (bs ! 3) (bs ! 2),
                   adxl_z = s16_of_bytes (bs ! 5) (bs ! 4)\<rparr>,
      icm_data = \<lparr>accel_x = s16_of_bytes (bs ! 7) (bs ! 6), accel_y = s16_of_bytes (bs ! 9) (bs ! 8),
                  accel_z = s16_of_bytes (bs ! 11) (bs ! 10),
                  gyro_x = s16_of_bytes (bs ! 13) (bs ! 12), gyro_y = s16_of_bytes (bs ! 15) (bs ! 14),
                  gyro_z = s16_of_bytes (bs ! 17) (bs ! 16)\<rparr>,
      ds_data = \<lparr>year = bs ! 18, month = bs ! 19, date = bs ! 20, day = bs ! 21, hour = bs ! 22,
                 minute = bs ! 23, second = bs ! 24, hundreth = bs ! 25\<rparr>\<rparr>"

abbreviation (input) sizeof_impact_sample_t :: nat where "sizeof_impact_sample_t \<equiv> 26"

text \<open>
  \<^verbatim>\<open>mt25ql256aba_check_ready_flag\<close>: the status register is read again and again while
  its lowest bit is set; \<open>None\<close> stands for a poll that never ends.
\<close>

partial_function (option) mt25ql256aba_check_ready_flag :: "'d flash_dev \<Rightarrow> 'd \<Rightarrow> 'd option" where
  "mt25ql256aba_check_ready_flag dv d =
     (let res = mt25ql256aba_read_op dv MT25QL256ABA_READ_STATUS_REGISTER [] 1 d;
          flash_ready = (fst (snd res) ! 0) AND 0x1
      in if flash_ready = 1 then mt25ql256aba_check_ready_flag dv (snd (snd res))
         else Some (snd (snd res)))"

declare mt25ql256aba_check_ready_flag.simps [code]

text \<open>
  The body of the loop of \<^verbatim>\<open>mt25ql256aba_store_samples\<close> for index \<open>i\<close>; \<open>buf\<close> is the
  local \<^verbatim>\<open>buf\<close> (32 bytes, \<^verbatim>\<open>buf_size\<close> is 32), the local \<^verbatim>\<open>out_buf\<close> receives the 32
  bytes of the read. The statuses the driver returns are discarded, as in the source.
  The result is the new \<^verbatim>\<open>buf\<close> and the new state.
\<close>

definition store_record ::
  "'d flash_dev \<Rightarrow> nat \<Rightarrow> u8 list \<Rightarrow> 'd system \<Rightarrow> (u8 list \<times> 'd system) option" where
  "store_record dv i buf st =
     (let lg1 = nrf_log st @ [LogText '''', LogWrite i (flash_addr st)]
      in case mt25ql256aba_check_ready_flag dv (flash st) of
           None \<Rightarrow> None
         | Some d1 \<Rightarrow>
             let buf1 = memcpy buf (impact_sample_bytes (g_sample_set_buf st ! i))
                          sizeof_impact_sample_t;
                 flash_addr_buf = convert_4byte_address_to_3byte_address (flash_addr st);
                 d2 = snd (mt25ql256aba_write_enable dv d1);
                 d3 = snd (mt25ql256aba_write_op dv MT25QL256ABA_PAGE_PROGRAM flash_addr_buf buf1 d2);
                 d4 = snd (mt25ql256aba_write_disable dv d3)
             in (case mt25ql256aba_check_ready_flag dv d4 of
                   None \<Rightarrow> None
                 | Some d5 \<Rightarrow>
                     let res = mt25ql256aba_read_op dv MT25QL256ABA_READ flash_addr_buf 32 d5;
                         out_buf = fst (snd res);
                         d6 = snd (snd res);
                         fo = (g_flash_output_buf st)
                                [i := impact_sample_of_bytes (take sizeof_impact_sample_t out_buf)];
                         lg2 = lg1 @ [LogRead i (flash_addr st) (adxl_x (adxl_data (fo ! i)))
                                        (adxl_x (adxl_data (g_sample_set_buf st ! i)))]
                     in Some (buf1, st\<lparr>g_flash_output_buf := fo, flash_addr := flash_addr st + 32,
                                       nrf_log := lg2, flash := d6\<rparr>)))"

function store_loop :: "'d flash_dev \<Rightarrow> nat \<Rightarrow> u8 list \<Rightarrow> 'd system \<Rightarrow> 'd system option" where
  "store_loop dv i buf st =
     (if i < g_buf_index st
      then (case store_record dv i buf st of
              None \<Rightarrow> None
            | Some (buf1, st1) \<Rightarrow> store_loop dv (i + 1) buf1 st1)
      else Some st)"
  by pat_completeness auto
termination
  by (relation "measure (\<lambda>(dv, i, buf, st). g_buf_index st - i)")
     (auto simp add: store_record_def Let_def split: option.splits)

declare store_loop.simps [simp del]

definition mt25ql256aba_store_samples :: "'d flash_dev \<Rightarrow> 'd system \<Rightarrow> 'd system option" where
  "mt25ql256aba_store_samples dv st =
     store_loop dv 0 (replicate 32 0)
       (st\<lparr>nrf_log := nrf_log st @ [LogText '''', LogText ''BEGIN STORE SAMPLES...'']\<rparr>)"

text \<open>A driver that answers as \<open>dv\<close> does, except that every status is replaced by \<open>f\<close> of it.\<close>

definition with_statuses :: "(s8 \<Rightarrow> s8) \<Rightarrow> 'd flash_dev \<Rightarrow> 'd flash_dev" where
  "with_statuses f dv =
     \<lparr>mt25ql256aba_read_op =
        (\<lambda>c a n d. let res = mt25ql256aba_read_op dv c a n d in (f (fst res), snd res)),
      mt25ql256aba_write_op =
        (\<lambda>c a b d. let res = mt25ql256aba_write_op dv c a b d in (f (fst res), snd res)),
      mt25ql256aba_write_enable =
        (\<lambda>d. let res = mt25ql256aba_write_enable dv d in (f (fst res), snd res)),
      mt25ql256aba_write_disable =
        (\<lambda>d. let res = mt25ql256aba_write_disable dv d in (f (fst res), snd res))\<rparr>"

text \<open>The lines the store loop logs for record \<open>i\<close> when the cursor started at \<open>base\<close>.\<close>

definition store_lines :: "u32 \<Rightarrow> impact_sample list \<Rightarrow> impact_sample list \<Rightarrow> nat \<Rightarrow> log_line list" where
  "store_lines base fo sb i =
     [LogText '''', LogWrite i (base + 32 * of_nat i),
      LogRead i (base + 32 * of_nat i) (adxl_x (adxl_data (fo ! i))) (adxl_x (adxl_data (sb ! i)))]"

text \<open>
  The body of the loop of \<^verbatim>\<open>mt25ql256aba_retrieve_samples\<close> for index \<open>i\<close> at address
  \<^verbatim>\<open>addr32\<close>: the 26 bytes read are stored straight into \<^verbatim>\<open>g_flash_output_buf[i]\<close>.
\<close>

definition retrieve_record :: "'d flash_dev \<Rightarrow> nat \<Rightarrow> u32 \<Rightarrow> 'd system \<Rightarrow> 'd system option" where
  "retrieve_record dv i addr32 st =
     (case mt25ql256aba_check_ready_flag dv (flash st) of
        None \<Rightarrow> None
      | Some d1 \<Rightarrow>
          let addr = convert_4byte_address_to_3byte_address addr32;
              res = mt25ql256aba_read_op dv MT25QL256ABA_READ addr sizeof_impact_sample_t d1;
              fo = (g_flash_output_buf st)[i := impact_sample_of_bytes (fst (snd res))];
              lg = nrf_log st @ [LogRead i addr32 (adxl_x (adxl_data (fo ! i)))
                                   (adxl_x (adxl_data (g_sample_set_buf st ! i)))]
          in Some (st\<lparr>g_flash_output_buf := fo, nrf_log := lg, flash := snd (snd res)\<rparr>))"

function retrieve_loop :: "'d flash_dev \<Rightarrow> nat \<Rightarrow> u32 \<Rightarrow> 'd system \<Rightarrow> 'd system option" where
  "retrieve_loop dv i addr32 st =
     (if i < g_buf_index st
      then (case retrieve_record dv i addr32 st of
              None \<Rightarrow> None
            | Some st1 \<Rightarrow> retrieve_loop dv (i + 1) (addr32 + 32) st1)
      else Some st)"
  by pat_completeness auto
termination
  by (relation "measure (\<lambda>(dv, i, addr32, st). g_buf_index st - i)")
     (auto simp add: retrieve_record_def Let_def split: option.splits)

declare retrieve_loop.simps [simp del]

definition mt25ql256aba_retrieve_samples :: "'d flash_dev \<Rightarrow> 'd system \<Rightarrow> 'd system option" where
  "mt25ql256aba_retrieve_samples dv st =
     retrieve_loop dv 0 0x00000000
       (st\<lparr>nrf_log := nrf_log st @ [LogText '''', LogText ''BEGIN RETRIEVE SAMPLES'']\<rparr>)"

text \<open>What \<^verbatim>\<open>main\<close> does once the capture window is over: store, retrieve, print.\<close>

definition store_retrieve_output :: "'d flash_dev \<Rightarrow> 'd system \<Rightarrow> 'd system option" where
  "store_retrieve_output dv st =
     (case mt25ql256aba_store_samples dv st of
        None \<Rightarrow> None
      | Some st1 \<Rightarrow>
          (case mt25ql256aba_retrieve_samples dv st1 of
             None \<Rightarrow> None
           | Some st2 \<Rightarrow> Some (serial_output_flash_data st2)))"

section \<open>Other flash operations\<close>

text \<open>
  The remaining functions of \<^verbatim>\<open>sensor_integration.c\<close> that call the flash driver. As in the
  store loop, a ready poll that never ends is \<open>None\<close>. Where the source keeps the status of
  a call it hands it to \<^verbatim>\<open>spi_ret_check\<close>; everywhere else the status is discarded.
\<close>

abbreviation (input) MT25QL256ABA_RESET_ENABLE :: u8 where "MT25QL256ABA_RESET_ENABLE \<equiv> 0x66"
abbreviation (input) MT25QL256ABA_RESET_MEMORY :: u8 where "MT25QL256ABA_RESET_MEMORY \<equiv> 0x99"
abbreviation (input) MT25QL256ABA_ERASE_4KB_SUBSECTOR :: u8 where
  "MT25QL256ABA_ERASE_4KB_SUBSECTOR \<equiv> 0x20"
abbreviation (input) MT25QL256ABA_BULK_ERASE :: u8 where "MT25QL256ABA_BULK_ERASE \<equiv> 0xC7"

definition reset_device :: "'d flash_dev \<Rightarrow> 'd system \<Rightarrow> 'd system option" where
  "reset_device dv st =
     (let lg = nrf_log st @ [LogText '''', LogText ''RESETING DEVICE....'']
      in case mt25ql256aba_check_ready_flag dv (flash st) of
           None \<Rightarrow> None
         | Some d1 \<Rightarrow>
             let d2 = snd (snd (mt25ql256aba_read_op dv MT25QL256ABA_RESET_ENABLE [] 0 d1));
                 d3 = snd (snd (mt25ql256aba_read_op dv MT25QL256ABA_RESET_MEMORY [] 0 d2))
             in Some (st\<lparr>nrf_log := lg, flash := d3\<rparr>))"

text \<open>
  The body of the loop of \<^verbatim>\<open>flash_read_bytes\<close> at the local address \<open>addr\<close> (the local
  \<^verbatim>\<open>flash_addr\<close> of that function): poll, read one byte, log it, check the status.
\<close>

definition flash_read_byte :: "'d flash_dev \<Rightarrow> u32 \<Rightarrow> 'd system \<Rightarrow> 'd system option" where
  "flash_read_byte dv addr st =
     (case mt25ql256aba_check_ready_flag dv (flash st) of
        None \<Rightarrow> None
      | Some d1 \<Rightarrow>
          let addr_buf = convert_4byte_address_to_3byte_address addr;
              res = mt25ql256aba_read_op dv MT25QL256ABA_READ addr_buf 1 d1;
              ret = fst res;
              data = fst (snd res) ! 0;
              lg = spi_ret_check ret (nrf_log st @ [LogAddrData addr data])
          in Some (st\<lparr>nrf_log := lg, flash := snd (snd res)\<rparr>))"

function flash_read_loop ::
  "'d flash_dev \<Rightarrow> nat \<Rightarrow> nat \<Rightarrow> u32 \<Rightarrow> 'd system \<Rightarrow> 'd system option" where
  "flash_read_loop dv num_bytes i addr st =
     (if i < num_bytes
      then (case flash_read_byte dv addr st of
              None \<Rightarrow> None
            | Some st1 \<Rightarrow> flash_read_loop dv num_bytes (i + 1) (addr + 1) st1)
      else Some st)"
  by pat_completeness auto
termination
  by (relation "measure (\<lambda>(dv, num_bytes, i, addr, st). num_bytes - i)") auto

declare flash_read_loop.simps [simp del]

definition flash_read_bytes :: "'d flash_dev \<Rightarrow> 16 word \<Rightarrow> 'd system \<Rightarrow> 'd system option" where
  "flash_read_bytes dv num_bytes st =
     flash_read_loop dv (unat num_bytes) 0 0x00000000
       (st\<lparr>nrf_log := nrf_log st @ [LogText '''', LogText ''PERFORMING FLASH READ BYTES...'']\<rparr>)"

definition full_page_read :: "'d flash_dev \<Rightarrow> 'd system \<Rightarrow> 'd system option" where
  "full_page_read dv st =
     (let lg = nrf_log st @ [LogText '''', LogText ''PERFORMING FULL PAGE READ....'']
      in case mt25ql256aba_check_ready_flag dv (flash st) of
           None \<Rightarrow> None
         | Some d1 \<Rightarrow>
             let res = mt25ql256aba_read_op dv MT25QL256ABA_READ [0x00, 0x00, 0x00] 250 d1;
                 ret = fst res;
                 full_page_data = fst (snd res);
                 lg1 = spi_ret_check ret lg;
                 lg2 = lg1 @ map (\<lambda>i. LogHex ''Data'' (full_page_data ! i)) [0 ..< 250]
             in Some (st\<lparr>nrf_log := lg2, flash := snd (snd res)\<rparr>))"

definition bulk_erase :: "'d flash_dev \<Rightarrow> 'd system \<Rightarrow> 'd system" where
  "bulk_erase dv st =
     (let lg = nrf_log st @ [LogText '''', LogText ''PERFORMING BULK ERASE''];
          d1 = snd (mt25ql256aba_write_enable dv (flash st));
          d2 = snd (mt25ql256aba_write_op dv MT25QL256ABA_BULK_ERASE [] [] d1)
      in st\<lparr>nrf_log := lg, flash := d2\<rparr>)"

definition mt25ql256aba_erase :: "'d flash_dev \<Rightarrow> 'd system \<Rightarrow> 'd system option" where
  "mt25ql256aba_erase dv st =
     (case mt25ql256aba_check_ready_flag dv (flash st) of
        None \<Rightarrow> None
      | Some d1 \<Rightarrow>
          let addr = [0x00, 0x00, 0x00];
              d2 = snd (mt25ql256aba_write_enable dv d1);
              d3 = snd (mt25ql256aba_write_op dv MT25QL256ABA_ERASE_4KB_SUBSECTOR addr [] d2);
              d4 = snd (mt25ql256aba_write_disable dv d3)
          in Some (st\<lparr>flash := d4\<rparr>))"

text \<open>A log without the lines of \<^verbatim>\<open>spi_ret_check\<close>, for logs and for outcomes.\<close>

definition without_fail :: "log_line list \<Rightarrow> log_line list" where
  "without_fail lg = filter (\<lambda>l. l \<noteq> LogText ''SPI WRITE READ FAIL'') lg"

definition system_without_fail :: "'d system \<Rightarrow> 'd system" where
  "system_without_fail st = st\<lparr>nrf_log := without_fail (nrf_log st)\<rparr>"

definition outcome_without_fail :: "'a outcome \<Rightarrow> 'a outcome" where
  "outcome_without_fail r =
     (case r of HALT_FAULT l \<Rightarrow> HALT_FAULT (without_fail l)
              | PASSED a l \<Rightarrow> PASSED a (without_fail l))"

text \<open>The number of lines of \<^verbatim>\<open>spi_ret_check\<close> in a log, and the log of an outcome.\<close>

definition fail_lines :: "log_line list \<Rightarrow> nat" where
  "fail_lines lg = length (filter (\<lambda>l. l = LogText ''SPI WRITE READ FAIL'') lg)"

definition outcome_log :: "'a outcome \<Rightarrow> log_line list" where
  "outcome_log r = (case r of HALT_FAULT l \<Rightarrow> l | PASSED a l \<Rightarrow> l)"

section \<open>The flash transactions of the store loop\<close>

text \<open>
  The device state in which the store loop polls for the second time in iteration \<open>i\<close>:
  after the write enable, the page program and the write disable, begun in state \<open>d1\<close>.
\<close>

definition store_program :: "'d flash_dev \<Rightarrow> nat \<Rightarrow> u8 list \<Rightarrow> 'd system \<Rightarrow> 'd \<Rightarrow> 'd" where
  "store_program dv i buf st d1 =
     (let buf1 = memcpy buf (impact_sample_bytes (g_sample_set_buf st ! i)) sizeof_impact_sample_t;
          flash_addr_buf = convert_4byte_address_to_3byte_address (flash_addr st);
          d2 = snd (mt25ql256aba_write_enable dv d1);
          d3 = snd (mt25ql256aba_write_op dv MT25QL256ABA_PAGE_PROGRAM flash_addr_buf buf1 d2)
      in snd (mt25ql256aba_write_disable dv d3))"

text \<open>
  The device states in which the store loop calls \<^verbatim>\<open>mt25ql256aba_check_ready_flag\<close>, in
  the order of the calls, from iteration \<open>i\<close> on: two per record, up to the first poll that
  does not end.
\<close>

function store_polls :: "'d flash_dev \<Rightarrow> nat \<Rightarrow> u8 list \<Rightarrow> 'd system \<Rightarrow> 'd list" where
  "store_polls dv i buf st =
     (if i < g_buf_index st
      then flash st #
           (case mt25ql256aba_check_ready_flag dv (flash st) of
              None \<Rightarrow> []
            | Some d1 \<Rightarrow>
                store_program dv i buf st d1 #
                (case store_record dv i buf st of
                   None \<Rightarrow> []
                 | Some (buf1, st1) \<Rightarrow> store_polls dv (i + 1) buf1 st1))
      else [])"
  by pat_completeness auto
termination
  by (relation "measure (\<lambda>(dv, i, buf, st). g_buf_index st - i)")
     (auto simp add: store_record_def Let_def split: option.splits)

declare store_polls.simps [simp del]

definition store_samples_polls :: "'d flash_dev \<Rightarrow> 'd system \<Rightarrow> 'd list" where
  "store_samples_polls dv st =
     store_polls dv 0 (replicate 32 0)
       (st\<lparr>nrf_log := nrf_log st @ [LogText '''', LogText ''BEGIN STORE SAMPLES...'']\<rparr>)"

text \<open>
  A driver that answers as \<open>dv\<close> does and keeps, next to the state of \<open>dv\<close>, the list of
  the calls made to it, oldest first.
\<close>

datatype flash_call =
    READ_OP u8 "u8 list" nat
  | WRITE_OP u8 "u8 list" "u8 list"
  | WRITE_ENABLE
  | WRITE_DISABLE

definition recording :: "'d flash_dev \<Rightarrow> ('d \<times> flash_call list) flash_dev" where
  "recording dv =
     \<lparr>mt25ql256aba_read_op =
        (\<lambda>c a n s. let res = mt25ql256aba_read_op dv c a n (fst s)
                   in (fst res, fst (snd res), (snd (snd res), snd s @ [READ_OP c a n]))),
      mt25ql256aba_write_op =
        (\<lambda>c a b s. let res = mt25ql256aba_write_op dv c a b (fst s)
                   in (fst res, (snd res, snd s @ [WRITE_OP c a b]))),
      mt25ql256aba_write_enable =
        (\<lambda>s. let res = mt25ql256aba_write_enable dv (fst s)
             in (fst res, (snd res, snd s @ [WRITE_ENABLE]))),
      mt25ql256aba_write_disable =
        (\<lambda>s. let res = mt25ql256aba_write_disable dv (fst s)
             in (fst res, (snd res, snd s @ [WRITE_DISABLE])))\<rparr>"

text \<open>The calls of \<^verbatim>\<open>mt25ql256aba_write_op\<close> in a list of calls: command, address, data.\<close>

fun write_calls :: "flash_call list \<Rightarrow> (u8 \<times> u8 list \<times> u8 list) list" where
  "write_calls [] = []"
| "write_calls (WRITE_OP c a b # cs) = (c, a, b) # write_calls cs"
| "write_calls (READ_OP c a n # cs) = write_calls cs"
| "write_calls (WRITE_ENABLE # cs) = write_calls cs"
| "write_calls (WRITE_DISABLE # cs) = write_calls cs"

text \<open>The state of the program over the recording driver, without the list of calls.\<close>

definition forget :: "('d \<times> flash_call list) system \<Rightarrow> 'd system" where
  "forget st =
     \<lparr>g_sample_set_buf = g_sample_set_buf st,
      g_flash_output_buf = g_flash_output_buf st,
      g_buf_index = g_buf_index st,
      flash_addr = flash_addr st,
      nrf_log = nrf_log st,
      flash = fst (flash st)\<rparr>"

section \<open>ICM20649 single register access\<close>

text \<open>
  \<^verbatim>\<open>icm20649_write_reg\<close>, \<^verbatim>\<open>icm20649_read_reg\<close> and \<^verbatim>\<open>icm20649_init\<close> over an SPI bus with a
  state: \<^verbatim>\<open>spi_write_and_read\<close> takes the transmit bytes, the receive buffer, the receive
  length and the state of the bus, and yields the status, the receive buffer and the next
  state. The local \<^verbatim>\<open>rx_buf\<close> of the two functions is not initialised; its contents before
  the transfer are the argument \<open>rx_buf\<close>. (The multibyte read above takes the answer of
  its one transfer as its argument.)
\<close>

type_synonym 'e spi_bus = "u8 list \<Rightarrow> u8 list \<Rightarrow> nat \<Rightarrow> 'e \<Rightarrow> s8 \<times> u8 list \<times> 'e"

definition icm20649_write_reg :: "'e spi_bus \<Rightarrow> u8 \<Rightarrow> u8 \<Rightarrow> u8 list \<Rightarrow> 'e \<Rightarrow> s8 \<times> 'e" where
  "icm20649_write_reg spi_write_and_read address data rx_buf e =
     (let tx_msg = [address, data];
          res = spi_write_and_read tx_msg rx_buf 2 e
      in (fst res, snd (snd res)))"

definition icm20649_read_reg :: "'e spi_bus \<Rightarrow> u8 \<Rightarrow> u8 list \<Rightarrow> 'e \<Rightarrow> s8 \<times> u8 \<times> 'e" where
  "icm20649_read_reg spi_write_and_read address rx_buf e =
     (let reg_addr = address OR 0x80;
          res = spi_write_and_read [reg_addr] rx_buf 2 e;
          ret = fst res;
          reg_data = fst (snd res) ! 1
      in (ret, reg_data, snd (snd res)))"

definition icm20649_init :: "'e spi_bus \<Rightarrow> u8 list \<Rightarrow> 'e \<Rightarrow> 'e" where
  "icm20649_init spi_write_and_read rx_buf e =
     (let e1 = snd (icm20649_write_reg spi_write_and_read 0x03 0x0 rx_buf e);
          e2 = snd (icm20649_write_reg spi_write_and_read 0x05 0x0 rx_buf e1);
          e3 = snd (icm20649_write_reg spi_write_and_read 0x06 0x1 rx_buf e2);
          e4 = snd (icm20649_write_reg spi_write_and_read 0x07 0x0 rx_buf e3);
          e5 = snd (icm20649_write_reg spi_write_and_read 0x7F 0x20 rx_buf e4);
          e6 = snd (icm20649_write_reg spi_write_and_read 0x1 0x4 rx_buf e5);
          e7 = snd (icm20649_write_reg spi_write_and_read 0x2 0x0 rx_buf e6);
          e8 = snd (icm20649_write_reg spi_write_and_read 0x14 0x6 rx_buf e7)
      in snd (icm20649_write_reg spi_write_and_read 0x7F 0x0 rx_buf e8))"

text \<open>
  \<^verbatim>\<open>icm20649_read_test\<close> and \<^verbatim>\<open>icm20649_write_test\<close> with their register accesses: the byte
  tested is the one \<^verbatim>\<open>icm20649_read_reg\<close> delivers; the statuses are discarded.
\<close>

definition icm20649_read_test_on ::
  "'e spi_bus \<Rightarrow> u8 list \<Rightarrow> 'e \<Rightarrow> log_line list \<Rightarrow> unit outcome \<times> 'e" where
  "icm20649_read_test_on spi_write_and_read rx_buf e lg =
     (let res = icm20649_read_reg spi_write_and_read 0x0 rx_buf e
      in (icm20649_read_test (fst (snd res)) lg, snd (snd res)))"

definition icm20649_write_test_on ::
  "'e spi_bus \<Rightarrow> u8 list \<Rightarrow> 'e \<Rightarrow> log_line list \<Rightarrow> unit outcome \<times> 'e" where
  "icm20649_write_test_on spi_write_and_read rx_buf e lg =
     (let e1 = snd (icm20649_write_reg spi_write_and_read 0x06 0x1 rx_buf e);
          res = icm20649_read_reg spi_write_and_read 0x06 rx_buf e1
      in (icm20649_write_test (fst (snd res)) lg, snd (snd res)))"

text \<open>A bus that answers as \<open>bus\<close> does, except that every status is replaced by \<open>f\<close> of it.\<close>

definition bus_with_statuses :: "(s8 \<Rightarrow> s8) \<Rightarrow> 'e spi_bus \<Rightarrow> 'e spi_bus" where
  "bus_with_statuses f bus = (\<lambda>tx rx n e. let res = bus tx rx n e in (f (fst res), snd res))"

section \<open>ADXL372 driver calls\<close>

text \<open>
  The ADXL372 driver is not part of the sources. \<^verbatim>\<open>adxl372_startup_test\<close> calls two of its
  functions: \<^verbatim>\<open>adxl372_get_dev_ID\<close>, which returns the identity byte, and
  \<^verbatim>\<open>adxl372_read_reg\<close>, which returns a status and delivers a byte. The statuses are
  collected in \<^verbatim>\<open>ret\<close>, which is never read. The register numbers
  \<^verbatim>\<open>ADI_ADXL372_MST_DEVID\<close> and \<^verbatim>\<open>ADI_ADXL372_DEVID\<close> are macros of a header that is not in
  the sources and are arguments. \<^verbatim>\<open>adxl372_init\<close> calls further functions of the driver,
  with macros of that header as arguments, and discards what they return; such a call is
  \<open>adxl372_call\<close> with the name of the function and its arguments as the source writes
  them, and yields the returned value and the next state of the device.
\<close>

record 'a adxl372_dev =
  adxl372_get_dev_ID :: "'a \<Rightarrow> u8 \<times> 'a"
  adxl372_read_reg :: "u8 \<Rightarrow> 'a \<Rightarrow> s8 \<times> u8 \<times> 'a"
  adxl372_call :: "string \<Rightarrow> string list \<Rightarrow> 'a \<Rightarrow> s8 \<times> 'a"

definition adxl372_startup_test_on ::
  "'a adxl372_dev \<Rightarrow> u8 \<Rightarrow> u8 \<Rightarrow> 'a \<Rightarrow> log_line list \<Rightarrow> unit outcome \<times> 'a" where
  "adxl372_startup_test_on drv ADI_ADXL372_MST_DEVID ADI_ADXL372_DEVID a lg =
     (let ret = (0 :: s8);
          r0 = adxl372_get_dev_ID drv a;
          device_id = fst r0;
          r1 = adxl372_read_reg drv ADI_ADXL372_MST_DEVID (snd r0);
          ret1 = ret OR fst r1;
          mst_devid = fst (snd r1);
          r2 = adxl372_read_reg drv ADI_ADXL372_DEVID (snd (snd r1));
          ret2 = ret1 OR fst r2;
          devid = fst (snd r2)
      in (adxl372_startup_test device_id mst_devid devid lg, snd (snd r2)))"

definition adxl372_init :: "'a adxl372_dev \<Rightarrow> 'a \<Rightarrow> 'a" where
  "adxl372_init drv a =
     (let a1 = snd (adxl372_call drv ''adxl372_reset'' [] a);
          a2 = snd (adxl372_call drv ''adxl372_set_op_mode'' [''STAND_BY''] a1);
          a3 = snd (adxl372_call drv ''adxl372_set_x_offset'' [''0''] a2);
          a4 = snd (adxl372_call drv ''adxl372_set_y_offset'' [''2''] a3);
          a5 = snd (adxl372_call drv ''adxl372_set_z_offset'' [''5''] a4);
          a6 = snd (adxl372_call drv ''adxl372_set_hpf_disable'' [''true''] a5);
          a7 = snd (adxl372_call drv ''adxl372_set_lpf_disable'' [''true''] a6);
          a8 = snd (adxl372_call drv ''adxl372_set_bandwidth'' [''BW_3200HZ''] a7);
          a9 = snd (adxl372_call drv ''adxl372_set_odr'' [''ODR_6400HZ''] a8);
          a10 = snd (adxl372_call drv ''adxl372_set_filter_settle'' [''FILTER_SETTLE_16''] a9);
          a11 = snd (adxl372_call drv ''adxl372_set_instaon_threshold''
                       [''ADXL_INSTAON_HIGH_THRESH''] a10);
          a12 = snd (adxl372_call drv ''adxl372_write_mask''
                       [''ADI_ADXL372_MEASURE'', ''MEASURE_LOW_NOISE_MASK'',
                        ''MEASURE_LOW_NOISE_POS'', ''LOW_NOISE''] a11)
      in snd (adxl372_call drv ''adxl372_set_op_mode'' [''INSTANT_ON''] a12))"

text \<open>A driver that answers as \<open>drv\<close> does, except that every status is replaced by \<open>f\<close>
  of it.\<close>

definition adxl_with_statuses :: "(s8 \<Rightarrow> s8) \<Rightarrow> 'a adxl372_dev \<Rightarrow> 'a adxl372_dev" where
  "adxl_with_statuses f drv =
     \<lparr>adxl372_get_dev_ID = adxl372_get_dev_ID drv,
      adxl372_read_reg = (\<lambda>r a. let res = adxl372_read_reg drv r a in (f (fst res), snd res)),
      adxl372_call = (\<lambda>n xs a. let res = adxl372_call drv n xs a in (f (fst res), snd res))\<rparr>"

section \<open>I2C transfers\<close>

text \<open>
  The TWI driver of the SDK is not part of the sources. A transfer is started with
  \<^verbatim>\<open>nrf_drv_twi_tx\<close> or \<^verbatim>\<open>nrf_drv_twi_xfer\<close>, whose return code the source discards; the
  driver reports the end of the transfer by calling \<^verbatim>\<open>twi_handler\<close> with one event. The
  bus is a parameter: given the device address, the bytes to send, the receive buffer and
  its state, it yields that event, the receive buffer afterwards and its next state.
\<close>

datatype nrf_drv_twi_evt =
    NRF_DRV_TWI_EVT_DONE
  | NRF_DRV_TWI_EVT_ADDRESS_NACK
  | NRF_DRV_TWI_EVT_DATA_NACK
  | NRF_DRV_TWI_EVT_OTHER

type_synonym 't twi_bus = "u8 \<Rightarrow> u8 list \<Rightarrow> u8 list \<Rightarrow> 't \<Rightarrow> nrf_drv_twi_evt \<times> u8 list \<times> 't"

text \<open>
  The globals of the I2C code (\<^verbatim>\<open>m_xfer_done\<close>, the proximity sample, \<^verbatim>\<open>prox_val\<close>, the
  \<^verbatim>\<open>byte\<close> of \<^verbatim>\<open>readRegister\<close>), the log lines written by that code and the state of the
  bus.
\<close>

record 't i2c =
  m_xfer_done :: bool
  m_sample_lsb :: u8
  m_sample_msb :: u8
  m_sample :: "16 word"
  prox_val :: "16 word"
  byte :: u8
  i2c_log :: "log_line list"
  twi :: 't

abbreviation (input) DS1388_ADDRESS :: u8 where "DS1388_ADDRESS \<equiv> 0x68"
abbreviation (input) CONTROL_REG :: u8 where "CONTROL_REG \<equiv> 0x0C"
abbreviation (input) EN_OSCILLATOR :: u8 where "EN_OSCILLATOR \<equiv> 0x00"
abbreviation (input) DIS_WD_COUNTER :: u8 where "DIS_WD_COUNTER \<equiv> 0x00"

definition twi_handler :: "nrf_drv_twi_evt \<Rightarrow> 't i2c \<Rightarrow> 't i2c" where
  "twi_handler p_event s =
     (case p_event of
        NRF_DRV_TWI_EVT_DONE \<Rightarrow> s\<lparr>m_xfer_done := True\<rparr>
      | NRF_DRV_TWI_EVT_DATA_NACK \<Rightarrow>
          s\<lparr>i2c_log := i2c_log s @ [LogText ([CHR 0x0D, CHR 0x0A] @ ''DATA NACK ERROR'')]\<rparr>
      | NRF_DRV_TWI_EVT_ADDRESS_NACK \<Rightarrow>
          s\<lparr>i2c_log := i2c_log s @ [LogText ([CHR 0x0D, CHR 0x0A] @ ''ADDRESS NACK ERROR'')]\<rparr>
      | NRF_DRV_TWI_EVT_OTHER \<Rightarrow> s)"

text \<open>
  \<^verbatim>\<open>while (m_xfer_done == false);\<close> once the event of the transfer has been handled:
  nothing else sets the flag, so the loop ends if and only if the flag is set. \<open>None\<close>
  stands for a wait that never ends.
\<close>

partial_function (option) wait_xfer_done :: "bool \<Rightarrow> unit option" where
  "wait_xfer_done flag = (if flag = False then wait_xfer_done flag else Some ())"

declare wait_xfer_done.simps [code]

text \<open>
  The three statements \<^verbatim>\<open>m_xfer_done = false; nrf_drv_twi_tx(...); while (m_xfer_done == false);\<close>
  of \<^verbatim>\<open>ds_config\<close> and \<^verbatim>\<open>vcnl_config\<close>.
\<close>

definition twi_tx_wait :: "'t twi_bus \<Rightarrow> u8 \<Rightarrow> u8 list \<Rightarrow> 't i2c \<Rightarrow> 't i2c option" where
  "twi_tx_wait bus address reg s =
     (let s0 = s\<lparr>m_xfer_done := False\<rparr>;
          res = bus address reg [] (twi s0);
          s1 = twi_handler (fst res) (s0\<lparr>twi := snd (snd res)\<rparr>)
      in case wait_xfer_done (m_xfer_done s1) of
           None \<Rightarrow> None
         | Some u \<Rightarrow> Some s1)"

text \<open>
  \<^verbatim>\<open>ds_config\<close>; the globals \<^verbatim>\<open>init_time\<close> and \<^verbatim>\<open>time_format\<close> are declared in a header that
  is not in the sources and are arguments.
\<close>

definition ds_config :: "'t twi_bus \<Rightarrow> u8 list \<Rightarrow> u8 \<Rightarrow> 't i2c \<Rightarrow> 't i2c option" where
  "ds_config bus init_time time_format s =
     (let reg0 = [CONTROL_REG, EN_OSCILLATOR OR DIS_WD_COUNTER]
      in case twi_tx_wait bus DS1388_ADDRESS reg0 s of
           None \<Rightarrow> None
         | Some s1 \<Rightarrow>
             let reg1 = [HUNDRED_SEC_REG,
                         dec2hex (init_time ! 7),
                         dec2hex (init_time ! 6),
                         dec2hex (init_time ! 5),
                         dec2hex (init_time ! 4) OR time_format,
                         dec2hex (init_time ! 3),
                         dec2hex (init_time ! 2),
                         dec2hex (init_time ! 1),
                         dec2hex (init_time ! 0)]
             in (case twi_tx_wait bus DS1388_ADDRESS reg1 s1 of
                   None \<Rightarrow> None
                 | Some s2 \<Rightarrow> Some (s2\<lparr>i2c_log := i2c_log s2 @ [LogText ''RTC initialized'']\<rparr>)))"

text \<open>
  \<^verbatim>\<open>vcnl_config\<close>; the device address and the two register images \<^verbatim>\<open>reg1\<close> and \<^verbatim>\<open>reg2\<close>
  are built from macros and globals of a header that is not in the sources and are
  arguments.
\<close>

definition vcnl_config ::
  "'t twi_bus \<Rightarrow> u8 \<Rightarrow> u8 list \<Rightarrow> u8 list \<Rightarrow> 't i2c \<Rightarrow> 't i2c option" where
  "vcnl_config bus VCNL4040_ADDR reg1 reg2 s =
     (case twi_tx_wait bus VCNL4040_ADDR reg1
             (s\<lparr>i2c_log := i2c_log s @ [LogText ''Configuring VCNL...'']\<rparr>) of
        None \<Rightarrow> None
      | Some s1 \<Rightarrow> twi_tx_wait bus VCNL4040_ADDR reg2 s1)"

text \<open>
  \<^verbatim>\<open>readRegister\<close> with its bus: it first waits for the flag the previous transfer has
  left, clears it, starts the transfer and waits until the driver is no longer busy (a
  wait of the driver, taken to end). The result is the byte returned and the state.
  Elsewhere, \<^verbatim>\<open>get_time\<close> takes the byte read as a function of the register.
\<close>

definition readRegister :: "'t twi_bus \<Rightarrow> u8 \<Rightarrow> 't i2c \<Rightarrow> (u8 \<times> 't i2c) option" where
  "readRegister bus reg_addr s =
     (case wait_xfer_done (m_xfer_done s) of
        None \<Rightarrow> None
      | Some u \<Rightarrow>
          let s0 = s\<lparr>m_xfer_done := False\<rparr>;
              res = bus DS1388_ADDRESS [reg_addr] [byte s0] (twi s0);
              s1 = twi_handler (fst res) (s0\<lparr>byte := fst (snd res) ! 0, twi := snd (snd res)\<rparr>)
          in Some (byte s1, s1))"

text \<open>
  The body of the loop of \<^verbatim>\<open>read_sensor_data\<close>: one transfer into the local \<^verbatim>\<open>reg4\<close>, which
  starts as the last sample, then the sample is rebuilt and logged. The macros
  \<^verbatim>\<open>VCNL4040_ADDR\<close>, \<^verbatim>\<open>VCNL4040_PS_DATA\<close> and \<^verbatim>\<open>PROX_THRESHOLD\<close> belong to a header that is not
  in the sources and are arguments.
\<close>

definition read_sensor_step :: "'t twi_bus \<Rightarrow> u8 \<Rightarrow> u8 \<Rightarrow> 't i2c \<Rightarrow> 't i2c" where
  "read_sensor_step bus VCNL4040_ADDR VCNL4040_PS_DATA s =
     (let reg3 = [VCNL4040_PS_DATA, VCNL4040_ADDR];
          reg4 = [m_sample_lsb s, m_sample_msb s];
          res = bus VCNL4040_ADDR reg3 reg4 (twi s);
          p_ret = fst (snd res);
          s1 = twi_handler (fst res) (s\<lparr>twi := snd (snd res)\<rparr>);
          s2 = s1\<lparr>m_sample_lsb := p_ret ! 0\<rparr>;
          s3 = s2\<lparr>m_sample_msb := p_ret ! 1\<rparr>;
          s4 = s3\<lparr>m_sample := push_bit 8 (ucast (m_sample_msb s3)) OR ucast (m_sample_lsb s3)\<rparr>;
          s5 = s4\<lparr>prox_val := m_sample s4\<rparr>
      in s5\<lparr>i2c_log := i2c_log s5 @ [LogProximity (m_sample s5)]\<rparr>)"

text \<open>The loop \<^verbatim>\<open>while (prox_val <= PROX_THRESHOLD)\<close>; \<open>None\<close> when it never ends.\<close>

partial_function (option) read_sensor_loop ::
  "'t twi_bus \<Rightarrow> u8 \<Rightarrow> u8 \<Rightarrow> int \<Rightarrow> 't i2c \<Rightarrow> 't i2c option" where
  "read_sensor_loop bus VCNL4040_ADDR VCNL4040_PS_DATA PROX_THRESHOLD s =
     (if uint (prox_val s) \<le> PROX_THRESHOLD
      then read_sensor_loop bus VCNL4040_ADDR VCNL4040_PS_DATA PROX_THRESHOLD
             (read_sensor_step bus VCNL4040_ADDR VCNL4040_PS_DATA s)
      else Some s)"

declare read_sensor_loop.simps [code]

definition read_sensor_data ::
  "'t twi_bus \<Rightarrow> u8 \<Rightarrow> u8 \<Rightarrow> int \<Rightarrow> 't i2c \<Rightarrow> 't i2c option" where
  "read_sensor_data bus VCNL4040_ADDR VCNL4040_PS_DATA PROX_THRESHOLD s =
     read_sensor_loop bus VCNL4040_ADDR VCNL4040_PS_DATA PROX_THRESHOLD (s\<lparr>m_xfer_done := False\<rparr>)"

text \<open>
  A bus that answers as \<open>bus\<close> does, except that every event is replaced by \<open>g\<close> of it;
  and an I2C state without what the events leave behind: the flag and the log lines of
  \<^verbatim>\<open>twi_handler\<close>.
\<close>

definition twi_with_events :: "(nrf_drv_twi_evt \<Rightarrow> nrf_drv_twi_evt) \<Rightarrow> 't twi_bus \<Rightarrow> 't twi_bus" where
  "twi_with_events g bus = (\<lambda>a tx rx t. let res = bus a tx rx t in (g (fst res), snd res))"

definition without_nack :: "log_line list \<Rightarrow> log_line list" where
  "without_nack lg =
     filter (\<lambda>l. l \<noteq> LogText ([CHR 0x0D, CHR 0x0A] @ ''DATA NACK ERROR'') \<and>
                 l \<noteq> LogText ([CHR 0x0D, CHR 0x0A] @ ''ADDRESS NACK ERROR'')) lg"

definition without_events :: "'t i2c \<Rightarrow> 't i2c" where
  "without_events s = s\<lparr>m_xfer_done := False, i2c_log := without_nack (i2c_log s)\<rparr>"

section \<open>Example inputs\<close>

text \<open>
  A flash that is always ready and answers every command with status 0: it identifies
  itself as the MT25QL256ABA, keeps the pages programmed (latest first) and reads a page
  back at the address it was programmed at, \<open>0xFF\<close> elsewhere.
\<close>

definition example_flash :: "(u8 list \<times> u8 list) list flash_dev" where
  "example_flash =
     \<lparr>mt25ql256aba_read_op =
        (\<lambda>c a n d.
           if c = MT25QL256ABA_READ_ID then (0, [0x20, 0xBA, 0x19], d)
           else if c = MT25QL256ABA_READ
                then (0, (case map_of d a of Some bs \<Rightarrow> take n bs | None \<Rightarrow> replicate n 0xFF), d)
                else (0, replicate n 0, d)),
      mt25ql256aba_write_op = (\<lambda>c a b d. (0, (a, b) # d)),
      mt25ql256aba_write_enable = (\<lambda>d. (0, d)),
      mt25ql256aba_write_disable = (\<lambda>d. (0, d))\<rparr>"

definition example_adxl :: "s16 \<Rightarrow> adxl372_accel_data" where
  "example_adxl v = \<lparr>adxl_x = v, adxl_y = 0, adxl_z = 0\<rparr>"

text \<open>An acquisition: high-g x axis \<open>v\<close>, ICM bytes \<open>1, 2, ..., 12\<close> with status 0, an RTC
  that reads \<open>0x21\<close> in every register.\<close>

definition example_acquisition :: "s16 \<Rightarrow> acquisition" where
  "example_acquisition v =
     \<lparr>acq_adxl = example_adxl v,
      acq_spi = (\<lambda>tx rx n. (0, [0, 1, 2, 3, 4, 5, 6, 7, 8, 9, 10, 11, 12])),
      acq_rtc = (\<lambda>r. 0x21)\<rparr>"

text \<open>A system with a buffer of capacity 2, nothing captured yet.\<close>

definition example_system :: "(u8 list \<times> u8 list) list system" where
  "example_system =
     \<lparr>g_sample_set_buf = [zero_sample, zero_sample],
      g_flash_output_buf = [zero_sample, zero_sample],
      g_buf_index = 0,
      flash_addr = MT25QL256ABA_LOW_128MBIT_SEGMENT_ADDRESS_START,
      nrf_log = [],
      flash = []\<rparr>"

text \<open>An SPI transfer that returns the given status and leaves \<open>0x00, 0xAA, 0xBB\<close> in the
  receive buffer.\<close>

definition example_spi :: "s8 \<Rightarrow> u8 list \<Rightarrow> u8 list \<Rightarrow> nat \<Rightarrow> s8 \<times> u8 list" where
  "example_spi ret tx rx n = (ret, [0, 0xAA, 0xBB])"

text \<open>Two conversions that change every value they are applied to, and the status map
  that turns every status into \<open>-1\<close>.\<close>

definition example_to_mg :: "s16 \<Rightarrow> s16" where
  "example_to_mg v = v + 1"

definition example_to_mrad :: "s16 \<Rightarrow> s16" where
  "example_to_mrad v = v + 2"

definition all_nack :: "s8 \<Rightarrow> s8" where
  "all_nack r = - 1"

text \<open>
  A flash that stays busy for ever: every read delivers bytes with the lowest bit set,
  every status is 0.
\<close>

definition busy_flash :: "unit flash_dev" where
  "busy_flash =
     \<lparr>mt25ql256aba_read_op = (\<lambda>c a n d. (0, replicate n 0x01, d)),
      mt25ql256aba_write_op = (\<lambda>c a b d. (0, d)),
      mt25ql256aba_write_enable = (\<lambda>d. (0, d)),
      mt25ql256aba_write_disable = (\<lambda>d. (0, d))\<rparr>"

definition busy_system :: "unit system" where
  "busy_system =
     \<lparr>g_sample_set_buf = [zero_sample],
      g_flash_output_buf = [zero_sample],
      g_buf_index = 1,
      flash_addr = MT25QL256ABA_LOW_128MBIT_SEGMENT_ADDRESS_START,
      nrf_log = [],
      flash = ()\<rparr>"

text \<open>Two buffered records that differ from one another, and a system over the recording
  driver of the example flash that holds them, no call made yet.\<close>

definition example_sample :: "s16 \<Rightarrow> impact_sample" where
  "example_sample v =
     \<lparr>adxl_data = \<lparr>adxl_x = v, adxl_y = 0x0102, adxl_z = 0x0304\<rparr>,
      icm_data = \<lparr>accel_x = 0x0506, accel_y = 0x0708, accel_z = 0x090A,
                  gyro_x = 0x0B0C, gyro_y = 0x0D0E, gyro_z = 0x0F10\<rparr>,
      ds_data = \<lparr>year = 21, month = 3, date = 5, day = 6, hour = 13, minute = 37,
                 second = 11, hundreth = 99\<rparr>\<rparr>"

definition example_recording_system :: "((u8 list \<times> u8 list) list \<times> flash_call list) system" where
  "example_recording_system =
     \<lparr>g_sample_set_buf = [example_sample 0x1112, example_sample 0x1314],
      g_flash_output_buf = [zero_sample, zero_sample],
      g_buf_index = 2,
      flash_addr = MT25QL256ABA_LOW_128MBIT_SEGMENT_ADDRESS_START,
      nrf_log = [],
      flash = ([], [])\<rparr>"

text \<open>An I2C bus on which every transfer ends with the given event and leaves the receive
  buffer as it was, an I2C state with nothing done yet, and an SPI bus with a state (the
  number of transfers made) that returns the given status.\<close>

definition example_twi :: "nrf_drv_twi_evt \<Rightarrow> unit twi_bus" where
  "example_twi ev address tx rx t = (ev, rx, t)"

definition example_i2c :: "unit i2c" where
  "example_i2c =
     \<lparr>m_xfer_done = False, m_sample_lsb = 0, m_sample_msb = 0, m_sample = 0, prox_val = 0,
      byte = 0, i2c_log = [], twi = ()\<rparr>"

definition example_bus :: "s8 \<Rightarrow> nat spi_bus" where
  "example_bus ret tx rx n e = (ret, [0, 0xE1], e + 1)"

section \<open>Auxiliary lemmas\<close>

lemma unat_u8_le: "\<not> unat (n :: u8) > 256"
  using unsigned_less [of n, where ?'a = nat] by simp

lemma multibyte_fail:
  "sint (fst (spi [reg_addr OR 0x80] (replicate (unat num_bytes + 1) 0) (unat num_bytes + 1))) < 0 \<Longrightarrow>
   icm20649_multibyte_read_reg spi reg_addr reg_data num_bytes =
     (fst (spi [reg_addr OR 0x80] (replicate (unat num_bytes + 1) 0) (unat num_bytes + 1)), reg_data)"
  by (simp add: icm20649_multibyte_read_reg_def Let_def unat_u8_le)

lemma multibyte_ok:
  "\<not> sint (fst (spi [reg_addr OR 0x80] (replicate (unat num_bytes + 1) 0) (unat num_bytes + 1))) < 0 \<Longrightarrow>
   icm20649_multibyte_read_reg spi reg_addr reg_data num_bytes =
     (fst (spi [reg_addr OR 0x80] (replicate (unat num_bytes + 1) 0) (unat num_bytes + 1)),
      memcpy reg_data (drop 1 (snd (spi [reg_addr OR 0x80] (replicate (unat num_bytes + 1) 0) (unat num_bytes + 1)))) (unat num_bytes))"
  by (simp add: icm20649_multibyte_read_reg_def Let_def unat_u8_le)

lemma sample_impact_data_full:
  "\<not> g_buf_index st < C \<Longrightarrow> sample_impact_data C mg mr a st = st"
  by (simp add: sample_impact_data_def Let_def)

lemma impact_sample_overwrite:
  "(r :: impact_sample)\<lparr>adxl_data := a, icm_data := b, ds_data := c\<rparr> =
     \<lparr>adxl_data = a, icm_data = b, ds_data = c\<rparr>"
  by (cases r) simp

lemma sample_impact_data_append:
  "g_buf_index st < C \<Longrightarrow> length (g_sample_set_buf st) = C \<Longrightarrow>
   sample_impact_data C mg mr a st =
     st\<lparr>g_sample_set_buf := (g_sample_set_buf st)[g_buf_index st := acquired_sample mg mr a],
        g_buf_index := g_buf_index st + 1\<rparr>"
  by (simp add: sample_impact_data_def Let_def acquired_sample_def impact_sample_overwrite)

lemma capture_full:
  "\<not> g_buf_index st < C \<Longrightarrow> capture C mg mr acqs st = st"
  by (induction acqs arbitrary: st) (simp_all add: sample_impact_data_full)

lemma capture_gen:
  "g_buf_index st \<le> C \<Longrightarrow> length (g_sample_set_buf st) = C \<Longrightarrow>
   g_buf_index (capture C mg mr acqs st) = min (g_buf_index st + length acqs) C \<and>
   length (g_sample_set_buf (capture C mg mr acqs st)) = C \<and>
   (\<forall>i < g_buf_index st. g_sample_set_buf (capture C mg mr acqs st) ! i = g_sample_set_buf st ! i) \<and>
   (\<forall>j < length acqs. g_buf_index st + j < C \<longrightarrow>
        g_sample_set_buf (capture C mg mr acqs st) ! (g_buf_index st + j) = acquired_sample mg mr (acqs ! j))"
proof (induction acqs arbitrary: st)
  case Nil
  then show ?case by simp
next
  case (Cons a acqs)
  show ?case
  proof (cases "g_buf_index st < C")
    case False
    with Cons.prems show ?thesis
      by (simp add: sample_impact_data_full capture_full)
  next
    case True
    let ?st1 = "sample_impact_data C mg mr a st"
    have s1: "?st1 = st\<lparr>g_sample_set_buf := (g_sample_set_buf st)[g_buf_index st := acquired_sample mg mr a],
        g_buf_index := g_buf_index st + 1\<rparr>"
      using True Cons.prems by (simp add: sample_impact_data_append)
    have p1: "g_buf_index ?st1 \<le> C" "length (g_sample_set_buf ?st1) = C"
      using True Cons.prems by (simp_all add: s1)
    note ih = Cons.IH [OF p1]
    have i1: "g_buf_index ?st1 = g_buf_index st + 1" by (simp add: s1)
    show ?thesis
    proof (intro conjI allI impI)
      show "g_buf_index (capture C mg mr (a # acqs) st) = min (g_buf_index st + length (a # acqs)) C"
        using ih i1 by simp
      show "length (g_sample_set_buf (capture C mg mr (a # acqs) st)) = C"
        using ih by simp
    next
      fix i assume "i < g_buf_index st"
      then show "g_sample_set_buf (capture C mg mr (a # acqs) st) ! i = g_sample_set_buf st ! i"
        using ih i1 by (simp add: s1)
    next
      fix j assume j: "j < length (a # acqs)" "g_buf_index st + j < C"
      show "g_sample_set_buf (capture C mg mr (a # acqs) st) ! (g_buf_index st + j) =
            acquired_sample mg mr ((a # acqs) ! j)"
      proof (cases j)
        case 0
        have "g_sample_set_buf (capture C mg mr acqs ?st1) ! (g_buf_index st) = g_sample_set_buf ?st1 ! (g_buf_index st)"
          using ih i1 by simp
        then show ?thesis using 0 True Cons.prems by (simp add: s1)
      next
        case (Suc k)
        then have "k < length acqs" "g_buf_index ?st1 + k < C" using j i1 by simp_all
        then have "g_sample_set_buf (capture C mg mr acqs ?st1) ! (g_buf_index ?st1 + k) = acquired_sample mg mr (acqs ! k)"
          using ih by blast
        then show ?thesis using Suc i1 by simp
      qed
    qed
  qed
qed

lemma convert_fields:
  "accel_x (icm20649_convert_data mg mr d) = mg (accel_x d) \<and>
   accel_y (icm20649_convert_data mg mr d) = mg (accel_y d) \<and>
   accel_z (icm20649_convert_data mg mr d) = mg (accel_z d) \<and>
   gyro_x (icm20649_convert_data mg mr d) = mr (gyro_x d) \<and>
   gyro_y (icm20649_convert_data mg mr d) = mr (gyro_y d) \<and>
   gyro_z (icm20649_convert_data mg mr d) = mr (gyro_z d)"
  by (simp add: icm20649_convert_data_def Let_def)

lemma adxl_eq_iff:
  "((a :: adxl372_accel_data) = b) = (adxl_x a = adxl_x b \<and> adxl_y a = adxl_y b \<and> adxl_z a = adxl_z b)"
  by (cases a, cases b) auto

lemma ds_eq_iff:
  "((a :: ds1388_data) = b) =
     (date a = date b \<and> day a = day b \<and> year a = year b \<and> month a = month b \<and>
      hour a = hour b \<and> minute a = minute b \<and> second a = second b \<and> hundreth a = hundreth b)"
  by (cases a, cases b) auto

lemma serial_output_record_block:
  "serial_output_record i f s lg = lg @ record_block i f s"
  by (simp add: serial_output_record_def record_block_def Let_def high_g_match_def low_g_match_def
      gyro_match_def timestamp_match_def adxl_eq_iff ds_eq_iff)

lemma serial_output_loop_blocks:
  "serial_output_loop st i lg =
     lg @ concat (map (\<lambda>k. record_block k (g_flash_output_buf st ! k) (g_sample_set_buf st ! k))
                      [i ..< g_buf_index st])"
proof (induction st i lg rule: serial_output_loop.induct)
  case (1 st i lg)
  show ?case
  proof (cases "i < g_buf_index st")
    case True
    then show ?thesis
      using "1.IH" [OF True]
      by (subst serial_output_loop.simps) (simp add: serial_output_record_block upt_conv_Cons)
  next
    case False
    then show ?thesis by (subst serial_output_loop.simps) simp
  qed
qed

lemma wait_impact_iff:
  "(wait_impact T rs = CAPTURING) = (\<exists>r \<in> set rs. impact_threshold_met T r)"
  by (induction rs) auto

lemma store_record_Some:
  assumes "store_record dv i buf st = Some (buf1, st1)"
  shows "g_buf_index st1 = g_buf_index st"
    and "g_sample_set_buf st1 = g_sample_set_buf st"
    and "flash_addr st1 = flash_addr st + 32"
    and "length (g_flash_output_buf st1) = length (g_flash_output_buf st)"
    and "\<forall>k. k \<noteq> i \<longrightarrow> g_flash_output_buf st1 ! k = g_flash_output_buf st ! k"
    and "nrf_log st1 = nrf_log st @
           [LogText '''', LogWrite i (flash_addr st),
            LogRead i (flash_addr st) (adxl_x (adxl_data (g_flash_output_buf st1 ! i)))
                    (adxl_x (adxl_data (g_sample_set_buf st ! i)))]"
    and "buf1 = memcpy buf (impact_sample_bytes (g_sample_set_buf st ! i)) sizeof_impact_sample_t"
  using assms
  by (auto simp add: store_record_def Let_def split: option.splits)

lemma store_loop_gen:
  "store_loop dv i buf st = Some st' \<Longrightarrow> flash_addr st = base + 32 * of_nat i \<Longrightarrow>
   i \<le> g_buf_index st \<Longrightarrow>
   flash_addr st' = base + 32 * of_nat (g_buf_index st) \<and>
   g_buf_index st' = g_buf_index st \<and>
   g_sample_set_buf st' = g_sample_set_buf st \<and>
   length (g_flash_output_buf st') = length (g_flash_output_buf st) \<and>
   (\<forall>k < i. g_flash_output_buf st' ! k = g_flash_output_buf st ! k) \<and>
   nrf_log st' = nrf_log st @
     concat (map (store_lines base (g_flash_output_buf st') (g_sample_set_buf st))
                 [i ..< g_buf_index st])"
proof (induction dv i buf st arbitrary: st' rule: store_loop.induct)
  case (1 dv i buf st)
  show ?case
  proof (cases "i < g_buf_index st")
    case False
    with "1.prems" show ?thesis
      by (subst (asm) store_loop.simps) auto
  next
    case True
    from "1.prems"(1) True obtain buf1 st1 where
      r: "store_record dv i buf st = Some (buf1, st1)" and
      l: "store_loop dv (i + 1) buf1 st1 = Some st'"
      by (subst (asm) store_loop.simps) (auto split: option.splits)
    note f = store_record_Some [OF r]
    have a1: "flash_addr st1 = base + 32 * of_nat (i + 1)"
      using f(3) "1.prems"(2) by (simp add: algebra_simps)
    have a2: "i + 1 \<le> g_buf_index st1" using True f(1) by simp
    note ih = "1.IH" [OF True r refl l a1 a2]
    have keep: "g_flash_output_buf st' ! i = g_flash_output_buf st1 ! i"
      using ih by simp
    have lines: "store_lines base (g_flash_output_buf st') (g_sample_set_buf st) i =
           [LogText '''', LogWrite i (flash_addr st),
            LogRead i (flash_addr st) (adxl_x (adxl_data (g_flash_output_buf st1 ! i)))
                    (adxl_x (adxl_data (g_sample_set_buf st ! i)))]"
      using keep "1.prems"(2) by (simp add: store_lines_def)
    show ?thesis
    proof (intro conjI allI impI)
      show "flash_addr st' = base + 32 * of_nat (g_buf_index st)" using ih f(1) by simp
      show "g_buf_index st' = g_buf_index st" using ih f(1) by simp
      show "g_sample_set_buf st' = g_sample_set_buf st" using ih f(2) by simp
      show "length (g_flash_output_buf st') = length (g_flash_output_buf st)" using ih f(4) by simp
      show "nrf_log st' = nrf_log st @
        concat (map (store_lines base (g_flash_output_buf st') (g_sample_set_buf st))
                 [i ..< g_buf_index st])"
        using ih f(1) f(2) f(6) lines True by (simp add: upt_conv_Cons)
    next
      fix k assume "k < i"
      then show "g_flash_output_buf st' ! k = g_flash_output_buf st ! k"
        using ih f(5) by simp
    qed
  qed
qed

lemma with_statuses_sel:
  "snd (mt25ql256aba_read_op (with_statuses f dv) c a n d) = snd (mt25ql256aba_read_op dv c a n d)"
  "snd (mt25ql256aba_write_op (with_statuses f dv) c a b d) = snd (mt25ql256aba_write_op dv c a b d)"
  "snd (mt25ql256aba_write_enable (with_statuses f dv) d) = snd (mt25ql256aba_write_enable dv d)"
  "snd (mt25ql256aba_write_disable (with_statuses f dv) d) = snd (mt25ql256aba_write_disable dv d)"
  by (simp_all add: with_statuses_def Let_def)

lemma check_ready_to_statuses:
  assumes "mt25ql256aba_check_ready_flag dv d = Some y"
  shows "mt25ql256aba_check_ready_flag (with_statuses f dv) d = Some y"
proof (rule mt25ql256aba_check_ready_flag.raw_induct
    [where P = "\<lambda>dv d y. mt25ql256aba_check_ready_flag (with_statuses f dv) d = Some y",
     OF _ assms])
  fix chk :: "'a flash_dev \<Rightarrow> 'a \<Rightarrow> 'a option" and dv d y
  assume ih: "\<And>dv d y. chk dv d = Some y \<Longrightarrow>
                mt25ql256aba_check_ready_flag (with_statuses f dv) d = Some y"
    and body: "(let res = mt25ql256aba_read_op dv MT25QL256ABA_READ_STATUS_REGISTER [] 1 d;
                    flash_ready = fst (snd res) ! 0 AND 0x1
                in if flash_ready = 1 then chk dv (snd (snd res)) else Some (snd (snd res))) = Some y"
  show "mt25ql256aba_check_ready_flag (with_statuses f dv) d = Some y"
  proof (cases "fst (snd (mt25ql256aba_read_op dv MT25QL256ABA_READ_STATUS_REGISTER [] 1 d)) ! 0 AND 0x1 = 1")
    case True
    with body have "chk dv (snd (snd (mt25ql256aba_read_op dv MT25QL256ABA_READ_STATUS_REGISTER [] 1 d))) = Some y"
      by (simp add: Let_def)
    from ih [OF this] True show ?thesis
      by (subst mt25ql256aba_check_ready_flag.simps) (simp add: Let_def with_statuses_sel)
  next
    case False
    with body have "snd (snd (mt25ql256aba_read_op dv MT25QL256ABA_READ_STATUS_REGISTER [] 1 d)) = y"
      by (simp add: Let_def)
    with False show ?thesis
      by (subst mt25ql256aba_check_ready_flag.simps) (simp add: Let_def with_statuses_sel)
  qed
qed

lemma check_ready_from_statuses_aux:
  assumes "mt25ql256aba_check_ready_flag dv' d = Some y"
  shows "\<forall>dv. dv' = with_statuses f dv \<longrightarrow> mt25ql256aba_check_ready_flag dv d = Some y"
proof (rule mt25ql256aba_check_ready_flag.raw_induct
    [where P = "\<lambda>dv' d y. \<forall>dv. dv' = with_statuses f dv \<longrightarrow>
                    mt25ql256aba_check_ready_flag dv d = Some y",
     OF _ assms])
  fix chk :: "'a flash_dev \<Rightarrow> 'a \<Rightarrow> 'a option" and dv' d y
  assume ih: "\<And>dv' d y. chk dv' d = Some y \<Longrightarrow>
                \<forall>dv. dv' = with_statuses f dv \<longrightarrow> mt25ql256aba_check_ready_flag dv d = Some y"
    and body: "(let res = mt25ql256aba_read_op dv' MT25QL256ABA_READ_STATUS_REGISTER [] 1 d;
                    flash_ready = fst (snd res) ! 0 AND 0x1
                in if flash_ready = 1 then chk dv' (snd (snd res)) else Some (snd (snd res))) = Some y"
  show "\<forall>dv. dv' = with_statuses f dv \<longrightarrow> mt25ql256aba_check_ready_flag dv d = Some y"
  proof (intro allI impI)
    fix dv assume e: "dv' = with_statuses f dv"
    let ?r = "mt25ql256aba_read_op dv MT25QL256ABA_READ_STATUS_REGISTER [] 1 d"
    show "mt25ql256aba_check_ready_flag dv d = Some y"
    proof (cases "fst (snd ?r) ! 0 AND 0x1 = 1")
      case True
      with body e have "chk dv' (snd (snd ?r)) = Some y"
        by (simp add: Let_def with_statuses_sel)
      from ih [OF this] e have "mt25ql256aba_check_ready_flag dv (snd (snd ?r)) = Some y" by blast
      with True show ?thesis
        by (subst mt25ql256aba_check_ready_flag.simps) (simp add: Let_def)
    next
      case False
      with body e have "snd (snd ?r) = y"
        by (simp add: Let_def with_statuses_sel)
      with False show ?thesis
        by (subst mt25ql256aba_check_ready_flag.simps) (simp add: Let_def)
    qed
  qed
qed

lemma check_ready_from_statuses:
  "mt25ql256aba_check_ready_flag (with_statuses f dv) d = Some y \<Longrightarrow>
   mt25ql256aba_check_ready_flag dv d = Some y"
  using check_ready_from_statuses_aux [of "with_statuses f dv" d y f] by simp

lemma check_ready_statuses:
  "mt25ql256aba_check_ready_flag (with_statuses f dv) d = mt25ql256aba_check_ready_flag dv d"
proof (cases "mt25ql256aba_check_ready_flag dv d")
  case (Some y)
  then show ?thesis by (simp add: check_ready_to_statuses)
next
  case None
  show ?thesis
  proof (cases "mt25ql256aba_check_ready_flag (with_statuses f dv) d")
    case None
    then show ?thesis using \<open>mt25ql256aba_check_ready_flag dv d = None\<close> by simp
  next
    case (Some y)
    then have "mt25ql256aba_check_ready_flag dv d = Some y"
      by (rule check_ready_from_statuses)
    then show ?thesis using None by simp
  qed
qed

lemma store_record_statuses:
  "store_record (with_statuses f dv) i buf st = store_record dv i buf st"
  by (simp add: store_record_def check_ready_statuses with_statuses_sel Let_def
      cong: option.case_cong)

lemma store_loop_statuses:
  "store_loop (with_statuses f dv) i buf st = store_loop dv i buf st"
proof (induction dv i buf st rule: store_loop.induct)
  case (1 dv i buf st)
  show ?case
  proof (cases "i < g_buf_index st")
    case False
    then show ?thesis
      by (simp add: store_loop.simps [of "with_statuses f dv" i] store_loop.simps [of dv i])
  next
    case True
    show ?thesis
    proof (cases "store_record dv i buf st")
      case None
      then show ?thesis using True
        by (simp add: store_loop.simps [of "with_statuses f dv" i] store_loop.simps [of dv i]
            store_record_statuses)
    next
      case (Some p)
      obtain buf1 st1 where p: "p = (buf1, st1)" by (cases p)
      show ?thesis using True Some p "1.IH" [OF True Some [unfolded p] refl]
        by (simp add: store_loop.simps [of "with_statuses f dv" i] store_loop.simps [of dv i]
            store_record_statuses)
    qed
  qed
qed

lemma example_flash_ops:
  "mt25ql256aba_read_op example_flash c a n d =
     (if c = MT25QL256ABA_READ_ID then (0, [0x20, 0xBA, 0x19], d)
      else if c = MT25QL256ABA_READ
           then (0, (case map_of d a of Some bs \<Rightarrow> take n bs | None \<Rightarrow> replicate n 0xFF), d)
           else (0, replicate n 0, d))"
  "mt25ql256aba_write_op example_flash c a b d = (0, (a, b) # d)"
  "mt25ql256aba_write_enable example_flash d = (0, d)"
  "mt25ql256aba_write_disable example_flash d = (0, d)"
  by (simp_all add: example_flash_def)

lemma check_example: "mt25ql256aba_check_ready_flag example_flash d = Some d"
  by (subst mt25ql256aba_check_ready_flag.simps) (simp add: example_flash_ops)

lemma cursor_unat:
  "unat a + 32 * n < 2 ^ 32 \<Longrightarrow> unat (a + 32 * of_nat n :: u32) = unat a + 32 * n"
proof -
  assume b: "unat a + 32 * n < 2 ^ 32"
  have "(32 :: u32) * of_nat n = of_nat (32 * n)" by simp
  then have "unat (a + 32 * of_nat n :: u32) = (unat a + (32 * n) mod 2 ^ 32) mod 2 ^ 32"
    by (simp only: unat_word_ariths unat_of_nat) simp
  also have "\<dots> = unat a + 32 * n" using b by simp
  finally show ?thesis .
qed

lemma impact_sample_bytes_length: "length (impact_sample_bytes r) = 26"
  by (simp add: impact_sample_bytes_def s16_bytes_def)

lemma store_samples_gen:
  assumes "mt25ql256aba_store_samples dv st = Some st'"
  shows "flash_addr st' = flash_addr st + 32 * of_nat (g_buf_index st)"
    and "g_buf_index st' = g_buf_index st"
    and "g_sample_set_buf st' = g_sample_set_buf st"
    and "nrf_log st' = nrf_log st @ [LogText '''', LogText ''BEGIN STORE SAMPLES...''] @
           concat (map (store_lines (flash_addr st) (g_flash_output_buf st') (g_sample_set_buf st))
                       [0 ..< g_buf_index st])"
  using store_loop_gen [OF assms [unfolded mt25ql256aba_store_samples_def], of "flash_addr st"]
  by simp_all

lemma example_raw:
  "icm20649_read_gyro_accel_data (acq_spi (example_acquisition v)) =
     \<lparr>accel_x = 0x0102, accel_y = 0x0304, accel_z = 0x0506,
      gyro_x = 0x0708, gyro_y = 0x090A, gyro_z = 0x0B0C\<rparr>"
  by code_simp

lemma unat_quotient_bcd: "n < 100 \<Longrightarrow> (n + 6 * (n div 10)) div 16 = (n :: nat) div 10"
  by arith

lemma low24_mask: "(A :: u32) AND 0xFFFFFF = take_bit 24 A"
  by (simp add: take_bit_eq_mask mask_eq_exp_minus_1)

lemma address_roundtrip:
  "address_of_3byte (convert_4byte_address_to_3byte_address A) = take_bit 24 A"
  unfolding address_of_3byte_def convert_4byte_address_to_3byte_address_def u32_bytes_def
  apply simp
  apply (rule bit_word_eqI)
  apply (auto simp add: bit_simps)
  subgoal for n by (cases "16 \<le> n") auto
  done

lemma convert_take_bit:
  "convert_4byte_address_to_3byte_address (take_bit 24 A) = convert_4byte_address_to_3byte_address A"
  unfolding convert_4byte_address_to_3byte_address_def u32_bytes_def
  apply simp
  apply (intro conjI bit_word_eqI)
  apply (auto simp add: bit_simps)
  done

lemma retrieve_record_Some:
  assumes "retrieve_record dv i addr32 st = Some st1"
  shows "g_buf_index st1 = g_buf_index st" and "g_sample_set_buf st1 = g_sample_set_buf st"
  using assms by (auto simp add: retrieve_record_def Let_def split: option.splits)

lemma retrieve_loop_keeps:
  "retrieve_loop dv i addr32 st = Some st' \<Longrightarrow>
   g_buf_index st' = g_buf_index st \<and> g_sample_set_buf st' = g_sample_set_buf st"
proof (induction dv i addr32 st arbitrary: st' rule: retrieve_loop.induct)
  case (1 dv i addr32 st)
  show ?case
  proof (cases "i < g_buf_index st")
    case False
    with "1.prems" show ?thesis by (subst (asm) retrieve_loop.simps) auto
  next
    case True
    from "1.prems" True obtain st1 where
      r: "retrieve_record dv i addr32 st = Some st1" and
      l: "retrieve_loop dv (i + 1) (addr32 + 32) st1 = Some st'"
      by (subst (asm) retrieve_loop.simps) (auto split: option.splits)
    from "1.IH" [OF True r l] retrieve_record_Some [OF r] show ?thesis by simp
  qed
qed

lemma retrieve_samples_keeps:
  "mt25ql256aba_retrieve_samples dv st = Some st' \<Longrightarrow> g_sample_set_buf st' = g_sample_set_buf st"
  using retrieve_loop_keeps [of dv 0 0 _ st'] by (simp add: mt25ql256aba_retrieve_samples_def)

text \<open>
  The model run on the example: two records captured out of three acquisitions, stored,
  retrieved and printed. Every line of both records is printed, so the bytes read back
  from the example flash decode to the records that were stored.
\<close>

lemma example_episode:
  "map_option nrf_log (store_retrieve_output example_flash
     (capture 2 example_to_mg example_to_mrad
        [example_acquisition 5, example_acquisition 6, example_acquisition 7] example_system)) =
   Some [LogText '''', LogText ''BEGIN STORE SAMPLES...'',
         LogText '''', LogWrite 0 0, LogRead 0 0 5 5,
         LogText '''', LogWrite 1 32, LogRead 1 32 6 6,
         LogText '''', LogText ''BEGIN RETRIEVE SAMPLES'', LogRead 0 0 5 5, LogRead 1 32 6 6,
         LogText ''===================IMPACT DATA OUTPUT==================='',
         LogText '''', LogId 0, LogHighG 5 0 0, LogLowG 259 773 1287, LogGyro 1802 2316 2830,
         LogDate 21 21 21, LogTime 21 21 21 21,
         LogText '''', LogId 1, LogHighG 6 0 0, LogLowG 259 773 1287, LogGyro 1802 2316 2830,
         LogDate 21 21 21, LogTime 21 21 21 21,
         LogText ''====================DATA OUTPUT FINISH=================='']"
  by code_simp

text \<open>
  The self-test of \<^verbatim>\<open>main\<close>: a mismatch of a flash identity byte, of the ICM identity, of
  the ICM write read-back or of the third ADXL372 identity halts; when these six agree
  the self-test passes whatever the first two ADXL372 identities read.
\<close>

lemma self_test_halts_on_checked_mismatch:
  assumes "fst (snd (mt25ql256aba_read_op dv MT25QL256ABA_READ_ID [] 3 d)) ! 0 \<noteq> 0x20 \<or>
           fst (snd (mt25ql256aba_read_op dv MT25QL256ABA_READ_ID [] 3 d)) ! 1 \<noteq> 0xBA \<or>
           fst (snd (mt25ql256aba_read_op dv MT25QL256ABA_READ_ID [] 3 d)) ! 2 \<noteq> 0x19 \<or>
           who_am_i \<noteq> 0xE1 \<or> write_read \<noteq> 0x1 \<or> devid \<noteq> ADI_ADXL372_DEVID_VAL"
  shows "\<exists>l. self_test dv d who_am_i write_read device_id mst_devid devid lg = HALT_FAULT l"
  using assms
  by (auto simp add: self_test_def mt25ql256aba_startup_test_def icm20649_read_test_def
      icm20649_write_test_def adxl372_startup_test_def Let_def)

lemma self_test_passes_when_all_match:
  assumes "fst (snd (mt25ql256aba_read_op dv MT25QL256ABA_READ_ID [] 3 d)) ! 0 = 0x20"
      and "fst (snd (mt25ql256aba_read_op dv MT25QL256ABA_READ_ID [] 3 d)) ! 1 = 0xBA"
      and "fst (snd (mt25ql256aba_read_op dv MT25QL256ABA_READ_ID [] 3 d)) ! 2 = 0x19"
      and "who_am_i = 0xE1" and "write_read = 0x1" and "devid = ADI_ADXL372_DEVID_VAL"
  shows "\<exists>d1 l. self_test dv d who_am_i write_read device_id mst_devid devid lg = PASSED d1 l"
  using assms
  by (auto simp add: self_test_def mt25ql256aba_startup_test_def icm20649_read_test_def
      icm20649_write_test_def adxl372_startup_test_def Let_def)

text \<open>The recording driver: the ready poll adds no write call, and dropping the list of
  calls gives the run over the driver itself.\<close>

lemma recording_sel:
  "mt25ql256aba_read_op (recording dv) c a n s =
     (fst (mt25ql256aba_read_op dv c a n (fst s)), fst (snd (mt25ql256aba_read_op dv c a n (fst s))),
      (snd (snd (mt25ql256aba_read_op dv c a n (fst s))), snd s @ [READ_OP c a n]))"
  "mt25ql256aba_write_op (recording dv) c a b s =
     (fst (mt25ql256aba_write_op dv c a b (fst s)),
      (snd (mt25ql256aba_write_op dv c a b (fst s)), snd s @ [WRITE_OP c a b]))"
  "mt25ql256aba_write_enable (recording dv) s =
     (fst (mt25ql256aba_write_enable dv (fst s)),
      (snd (mt25ql256aba_write_enable dv (fst s)), snd s @ [WRITE_ENABLE]))"
  "mt25ql256aba_write_disable (recording dv) s =
     (fst (mt25ql256aba_write_disable dv (fst s)),
      (snd (mt25ql256aba_write_disable dv (fst s)), snd s @ [WRITE_DISABLE]))"
  by (simp_all add: recording_def Let_def)

lemma write_calls_append: "write_calls (xs @ ys) = write_calls xs @ write_calls ys"
  by (induction xs rule: write_calls.induct) simp_all

lemma check_ready_recording_aux:
  assumes "mt25ql256aba_check_ready_flag dv' s = Some s'"
  shows "\<forall>dv. dv' = recording dv \<longrightarrow>
           mt25ql256aba_check_ready_flag dv (fst s) = Some (fst s') \<and>
           write_calls (snd s') = write_calls (snd s)"
proof (rule mt25ql256aba_check_ready_flag.raw_induct
    [where P = "\<lambda>dv' s s'. \<forall>dv. dv' = recording dv \<longrightarrow>
                    mt25ql256aba_check_ready_flag dv (fst s) = Some (fst s') \<and>
                    write_calls (snd s') = write_calls (snd s)",
     OF _ assms])
  fix chk :: "('a \<times> flash_call list) flash_dev \<Rightarrow> 'a \<times> flash_call list \<Rightarrow> ('a \<times> flash_call list) option"
    and dv' s s'
  assume ih: "\<And>dv' s s'. chk dv' s = Some s' \<Longrightarrow>
                \<forall>dv. dv' = recording dv \<longrightarrow>
                  mt25ql256aba_check_ready_flag dv (fst s) = Some (fst s') \<and>
                  write_calls (snd s') = write_calls (snd s)"
    and body: "(let res = mt25ql256aba_read_op dv' MT25QL256ABA_READ_STATUS_REGISTER [] 1 s;
                    flash_ready = fst (snd res) ! 0 AND 0x1
                in if flash_ready = 1 then chk dv' (snd (snd res)) else Some (snd (snd res))) = Some s'"
  show "\<forall>dv. dv' = recording dv \<longrightarrow>
           mt25ql256aba_check_ready_flag dv (fst s) = Some (fst s') \<and>
           write_calls (snd s') = write_calls (snd s)"
  proof (intro allI impI)
    fix dv assume e: "dv' = recording dv"
    let ?r = "mt25ql256aba_read_op dv MT25QL256ABA_READ_STATUS_REGISTER [] 1 (fst s)"
    let ?s1 = "(snd (snd ?r), snd s @ [READ_OP MT25QL256ABA_READ_STATUS_REGISTER [] 1])"
    show "mt25ql256aba_check_ready_flag dv (fst s) = Some (fst s') \<and>
           write_calls (snd s') = write_calls (snd s)"
    proof (cases "fst (snd ?r) ! 0 AND 0x1 = 1")
      case True
      with body e have "chk dv' ?s1 = Some s'"
        by (simp add: Let_def recording_sel)
      from ih [OF this] e have
        a: "mt25ql256aba_check_ready_flag dv (snd (snd ?r)) = Some (fst s')" and
        b: "write_calls (snd s') = write_calls (snd s @ [READ_OP MT25QL256ABA_READ_STATUS_REGISTER [] 1])"
        by auto
      from a True have "mt25ql256aba_check_ready_flag dv (fst s) = Some (fst s')"
        by (subst mt25ql256aba_check_ready_flag.simps) (simp add: Let_def)
      with b show ?thesis by (simp add: write_calls_append)
    next
      case False
      with body e have "?s1 = s'"
        by (simp add: Let_def recording_sel)
      then have f: "fst s' = snd (snd ?r)" and
        g: "snd s' = snd s @ [READ_OP MT25QL256ABA_READ_STATUS_REGISTER [] 1]" by auto
      from False f have "mt25ql256aba_check_ready_flag dv (fst s) = Some (fst s')"
        by (subst mt25ql256aba_check_ready_flag.simps) (simp add: Let_def)
      with g show ?thesis by (simp add: write_calls_append)
    qed
  qed
qed

lemma check_ready_recording:
  "mt25ql256aba_check_ready_flag (recording dv) s = Some s' \<Longrightarrow>
   mt25ql256aba_check_ready_flag dv (fst s) = Some (fst s') \<and>
   write_calls (snd s') = write_calls (snd s)"
  using check_ready_recording_aux [of "recording dv" s s'] by simp

lemma check_ready_to_recording:
  assumes "mt25ql256aba_check_ready_flag dv d = Some d'"
  shows "\<forall>tr. \<exists>tr'. mt25ql256aba_check_ready_flag (recording dv) (d, tr) = Some (d', tr')"
proof (rule mt25ql256aba_check_ready_flag.raw_induct
    [where P = "\<lambda>dv d d'. \<forall>tr. \<exists>tr'. mt25ql256aba_check_ready_flag (recording dv) (d, tr) = Some (d', tr')",
     OF _ assms])
  fix chk :: "'a flash_dev \<Rightarrow> 'a \<Rightarrow> 'a option" and dv d d'
  assume ih: "\<And>dv d d'. chk dv d = Some d' \<Longrightarrow>
                \<forall>tr. \<exists>tr'. mt25ql256aba_check_ready_flag (recording dv) (d, tr) = Some (d', tr')"
    and body: "(let res = mt25ql256aba_read_op dv MT25QL256ABA_READ_STATUS_REGISTER [] 1 d;
                    flash_ready = fst (snd res) ! 0 AND 0x1
                in if flash_ready = 1 then chk dv (snd (snd res)) else Some (snd (snd res))) = Some d'"
  let ?r = "mt25ql256aba_read_op dv MT25QL256ABA_READ_STATUS_REGISTER [] 1 d"
  show "\<forall>tr. \<exists>tr'. mt25ql256aba_check_ready_flag (recording dv) (d, tr) = Some (d', tr')"
  proof
    fix tr
    show "\<exists>tr'. mt25ql256aba_check_ready_flag (recording dv) (d, tr) = Some (d', tr')"
    proof (cases "fst (snd ?r) ! 0 AND 0x1 = 1")
      case True
      with body have "chk dv (snd (snd ?r)) = Some d'" by (simp add: Let_def)
      from ih [OF this] obtain tr' where
        "mt25ql256aba_check_ready_flag (recording dv)
           (snd (snd ?r), tr @ [READ_OP MT25QL256ABA_READ_STATUS_REGISTER [] 1]) = Some (d', tr')"
        by blast
      with True have "mt25ql256aba_check_ready_flag (recording dv) (d, tr) = Some (d', tr')"
        by (subst mt25ql256aba_check_ready_flag.simps) (simp add: Let_def recording_sel)
      then show ?thesis by blast
    next
      case False
      with body have "snd (snd ?r) = d'" by (simp add: Let_def)
      with False have "mt25ql256aba_check_ready_flag (recording dv) (d, tr) =
          Some (d', tr @ [READ_OP MT25QL256ABA_READ_STATUS_REGISTER [] 1])"
        by (subst mt25ql256aba_check_ready_flag.simps) (simp add: Let_def recording_sel)
      then show ?thesis by blast
    qed
  qed
qed

lemma check_ready_forget:
  "map_option fst (mt25ql256aba_check_ready_flag (recording dv) s) =
   mt25ql256aba_check_ready_flag dv (fst s)"
proof (cases "mt25ql256aba_check_ready_flag (recording dv) s")
  case (Some s')
  then show ?thesis using check_ready_recording [OF Some] by simp
next
  case None
  show ?thesis
  proof (cases "mt25ql256aba_check_ready_flag dv (fst s)")
    case None
    then show ?thesis using \<open>mt25ql256aba_check_ready_flag (recording dv) s = None\<close> by simp
  next
    case (Some d')
    from check_ready_to_recording [OF Some] obtain tr' where
      "mt25ql256aba_check_ready_flag (recording dv) (fst s, snd s) = Some (d', tr')" by blast
    then show ?thesis using None by simp
  qed
qed

lemma forget_sel:
  "g_sample_set_buf (forget st) = g_sample_set_buf st"
  "g_flash_output_buf (forget st) = g_flash_output_buf st"
  "g_buf_index (forget st) = g_buf_index st"
  "flash_addr (forget st) = flash_addr st"
  "nrf_log (forget st) = nrf_log st"
  "flash (forget st) = fst (flash st)"
  by (simp_all add: forget_def)

lemma forget_update:
  "forget (st\<lparr>g_flash_output_buf := fo, flash_addr := a, nrf_log := lg, flash := s\<rparr>) =
   (forget st)\<lparr>g_flash_output_buf := fo, flash_addr := a, nrf_log := lg, flash := fst s\<rparr>"
  "forget (st\<lparr>nrf_log := lg\<rparr>) = (forget st)\<lparr>nrf_log := lg\<rparr>"
  by (simp_all add: forget_def)

lemma store_record_recording:
  assumes "store_record (recording dv) i buf st = Some (buf1, st1)"
  shows "write_calls (snd (flash st1)) =
           write_calls (snd (flash st)) @
             [(MT25QL256ABA_PAGE_PROGRAM, convert_4byte_address_to_3byte_address (flash_addr st), buf1)]"
    and "store_record dv i buf (forget st) = Some (buf1, forget st1)"
proof -
  let ?b1 = "memcpy buf (impact_sample_bytes (g_sample_set_buf st ! i)) sizeof_impact_sample_t"
  let ?a = "convert_4byte_address_to_3byte_address (flash_addr st)"
  from assms obtain s1 where
    c1: "mt25ql256aba_check_ready_flag (recording dv) (flash st) = Some s1"
    by (auto simp add: store_record_def Let_def split: option.splits)
  let ?s4 = "snd (mt25ql256aba_write_disable (recording dv)
               (snd (mt25ql256aba_write_op (recording dv) MT25QL256ABA_PAGE_PROGRAM ?a ?b1
                  (snd (mt25ql256aba_write_enable (recording dv) s1)))))"
  from assms c1 obtain s5 where
    c2: "mt25ql256aba_check_ready_flag (recording dv) ?s4 = Some s5"
    by (auto simp add: store_record_def Let_def split: option.splits)
  note r1 = check_ready_recording [OF c1]
  note r2 = check_ready_recording [OF c2]
  from assms c1 c2 have b: "buf1 = ?b1"
    by (simp add: store_record_def Let_def)
  from assms c1 c2 have f: "flash st1 = snd (snd (mt25ql256aba_read_op (recording dv) MT25QL256ABA_READ ?a 32 s5))"
    by (auto simp add: store_record_def Let_def)
  show "write_calls (snd (flash st1)) =
           write_calls (snd (flash st)) @ [(MT25QL256ABA_PAGE_PROGRAM, ?a, buf1)]"
    using r1 r2 b by (simp add: f recording_sel write_calls_append)
  show "store_record dv i buf (forget st) = Some (buf1, forget st1)"
    using assms c1 c2 r1 r2
    by (auto simp add: store_record_def Let_def recording_sel forget_sel forget_update)
qed

lemma store_record_recording_None:
  assumes "store_record (recording dv) i buf st = None"
  shows "store_record dv i buf (forget st) = None"
proof (cases "mt25ql256aba_check_ready_flag (recording dv) (flash st)")
  case None
  then have "mt25ql256aba_check_ready_flag dv (fst (flash st)) = None"
    using check_ready_forget [of dv "flash st"] by simp
  then show ?thesis by (simp add: store_record_def Let_def forget_sel)
next
  case (Some s1)
  let ?b1 = "memcpy buf (impact_sample_bytes (g_sample_set_buf st ! i)) sizeof_impact_sample_t"
  let ?a = "convert_4byte_address_to_3byte_address (flash_addr st)"
  let ?s4 = "snd (mt25ql256aba_write_disable (recording dv)
               (snd (mt25ql256aba_write_op (recording dv) MT25QL256ABA_PAGE_PROGRAM ?a ?b1
                  (snd (mt25ql256aba_write_enable (recording dv) s1)))))"
  from assms Some have n: "mt25ql256aba_check_ready_flag (recording dv) ?s4 = None"
    by (auto simp add: store_record_def Let_def split: option.splits)
  have n': "mt25ql256aba_check_ready_flag dv (fst ?s4) = None"
    using check_ready_forget [of dv ?s4] n by simp
  note r1 = check_ready_recording [OF Some]
  show ?thesis using r1 n'
    by (simp add: store_record_def Let_def forget_sel recording_sel)
qed

lemma store_record_forget:
  "map_option (\<lambda>p. (fst p, forget (snd p))) (store_record (recording dv) i buf st) =
   store_record dv i buf (forget st)"
proof (cases "store_record (recording dv) i buf st")
  case None
  then show ?thesis using store_record_recording_None [OF None] by simp
next
  case (Some p)
  obtain buf1 st1 where p: "p = (buf1, st1)" by (cases p)
  show ?thesis using Some p store_record_recording(2) [OF Some [unfolded p]] by simp
qed

lemma store_loop_forget:
  "map_option forget (store_loop (recording dv) i buf st) = store_loop dv i buf (forget st)"
proof (induction "recording dv" i buf st rule: store_loop.induct)
  case (1 i buf st)
  show ?case
  proof (cases "i < g_buf_index st")
    case False
    then show ?thesis
      by (simp add: store_loop.simps [of "recording dv" i] store_loop.simps [of dv i] forget_sel)
  next
    case True
    show ?thesis
    proof (cases "store_record (recording dv) i buf st")
      case None
      then show ?thesis using True store_record_recording_None [OF None]
        by (simp add: store_loop.simps [of "recording dv" i] store_loop.simps [of dv i] forget_sel)
    next
      case (Some p)
      obtain buf1 st1 where p: "p = (buf1, st1)" by (cases p)
      note r = store_record_recording(2) [OF Some [unfolded p]]
      show ?thesis using True Some p r "1.hyps" [OF True Some [unfolded p] refl]
        by (simp add: store_loop.simps [of "recording dv" i] store_loop.simps [of dv i] forget_sel)
    qed
  qed
qed

lemma store_loop_pages:
  "store_loop (recording dv) i buf st = Some st' \<Longrightarrow> flash_addr st = base + 32 * of_nat i \<Longrightarrow>
   i \<le> g_buf_index st \<Longrightarrow> drop 26 buf = tl6 \<Longrightarrow>
   write_calls (snd (flash st')) =
     write_calls (snd (flash st)) @
       map (\<lambda>k. (MT25QL256ABA_PAGE_PROGRAM,
                 convert_4byte_address_to_3byte_address (base + 32 * of_nat k),
                 impact_sample_bytes (g_sample_set_buf st ! k) @ tl6))
           [i ..< g_buf_index st]"
proof (induction "recording dv" i buf st arbitrary: st' rule: store_loop.induct)
  case (1 i buf st)
  show ?case
  proof (cases "i < g_buf_index st")
    case False
    with "1.prems" show ?thesis
      by (subst (asm) store_loop.simps) auto
  next
    case True
    from "1.prems"(1) True obtain buf1 st1 where
      r: "store_record (recording dv) i buf st = Some (buf1, st1)" and
      l: "store_loop (recording dv) (i + 1) buf1 st1 = Some st'"
      by (subst (asm) store_loop.simps) (auto split: option.splits)
    note f = store_record_Some [OF r]
    note p = store_record_recording(1) [OF r]
    have a1: "flash_addr st1 = base + 32 * of_nat (i + 1)"
      using f(3) "1.prems"(2) by (simp add: algebra_simps)
    have a2: "i + 1 \<le> g_buf_index st1" using True f(1) by simp
    have b1: "buf1 = impact_sample_bytes (g_sample_set_buf st ! i) @ tl6"
      using f(7) "1.prems"(4) by (simp add: memcpy_def impact_sample_bytes_length)
    have a3: "drop 26 buf1 = tl6"
      by (simp add: b1 impact_sample_bytes_length)
    note ih = "1.hyps" [OF True r refl l a1 a2 a3]
    show ?thesis
      using ih p f(1) f(2) b1 True "1.prems"(2) by (simp add: upt_conv_Cons)
  qed
qed

text \<open>When the store loop returns; a flash that stays busy; the wait for the transfer flag.\<close>

lemma store_record_polls:
  "store_record dv i buf st =
     (case mt25ql256aba_check_ready_flag dv (flash st) of
        None \<Rightarrow> None
      | Some d1 \<Rightarrow>
          (case mt25ql256aba_check_ready_flag dv (store_program dv i buf st d1) of
             None \<Rightarrow> None
           | Some d5 \<Rightarrow> store_record dv i buf st))"
  by (simp add: store_record_def store_program_def Let_def split: option.splits)

lemma store_record_None_iff:
  "(store_record dv i buf st = None) =
     (mt25ql256aba_check_ready_flag dv (flash st) = None \<or>
      (\<exists>d1. mt25ql256aba_check_ready_flag dv (flash st) = Some d1 \<and>
            mt25ql256aba_check_ready_flag dv (store_program dv i buf st d1) = None))"
  by (auto simp add: store_record_def store_program_def Let_def split: option.splits)

lemma store_loop_returns_iff:
  "(store_loop dv i buf st \<noteq> None) =
     (\<forall>d \<in> set (store_polls dv i buf st). mt25ql256aba_check_ready_flag dv d \<noteq> None)"
proof (induction dv i buf st rule: store_loop.induct)
  case (1 dv i buf st)
  show ?case
  proof (cases "i < g_buf_index st")
    case False
    then show ?thesis
      by (simp add: store_loop.simps [of dv i] store_polls.simps [of dv i])
  next
    case True
    show ?thesis
    proof (cases "mt25ql256aba_check_ready_flag dv (flash st)")
      case None
      then have "store_record dv i buf st = None" by (simp add: store_record_None_iff)
      with True None show ?thesis
        by (simp add: store_loop.simps [of dv i] store_polls.simps [of dv i])
    next
      case (Some d1)
      show ?thesis
      proof (cases "mt25ql256aba_check_ready_flag dv (store_program dv i buf st d1)")
        case None
        with Some have "store_record dv i buf st = None" by (simp add: store_record_None_iff)
        with True Some None show ?thesis
          by (simp add: store_loop.simps [of dv i] store_polls.simps [of dv i])
      next
        case (Some d5)
        with \<open>mt25ql256aba_check_ready_flag dv (flash st) = Some d1\<close>
        have "store_record dv i buf st \<noteq> None" by (simp add: store_record_None_iff)
        then obtain buf1 st1 where r: "store_record dv i buf st = Some (buf1, st1)" by auto
        show ?thesis
          using True r Some \<open>mt25ql256aba_check_ready_flag dv (flash st) = Some d1\<close>
            "1.IH" [OF True r refl]
          by (simp add: store_loop.simps [of dv i] store_polls.simps [of dv i])
      qed
    qed
  qed
qed

lemma store_samples_returns_iff:
  "(mt25ql256aba_store_samples dv st \<noteq> None) =
     (\<forall>d \<in> set (store_samples_polls dv st). mt25ql256aba_check_ready_flag dv d \<noteq> None)"
  by (simp only: mt25ql256aba_store_samples_def store_samples_polls_def store_loop_returns_iff)

lemma store_samples_forget:
  "map_option forget (mt25ql256aba_store_samples (recording dv) st) =
   mt25ql256aba_store_samples dv (forget st)"
  by (simp add: mt25ql256aba_store_samples_def store_loop_forget forget_update forget_sel)

lemma store_samples_pages:
  assumes "mt25ql256aba_store_samples (recording dv) st = Some st'"
  shows "write_calls (snd (flash st')) =
     write_calls (snd (flash st)) @
       map (\<lambda>k. (MT25QL256ABA_PAGE_PROGRAM,
                 convert_4byte_address_to_3byte_address (flash_addr st + 32 * of_nat k),
                 impact_sample_bytes (g_sample_set_buf st ! k) @ replicate 6 0))
           [0 ..< g_buf_index st]"
  using store_loop_pages [OF assms [unfolded mt25ql256aba_store_samples_def], of "flash_addr st" "replicate 6 0"]
  by simp

lemma check_busy_aux:
  assumes "mt25ql256aba_check_ready_flag dv d = Some y"
  shows "dv \<noteq> busy_flash"
proof (rule mt25ql256aba_check_ready_flag.raw_induct
    [where P = "\<lambda>dv d y. dv \<noteq> busy_flash", OF _ assms])
  fix chk :: "unit flash_dev \<Rightarrow> unit \<Rightarrow> unit option" and dv d y
  assume ih: "\<And>dv d y. chk dv d = Some y \<Longrightarrow> dv \<noteq> busy_flash"
    and body: "(let res = mt25ql256aba_read_op dv MT25QL256ABA_READ_STATUS_REGISTER [] 1 d;
                    flash_ready = fst (snd res) ! 0 AND 0x1
                in if flash_ready = 1 then chk dv (snd (snd res)) else Some (snd (snd res))) = Some y"
  show "dv \<noteq> busy_flash"
  proof
    assume e: "dv = busy_flash"
    with body have "chk dv d = Some y"
      by (simp add: Let_def busy_flash_def)
    from ih [OF this] e show False by simp
  qed
qed

lemma check_busy: "mt25ql256aba_check_ready_flag busy_flash d = None"
  using check_busy_aux [of busy_flash d] by (cases "mt25ql256aba_check_ready_flag busy_flash d") auto

lemma wait_xfer_done_aux:
  assumes "wait_xfer_done m = Some y"
  shows "m"
proof (rule wait_xfer_done.raw_induct [where P = "\<lambda>m y. m", OF _ assms])
  fix w :: "bool \<Rightarrow> unit option" and m y
  assume ih: "\<And>m y. w m = Some y \<Longrightarrow> m"
    and body: "(if m = False then w m else Some ()) = Some y"
  show "m"
  proof (cases m)
    case True then show ?thesis .
  next
    case False
    with body have "w m = Some y" by simp
    from ih [OF this] show ?thesis .
  qed
qed

lemma wait_xfer_done_iff: "wait_xfer_done m = (if m then Some () else None)"
proof (cases m)
  case True
  then show ?thesis by (subst wait_xfer_done.simps) simp
next
  case False
  then show ?thesis using wait_xfer_done_aux [of m] by (cases "wait_xfer_done m") auto
qed

text \<open>The operations under replaced statuses and events.\<close>

lemma reset_device_statuses:
  "reset_device (with_statuses f dv) st = reset_device dv st"
  by (simp add: reset_device_def check_ready_statuses with_statuses_sel Let_def
      cong: option.case_cong)

lemma bulk_erase_statuses:
  "bulk_erase (with_statuses f dv) st = bulk_erase dv st"
  by (simp add: bulk_erase_def with_statuses_sel Let_def)

lemma erase_statuses:
  "mt25ql256aba_erase (with_statuses f dv) st = mt25ql256aba_erase dv st"
  by (simp add: mt25ql256aba_erase_def check_ready_statuses with_statuses_sel Let_def
      cong: option.case_cong)

lemma retrieve_record_statuses:
  "retrieve_record (with_statuses f dv) i a st = retrieve_record dv i a st"
  by (simp add: retrieve_record_def check_ready_statuses with_statuses_sel Let_def
      cong: option.case_cong)

lemma retrieve_loop_statuses:
  "retrieve_loop (with_statuses f dv) i a st = retrieve_loop dv i a st"
proof (induction dv i a st rule: retrieve_loop.induct)
  case (1 dv i a st)
  show ?case
  proof (cases "i < g_buf_index st")
    case False
    then show ?thesis
      by (simp add: retrieve_loop.simps [of "with_statuses f dv" i] retrieve_loop.simps [of dv i])
  next
    case True
    show ?thesis
    proof (cases "retrieve_record dv i a st")
      case None
      then show ?thesis using True
        by (simp add: retrieve_loop.simps [of "with_statuses f dv" i] retrieve_loop.simps [of dv i]
            retrieve_record_statuses)
    next
      case (Some st1)
      show ?thesis using True Some "1.IH" [OF True Some]
        by (simp add: retrieve_loop.simps [of "with_statuses f dv" i] retrieve_loop.simps [of dv i]
            retrieve_record_statuses)
    qed
  qed
qed

lemma retrieve_samples_statuses:
  "mt25ql256aba_retrieve_samples (with_statuses f dv) st = mt25ql256aba_retrieve_samples dv st"
  by (simp add: mt25ql256aba_retrieve_samples_def retrieve_loop_statuses)

lemma without_fail_append: "without_fail (xs @ ys) = without_fail xs @ without_fail ys"
  by (simp add: without_fail_def)

lemma without_fail_check: "without_fail (spi_ret_check ret lg) = without_fail lg"
  by (simp add: without_fail_def spi_ret_check_def)

lemma startup_test_statuses:
  "outcome_without_fail (mt25ql256aba_startup_test (with_statuses f dv) d lg) =
   outcome_without_fail (mt25ql256aba_startup_test dv d lg)"
  by (simp add: mt25ql256aba_startup_test_def outcome_without_fail_def with_statuses_sel Let_def
      without_fail_append without_fail_check)

lemma full_page_read_statuses:
  "map_option system_without_fail (full_page_read (with_statuses f dv) st) =
   map_option system_without_fail (full_page_read dv st)"
  by (simp add: full_page_read_def system_without_fail_def check_ready_statuses with_statuses_sel
      Let_def without_fail_append without_fail_check split: option.splits)

lemma flash_read_byte_statuses:
  assumes "system_without_fail st = system_without_fail st'"
  shows "map_option system_without_fail (flash_read_byte (with_statuses f dv) a st) =
         map_option system_without_fail (flash_read_byte dv a st')"
proof -
  from assms have l: "without_fail (nrf_log st) = without_fail (nrf_log st')"
    and d: "flash st = flash st'"
    and r: "st\<lparr>nrf_log := x, flash := y\<rparr> = st'\<lparr>nrf_log := x, flash := y\<rparr>" for x y
    by (cases st; cases st'; simp add: system_without_fail_def)+
  show ?thesis
    by (simp add: flash_read_byte_def system_without_fail_def check_ready_statuses with_statuses_sel
      Let_def without_fail_append without_fail_check l d r split: option.splits)
qed

lemma flash_read_loop_statuses:
  "system_without_fail st = system_without_fail st' \<Longrightarrow>
   map_option system_without_fail (flash_read_loop (with_statuses f dv) n i a st) =
   map_option system_without_fail (flash_read_loop dv n i a st')"
proof (induction dv n i a st' arbitrary: st rule: flash_read_loop.induct)
  case (1 dv n i a st')
  show ?case
  proof (cases "i < n")
    case False
    then show ?thesis using "1.prems"
      by (simp add: flash_read_loop.simps [of "with_statuses f dv" n i]
          flash_read_loop.simps [of dv n i])
  next
    case True
    note b = flash_read_byte_statuses [OF "1.prems", of f dv a]
    show ?thesis
    proof (cases "flash_read_byte dv a st'")
      case None
      with b have "flash_read_byte (with_statuses f dv) a st = None" by simp
      with None True show ?thesis
        by (simp add: flash_read_loop.simps [of "with_statuses f dv" n i]
            flash_read_loop.simps [of dv n i])
    next
      case (Some s1')
      with b obtain s1 where s: "flash_read_byte (with_statuses f dv) a st = Some s1"
        and e: "system_without_fail s1 = system_without_fail s1'" by auto
      show ?thesis using True Some s "1.IH" [OF True Some e]
        by (simp add: flash_read_loop.simps [of "with_statuses f dv" n i]
            flash_read_loop.simps [of dv n i])
    qed
  qed
qed

lemma flash_read_bytes_statuses:
  "map_option system_without_fail (flash_read_bytes (with_statuses f dv) n st) =
   map_option system_without_fail (flash_read_bytes dv n st)"
  unfolding flash_read_bytes_def by (rule flash_read_loop_statuses) simp

lemma bus_with_statuses_sel:
  "snd (bus_with_statuses f bus tx rx n e) = snd (bus tx rx n e)"
  "fst (bus_with_statuses f bus tx rx n e) = f (fst (bus tx rx n e))"
  by (simp_all add: bus_with_statuses_def Let_def)

lemma write_reg_statuses:
  "icm20649_write_reg (bus_with_statuses f bus) a v rx e =
     (f (fst (icm20649_write_reg bus a v rx e)), snd (icm20649_write_reg bus a v rx e))"
  by (simp add: icm20649_write_reg_def bus_with_statuses_sel Let_def)

lemma read_reg_statuses:
  "icm20649_read_reg (bus_with_statuses f bus) a rx e =
     (f (fst (icm20649_read_reg bus a rx e)), snd (icm20649_read_reg bus a rx e))"
  by (simp add: icm20649_read_reg_def bus_with_statuses_sel Let_def)

lemma icm_init_statuses:
  "icm20649_init (bus_with_statuses f bus) rx e = icm20649_init bus rx e"
  by (simp add: icm20649_init_def write_reg_statuses Let_def)

lemma icm_read_test_statuses:
  "icm20649_read_test_on (bus_with_statuses f bus) rx e lg = icm20649_read_test_on bus rx e lg"
  by (simp add: icm20649_read_test_on_def read_reg_statuses Let_def)

lemma icm_write_test_statuses:
  "icm20649_write_test_on (bus_with_statuses f bus) rx e lg = icm20649_write_test_on bus rx e lg"
  by (simp add: icm20649_write_test_on_def read_reg_statuses write_reg_statuses Let_def)

lemma twi_handler_simps:
  "twi_handler NRF_DRV_TWI_EVT_DONE s = s\<lparr>m_xfer_done := True\<rparr>"
  "twi_handler NRF_DRV_TWI_EVT_DATA_NACK s =
     s\<lparr>i2c_log := i2c_log s @ [LogText ([CHR 0x0D, CHR 0x0A] @ ''DATA NACK ERROR'')]\<rparr>"
  "twi_handler NRF_DRV_TWI_EVT_ADDRESS_NACK s =
     s\<lparr>i2c_log := i2c_log s @ [LogText ([CHR 0x0D, CHR 0x0A] @ ''ADDRESS NACK ERROR'')]\<rparr>"
  "twi_handler NRF_DRV_TWI_EVT_OTHER s = s"
  by (simp_all add: twi_handler_def)

lemma twi_handler_flag:
  "m_xfer_done (twi_handler ev s) = (ev = NRF_DRV_TWI_EVT_DONE \<or> m_xfer_done s)"
  by (cases ev) (simp_all add: twi_handler_simps)

lemma twi_tx_wait_iff:
  "twi_tx_wait bus a reg s =
     (if fst (bus a reg [] (twi s)) = NRF_DRV_TWI_EVT_DONE
      then Some (s\<lparr>m_xfer_done := True, twi := snd (snd (bus a reg [] (twi s)))\<rparr>)
      else None)"
  by (cases "fst (bus a reg [] (twi s))")
     (simp_all add: twi_tx_wait_def twi_handler_simps wait_xfer_done_iff Let_def)

lemma ds_config_iff:
  "ds_config bus it tf s =
     (let reg0 = [CONTROL_REG, EN_OSCILLATOR OR DIS_WD_COUNTER];
          reg1 = [HUNDRED_SEC_REG, dec2hex (it ! 7), dec2hex (it ! 6), dec2hex (it ! 5),
                  dec2hex (it ! 4) OR tf, dec2hex (it ! 3), dec2hex (it ! 2),
                  dec2hex (it ! 1), dec2hex (it ! 0)];
          r0 = bus DS1388_ADDRESS reg0 [] (twi s);
          r1 = bus DS1388_ADDRESS reg1 [] (snd (snd r0))
      in if fst r0 = NRF_DRV_TWI_EVT_DONE \<and> fst r1 = NRF_DRV_TWI_EVT_DONE
         then Some (s\<lparr>m_xfer_done := True,
                      i2c_log := i2c_log s @ [LogText ''RTC initialized''],
                      twi := snd (snd r1)\<rparr>)
         else None)"
  by (simp add: ds_config_def twi_tx_wait_iff Let_def)

lemma vcnl_config_iff:
  "vcnl_config bus a reg1 reg2 s =
     (let r1 = bus a reg1 [] (twi s);
          r2 = bus a reg2 [] (snd (snd r1))
      in if fst r1 = NRF_DRV_TWI_EVT_DONE \<and> fst r2 = NRF_DRV_TWI_EVT_DONE
         then Some (s\<lparr>m_xfer_done := True,
                      i2c_log := i2c_log s @ [LogText ''Configuring VCNL...''],
                      twi := snd (snd r2)\<rparr>)
         else None)"
  by (simp add: vcnl_config_def twi_tx_wait_iff Let_def)

lemma readRegister_iff:
  "(readRegister bus r s \<noteq> None) = m_xfer_done s"
  by (simp add: readRegister_def wait_xfer_done_iff Let_def)

lemma readRegister_flag:
  "readRegister bus r s = Some (b, s') \<Longrightarrow>
   m_xfer_done s' = (fst (bus DS1388_ADDRESS [r] [byte s] (twi s)) = NRF_DRV_TWI_EVT_DONE)"
  by (auto simp add: readRegister_def wait_xfer_done_iff twi_handler_flag Let_def
      split: if_splits)

lemma adxl_startup_statuses:
  "adxl372_startup_test_on (adxl_with_statuses f drv) r1 r2 a lg =
   adxl372_startup_test_on drv r1 r2 a lg"
  by (simp add: adxl372_startup_test_on_def adxl_with_statuses_def Let_def)

lemma read_gyro_fail:
  assumes "sint (fst (spi [0xAD] (replicate 13 0) 13)) < 0"
  shows "icm20649_read_gyro_accel_data spi =
     \<lparr>accel_x = 0, accel_y = 0, accel_z = 0, gyro_x = 0, gyro_y = 0, gyro_z = 0\<rparr>"
proof -
  have u: "unat (12 :: u8) + 1 = 13" by simp
  have a: "(0x2D :: u8) OR 0x80 = 0xAD" by simp
  have m: "icm20649_multibyte_read_reg spi 0x2D (replicate 12 0) 12 =
             (fst (spi [0xAD] (replicate 13 0) 13), replicate 12 0)"
    using multibyte_fail [of spi "0x2D" 12 "replicate 12 0", unfolded u a, OF assms] .
  show ?thesis
    unfolding icm20649_read_gyro_accel_data_def m
    by (simp add: s16_of_bytes_def Let_def)
qed

lemma check_example_recording:
  "mt25ql256aba_check_ready_flag (recording example_flash) s =
     Some (fst s, snd s @ [READ_OP MT25QL256ABA_READ_STATUS_REGISTER [] 1])"
  by (subst mt25ql256aba_check_ready_flag.simps) (simp add: recording_sel example_flash_ops)

lemma example_image:
  "impact_sample_bytes (example_sample 0x1112) =
     [0x12, 0x11, 0x02, 0x01, 0x04, 0x03, 0x06, 0x05, 0x08, 0x07, 0x0A, 0x09, 0x0C, 0x0B,
      0x0E, 0x0D, 0x10, 0x0F, 21, 3, 5, 6, 13, 37, 11, 99]"
  "impact_sample_bytes (example_sample 0x1314) =
     [0x14, 0x13, 0x02, 0x01, 0x04, 0x03, 0x06, 0x05, 0x08, 0x07, 0x0A, 0x09, 0x0C, 0x0B,
      0x0E, 0x0D, 0x10, 0x0F, 21, 3, 5, 6, 13, 37, 11, 99]"
  by code_simp+

lemma example_addresses:
  "convert_4byte_address_to_3byte_address 0 = [0, 0, 0]"
  "convert_4byte_address_to_3byte_address 32 = [0, 0, 0x20]"
  by code_simp+

lemma without_nack_append: "without_nack (xs @ ys) = without_nack xs @ without_nack ys"
  by (simp add: without_nack_def)

lemma without_events_eq:
  "(without_events s = without_events s0) =
     (m_sample_lsb s = m_sample_lsb s0 \<and> m_sample_msb s = m_sample_msb s0 \<and>
      m_sample s = m_sample s0 \<and> prox_val s = prox_val s0 \<and> byte s = byte s0 \<and>
      without_nack (i2c_log s) = without_nack (i2c_log s0) \<and> twi s = twi s0 \<and>
      i2c.more s = i2c.more s0)"
  by (cases s; cases s0) (simp add: without_events_def)

lemma without_events_handler:
  "without_events (twi_handler ev s) = without_events s"
  by (cases ev) (simp_all add: twi_handler_simps without_events_def without_nack_append,
      simp_all add: without_nack_def)

lemma handler_keeps:
  "m_sample_lsb (twi_handler ev s) = m_sample_lsb s"
  "m_sample_msb (twi_handler ev s) = m_sample_msb s"
  "m_sample (twi_handler ev s) = m_sample s"
  "prox_val (twi_handler ev s) = prox_val s"
  "byte (twi_handler ev s) = byte s"
  "twi (twi_handler ev s) = twi s"
  "i2c.more (twi_handler ev s) = i2c.more s"
  "without_nack (i2c_log (twi_handler ev s)) = without_nack (i2c_log s)"
  by (cases ev; simp add: twi_handler_simps without_nack_append; simp add: without_nack_def)+

lemma twi_with_events_sel:
  "snd (twi_with_events g bus a tx rx t) = snd (bus a tx rx t)"
  "fst (twi_with_events g bus a tx rx t) = g (fst (bus a tx rx t))"
  by (simp_all add: twi_with_events_def Let_def)

lemma read_sensor_step_events:
  assumes "without_events s = without_events s0"
  shows "without_events (read_sensor_step (twi_with_events g bus) A P s) =
         without_events (read_sensor_step bus A P s0)"
  using assms
  by (simp add: without_events_eq read_sensor_step_def Let_def twi_with_events_sel handler_keeps
      without_nack_append)

lemma read_sensor_loop_fwd:
  assumes "read_sensor_loop bus' A P T s = Some y"
  shows "\<forall>bus s0. bus' = twi_with_events g bus \<and> without_events s = without_events s0 \<longrightarrow>
           (\<exists>y0. read_sensor_loop bus A P T s0 = Some y0 \<and> without_events y = without_events y0)"
proof (rule read_sensor_loop.raw_induct
    [where P = "\<lambda>bus' A P T s y.
       \<forall>bus s0. bus' = twi_with_events g bus \<and> without_events s = without_events s0 \<longrightarrow>
           (\<exists>y0. read_sensor_loop bus A P T s0 = Some y0 \<and> without_events y = without_events y0)",
     OF _ assms])
  fix lp :: "'a twi_bus \<Rightarrow> u8 \<Rightarrow> u8 \<Rightarrow> int \<Rightarrow> 'a i2c \<Rightarrow> 'a i2c option"
    and bus' A P T s y
  assume ih: "\<And>bus' A P T s y. lp bus' A P T s = Some y \<Longrightarrow>
       \<forall>bus s0. bus' = twi_with_events g bus \<and> without_events s = without_events s0 \<longrightarrow>
           (\<exists>y0. read_sensor_loop bus A P T s0 = Some y0 \<and> without_events y = without_events y0)"
    and body: "(if uint (prox_val s) \<le> T then lp bus' A P T (read_sensor_step bus' A P s)
                else Some s) = Some y"
  show "\<forall>bus s0. bus' = twi_with_events g bus \<and> without_events s = without_events s0 \<longrightarrow>
           (\<exists>y0. read_sensor_loop bus A P T s0 = Some y0 \<and> without_events y = without_events y0)"
  proof (intro allI impI)
    fix bus s0
    assume a: "bus' = twi_with_events g bus \<and> without_events s = without_events s0"
    then have e: "bus' = twi_with_events g bus" and r: "without_events s = without_events s0"
      by simp_all
    from r have pv: "prox_val s = prox_val s0" by (simp add: without_events_eq)
    show "\<exists>y0. read_sensor_loop bus A P T s0 = Some y0 \<and> without_events y = without_events y0"
    proof (cases "uint (prox_val s) \<le> T")
      case True
      with body have "lp bus' A P T (read_sensor_step bus' A P s) = Some y" by simp
      from ih [OF this, rule_format, of bus "read_sensor_step bus A P s0"]
        read_sensor_step_events [OF r, of g bus A P] e
      obtain y0 where "read_sensor_loop bus A P T (read_sensor_step bus A P s0) = Some y0"
        and "without_events y = without_events y0" by auto
      with True pv show ?thesis
        by (subst read_sensor_loop.simps) simp
    next
      case False
      with body have "s = y" by simp
      with False pv r show ?thesis
        by (subst read_sensor_loop.simps) simp
    qed
  qed
qed

lemma read_sensor_loop_bwd:
  assumes "read_sensor_loop bus A P T s0 = Some y0"
  shows "\<forall>s. without_events s = without_events s0 \<longrightarrow>
           (\<exists>y. read_sensor_loop (twi_with_events g bus) A P T s = Some y \<and>
                without_events y = without_events y0)"
proof (rule read_sensor_loop.raw_induct
    [where P = "\<lambda>bus A P T s0 y0.
       \<forall>s. without_events s = without_events s0 \<longrightarrow>
           (\<exists>y. read_sensor_loop (twi_with_events g bus) A P T s = Some y \<and>
                without_events y = without_events y0)",
     OF _ assms])
  fix lp :: "'a twi_bus \<Rightarrow> u8 \<Rightarrow> u8 \<Rightarrow> int \<Rightarrow> 'a i2c \<Rightarrow> 'a i2c option"
    and bus A P T s0 y0
  assume ih: "\<And>bus A P T s0 y0. lp bus A P T s0 = Some y0 \<Longrightarrow>
       \<forall>s. without_events s = without_events s0 \<longrightarrow>
           (\<exists>y. read_sensor_loop (twi_with_events g bus) A P T s = Some y \<and>
                without_events y = without_events y0)"
    and body: "(if uint (prox_val s0) \<le> T then lp bus A P T (read_sensor_step bus A P s0)
                else Some s0) = Some y0"
  show "\<forall>s. without_events s = without_events s0 \<longrightarrow>
           (\<exists>y. read_sensor_loop (twi_with_events g bus) A P T s = Some y \<and>
                without_events y = without_events y0)"
  proof (intro allI impI)
    fix s
    assume r: "without_events s = without_events s0"
    from r have pv: "prox_val s = prox_val s0" by (simp add: without_events_eq)
    show "\<exists>y. read_sensor_loop (twi_with_events g bus) A P T s = Some y \<and>
                without_events y = without_events y0"
    proof (cases "uint (prox_val s0) \<le> T")
      case True
      with body have "lp bus A P T (read_sensor_step bus A P s0) = Some y0" by simp
      from ih [OF this, rule_format, of "read_sensor_step (twi_with_events g bus) A P s"]
        read_sensor_step_events [OF r, of g bus A P]
      obtain y where
        "read_sensor_loop (twi_with_events g bus) A P T
           (read_sensor_step (twi_with_events g bus) A P s) = Some y"
        and "without_events y = without_events y0" by auto
      with True pv show ?thesis
        by (subst read_sensor_loop.simps) simp
    next
      case False
      with body have "s0 = y0" by simp
      with False pv r show ?thesis
        by (subst read_sensor_loop.simps) simp
    qed
  qed
qed

lemma read_sensor_loop_events:
  assumes "without_events s = without_events s0"
  shows "map_option without_events (read_sensor_loop (twi_with_events g bus) A P T s) =
         map_option without_events (read_sensor_loop bus A P T s0)"
proof (cases "read_sensor_loop (twi_with_events g bus) A P T s")
  case (Some y)
  from read_sensor_loop_fwd [OF Some, rule_format, of g bus s0] assms
  show ?thesis using Some by auto
next
  case None
  show ?thesis
  proof (cases "read_sensor_loop bus A P T s0")
    case None
    then show ?thesis using \<open>read_sensor_loop (twi_with_events g bus) A P T s = None\<close> by simp
  next
    case (Some y0)
    from read_sensor_loop_bwd [OF Some, rule_format, of s g] assms
    show ?thesis using None by auto
  qed
qed

lemma read_sensor_data_events:
  "map_option without_events (read_sensor_data (twi_with_events g bus) A P T s) =
   map_option without_events (read_sensor_data bus A P T s)"
  unfolding read_sensor_data_def by (rule read_sensor_loop_events) simp

lemma adxl_init_statuses:
  "adxl372_init (adxl_with_statuses f drv) a = adxl372_init drv a"
  by (simp add: adxl372_init_def adxl_with_statuses_def Let_def)

lemma fail_lines_append: "fail_lines (xs @ ys) = fail_lines xs + fail_lines ys"
  by (simp add: fail_lines_def)

lemma fail_lines_check:
  "fail_lines (spi_ret_check ret lg) = fail_lines lg + (if sint ret < 0 then 1 else 0)"
  by (simp add: fail_lines_def spi_ret_check_def)

lemma fail_lines_map_hex: "fail_lines (map (\<lambda>i. LogHex n (f i)) xs) = 0"
  by (induction xs) (simp_all add: fail_lines_def)

lemma startup_test_fail_lines:
  "fail_lines (outcome_log (mt25ql256aba_startup_test dv d lg)) =
     fail_lines lg +
     (if sint (fst (mt25ql256aba_read_op dv MT25QL256ABA_READ_ID [] 3 d)) < 0 then 1 else 0)"
  by (simp add: mt25ql256aba_startup_test_def outcome_log_def Let_def fail_lines_append
      fail_lines_check) (simp add: fail_lines_def)

lemma full_page_read_fail_lines:
  "map_option (\<lambda>s. fail_lines (nrf_log s)) (full_page_read dv st) =
   map_option
     (\<lambda>d1. fail_lines (nrf_log st) +
            (if sint (fst (mt25ql256aba_read_op dv MT25QL256ABA_READ [0x00, 0x00, 0x00] 250 d1)) < 0
             then 1 else 0))
     (mt25ql256aba_check_ready_flag dv (flash st))"
  by (cases "mt25ql256aba_check_ready_flag dv (flash st)")
     (simp_all add: full_page_read_def Let_def fail_lines_append fail_lines_check
        fail_lines_map_hex, simp_all add: fail_lines_def)

lemma flash_read_byte_fail_lines:
  "map_option (\<lambda>s. fail_lines (nrf_log s)) (flash_read_byte dv addr st) =
   map_option
     (\<lambda>d1. fail_lines (nrf_log st) +
            (if sint (fst (mt25ql256aba_read_op dv MT25QL256ABA_READ
                             (convert_4byte_address_to_3byte_address addr) 1 d1)) < 0
             then 1 else 0))
     (mt25ql256aba_check_ready_flag dv (flash st))"
  by (cases "mt25ql256aba_check_ready_flag dv (flash st)")
     (simp_all add: flash_read_byte_def Let_def fail_lines_append fail_lines_check,
      simp_all add: fail_lines_def)

lemma startup_test_halts_statuses:
  "(\<exists>l. mt25ql256aba_startup_test (with_statuses f dv) d lg = HALT_FAULT l) =
     (\<exists>l. mt25ql256aba_startup_test dv d lg = HALT_FAULT l)"
  by (simp add: mt25ql256aba_startup_test_def with_statuses_sel Let_def)

lemma store_samples_statuses:
  "mt25ql256aba_store_samples (with_statuses f dv) st = mt25ql256aba_store_samples dv st"
  by (simp add: mt25ql256aba_store_samples_def store_loop_statuses)

lemma store_samples_all_records:
  "\<forall>st'. mt25ql256aba_store_samples dv st = Some st' \<longrightarrow>
      g_buf_index st' = g_buf_index st \<and>
      g_sample_set_buf st' = g_sample_set_buf st \<and>
      nrf_log st' = nrf_log st @ [LogText '''', LogText ''BEGIN STORE SAMPLES...''] @
        concat (map (store_lines (flash_addr st) (g_flash_output_buf st') (g_sample_set_buf st))
                    [0 ..< g_buf_index st])"
  using store_samples_gen(2-4) by blast

lemma recording_statuses:
  "with_statuses f (recording dv) = recording (with_statuses f dv)"
  by (simp add: with_statuses_def recording_def Let_def)

section \<open>The claims\<close>

text \<open>
  Claim C1, as the code has it. The log of \<^verbatim>\<open>serial_output_flash_data\<close> is the heading line,
  then one block per buffered index \<open>i < g_buf_index\<close> in order, then the closing line. The
  block of index \<open>i\<close> depends on the two copies of record \<open>i\<close> only (other records do
  not affect it), always holds the blank line and the \<open>ID\<close> line, and holds the line(s) of a
  group (high-g, low-g, gyro, timestamp) exactly when all fields of that group agree
  between the reread and the original record. A mismatch suppresses the lines of its own
  group only.
\<close>

theorem serial_output_per_group:
  "nrf_log (serial_output_flash_data st) =
     nrf_log st @ [LogText ''===================IMPACT DATA OUTPUT===================''] @
     concat (map (\<lambda>i. record_block i (g_flash_output_buf st ! i) (g_sample_set_buf st ! i))
                 [0 ..< g_buf_index st]) @
     [LogText ''====================DATA OUTPUT FINISH=================='']"
proof -
  have loop: "serial_output_loop st 0 lg0 =
      lg0 @ concat (map (\<lambda>i. record_block i (g_flash_output_buf st ! i) (g_sample_set_buf st ! i))
                        [0 ..< g_buf_index st])" for lg0
    by (rule serial_output_loop_blocks)
  have "nrf_log (serial_output_flash_data st) =
      serial_output_loop st 0
        (nrf_log st @ [LogText ''===================IMPACT DATA OUTPUT===================''])
      @
      [LogText ''====================DATA OUTPUT FINISH=================='']"
    by (simp add: serial_output_flash_data_def Let_def)
  then show ?thesis by (simp add: loop)
qed

text \<open>
  Claim C1 as stated fails: one buffered record whose reread high-g x axis differs from the
  original (1 against 0) while every other field agrees. The record is not suppressed as
  a whole: its low-g, gyro, date and time lines are all emitted; only the high-g line is
  missing.
\<close>

theorem serial_output_partial_mismatch:
  "adxl_x (adxl_data (zero_sample\<lparr>adxl_data := example_adxl 1\<rparr>)) \<noteq>
     adxl_x (adxl_data zero_sample) \<and>
   nrf_log (serial_output_flash_data
      (example_system\<lparr>g_buf_index := 1,
         g_flash_output_buf := [zero_sample\<lparr>adxl_data := example_adxl 1\<rparr>, zero_sample]\<rparr>)) =
     [LogText ''===================IMPACT DATA OUTPUT==================='',
      LogText '''', LogId 0, LogLowG 0 0 0, LogGyro 0 0 0, LogDate 0 0 0, LogTime 0 0 0 0,
      LogText ''====================DATA OUTPUT FINISH=================='']"
  by (simp add: serial_output_flash_data_def Let_def serial_output_loop_blocks example_system_def
      zero_sample_def example_adxl_def record_block_def high_g_match_def low_g_match_def
      gyro_match_def timestamp_match_def)

text \<open>
  Claim C2. For every 32-bit address \<open>A\<close> the three device bytes are bits 23..16, bits 15..8
  and bits 7..0 of \<open>A\<close>, in that order (most significant first); bits 31..24 are dropped.
  Reading the three bytes back most significant first gives the low 24 bits of \<open>A\<close>, and
  two addresses with the same low 24 bits get the same three bytes.
\<close>

theorem address_codec_low24:
  "convert_4byte_address_to_3byte_address A =
     [ucast (drop_bit 16 A), ucast (drop_bit 8 A), ucast A] \<and>
   address_of_3byte (convert_4byte_address_to_3byte_address A) = A AND 0x00FFFFFF \<and>
   (A AND 0x00FFFFFF = B AND 0x00FFFFFF \<longrightarrow>
      convert_4byte_address_to_3byte_address A = convert_4byte_address_to_3byte_address B)"
proof (intro conjI impI)
  show "convert_4byte_address_to_3byte_address A =
     [ucast (drop_bit 16 A), ucast (drop_bit 8 A), ucast A]"
    by (simp add: convert_4byte_address_to_3byte_address_def u32_bytes_def)
  show "address_of_3byte (convert_4byte_address_to_3byte_address A) = A AND 0x00FFFFFF"
    by (simp only: low24_mask address_roundtrip)
  assume "A AND 0x00FFFFFF = B AND 0x00FFFFFF"
  then have "take_bit 24 A = take_bit 24 B" by (simp only: low24_mask)
  then show "convert_4byte_address_to_3byte_address A = convert_4byte_address_to_3byte_address B"
    by (metis convert_take_bit)
qed

text \<open>
  Claim C2 at \<open>0x12345678\<close> and \<open>0x01345678\<close>, which differ in the top byte only.
\<close>

theorem address_codec_low24_witness:
  "convert_4byte_address_to_3byte_address 0x12345678 = [0x34, 0x56, 0x78] \<and>
   address_of_3byte (convert_4byte_address_to_3byte_address 0x12345678) = 0x345678 \<and>
   convert_4byte_address_to_3byte_address 0x01345678 = [0x34, 0x56, 0x78]"
proof -
  note t = address_codec_low24 [of "0x12345678" "0x01345678"]
  have m: "(0x12345678 :: u32) AND 0x00FFFFFF = 0x01345678 AND 0x00FFFFFF" by simp
  have v: "[ucast (drop_bit 16 (0x12345678 :: u32)), ucast (drop_bit 8 (0x12345678 :: u32)),
            ucast (0x12345678 :: u32)] = [0x34, 0x56, 0x78 :: u8]"
    by simp
  have k: "(0x12345678 :: u32) AND 0x00FFFFFF = 0x345678" by simp
  have a: "convert_4byte_address_to_3byte_address 0x12345678 = [0x34, 0x56, 0x78]"
    by (rule trans [OF t [THEN conjunct1] v])
  have b: "address_of_3byte (convert_4byte_address_to_3byte_address 0x12345678) = 0x345678"
    by (rule trans [OF t [THEN conjunct2, THEN conjunct1] k])
  have c: "convert_4byte_address_to_3byte_address 0x12345678 =
           convert_4byte_address_to_3byte_address 0x01345678"
    by (rule mp [OF t [THEN conjunct2, THEN conjunct2] m])
  have d: "convert_4byte_address_to_3byte_address 0x01345678 = [0x34, 0x56, 0x78]"
    by (rule trans [OF c [symmetric] a])
  from a b d show ?thesis by (intro conjI)
qed

text \<open>
  Claim C3. A call of \<^verbatim>\<open>sample_impact_data\<close> keeps \<open>g_buf_index \<le> C\<close>; at
  \<open>g_buf_index = C\<close> it leaves the whole state as it was (the record is dropped, nothing is
  signalled: the function returns nothing); and starting from an empty buffer of capacity
  \<open>C\<close>, after \<open>n\<close> calls the buffer holds \<open>min n C\<close> records, namely the first ones acquired,
  in order.
\<close>

theorem sample_buffer_capacity:
  "(g_buf_index st \<le> C \<longrightarrow> g_buf_index (sample_impact_data C mg mr a st) \<le> C) \<and>
   (g_buf_index st = C \<longrightarrow> sample_impact_data C mg mr a st = st) \<and>
   (g_buf_index st = 0 \<and> length (g_sample_set_buf st) = C \<longrightarrow>
      g_buf_index (capture C mg mr acqs st) = min (length acqs) C \<and>
      length (g_sample_set_buf (capture C mg mr acqs st)) = C \<and>
      (\<forall>i < min (length acqs) C.
          g_sample_set_buf (capture C mg mr acqs st) ! i = acquired_sample mg mr (acqs ! i)))"
proof (intro conjI impI)
  assume "g_buf_index st \<le> C"
  then show "g_buf_index (sample_impact_data C mg mr a st) \<le> C"
    by (simp add: sample_impact_data_def Let_def)
next
  assume "g_buf_index st = C"
  then show "sample_impact_data C mg mr a st = st"
    by (simp add: sample_impact_data_full)
next
  assume a: "g_buf_index st = 0 \<and> length (g_sample_set_buf st) = C"
  then have le: "g_buf_index st \<le> C" and len: "length (g_sample_set_buf st) = C" by simp_all
  note g = capture_gen [OF le len, of mg mr acqs]
  show "g_buf_index (capture C mg mr acqs st) = min (length acqs) C" using g a by simp
  show "length (g_sample_set_buf (capture C mg mr acqs st)) = C" using g by simp
  show "\<forall>i < min (length acqs) C.
          g_sample_set_buf (capture C mg mr acqs st) ! i = acquired_sample mg mr (acqs ! i)"
    using g a by simp
qed

text \<open>
  Claim C3 with capacity 2 and three acquisitions: two records are kept, the second one
  is the second acquisition, and a further call at capacity changes nothing.
\<close>

theorem sample_buffer_capacity_witness:
  "g_buf_index (capture 2 example_to_mg example_to_mrad
      [example_acquisition 5, example_acquisition 6, example_acquisition 7] example_system) = 2 \<and>
   g_sample_set_buf (capture 2 example_to_mg example_to_mrad
      [example_acquisition 5, example_acquisition 6, example_acquisition 7] example_system) ! 1 =
     acquired_sample example_to_mg example_to_mrad (example_acquisition 6) \<and>
   sample_impact_data 2 example_to_mg example_to_mrad (example_acquisition 8)
     (capture 2 example_to_mg example_to_mrad
        [example_acquisition 5, example_acquisition 6, example_acquisition 7] example_system) =
     capture 2 example_to_mg example_to_mrad
        [example_acquisition 5, example_acquisition 6, example_acquisition 7] example_system"
proof -
  let ?acqs = "[example_acquisition 5, example_acquisition 6, example_acquisition 7]"
  let ?st = "capture 2 example_to_mg example_to_mrad ?acqs example_system"
  have h: "g_buf_index example_system = 0 \<and> length (g_sample_set_buf example_system) = 2"
    by (simp add: example_system_def)
  note t = sample_buffer_capacity [of example_system 2 example_to_mg example_to_mrad "example_acquisition 8" ?acqs]
  have a: "g_buf_index ?st = 2" using t h by simp
  have b: "g_sample_set_buf ?st ! 1 = acquired_sample example_to_mg example_to_mrad (example_acquisition 6)"
    using t h by simp
  have c: "sample_impact_data 2 example_to_mg example_to_mrad (example_acquisition 8) ?st = ?st"
    using sample_buffer_capacity [of ?st 2 example_to_mg example_to_mrad "example_acquisition 8" "[]"] a by simp
  from a b c show ?thesis by simp
qed

text \<open>
  Claim C4, as the code has it. \<^verbatim>\<open>mt25ql256aba_store_samples\<close> advances the cursor by 32
  bytes (\<^verbatim>\<open>buf_size\<close>, the size of the page buffer) in every iteration of its loop; when
  it returns, the cursor is the start value plus \<open>32 * g_buf_index\<close> in 32-bit arithmetic,
  and as a number when that sum stays below \<open>2^32\<close>. It returns if and only if every ready
  poll it makes ends. Run over a driver that records the calls made to it, the calls of
  \<^verbatim>\<open>mt25ql256aba_write_op\<close> the loop adds are, in this order, one page program per record
  \<open>k = 0, ..., g_buf_index - 1\<close>, at the 3-byte form of the address \<open>base + 32 * k\<close>, with
  the 26-byte raw image of record \<open>k\<close> (no header, checksum or length prefix) followed by
  6 zero bytes, 32 bytes in all; and the run over the recording driver is the run over the
  driver itself once the list of calls is dropped.
\<close>

theorem store_cursor_advances_32:
  "(store_record dv i buf s = Some (buf1, s1) \<longrightarrow> flash_addr s1 = flash_addr s + 32) \<and>
   (mt25ql256aba_store_samples dv st = Some st' \<longrightarrow>
      flash_addr st' = flash_addr st + 32 * of_nat (g_buf_index st) \<and>
      (unat (flash_addr st) + 32 * g_buf_index st < 2 ^ 32 \<longrightarrow>
         unat (flash_addr st') = unat (flash_addr st) + 32 * g_buf_index st)) \<and>
   ((mt25ql256aba_store_samples dv st \<noteq> None) =
      (\<forall>p \<in> set (store_samples_polls dv st). mt25ql256aba_check_ready_flag dv p \<noteq> None)) \<and>
   (mt25ql256aba_store_samples (recording dv) rs = Some rs' \<longrightarrow>
      write_calls (snd (flash rs')) =
        write_calls (snd (flash rs)) @
          map (\<lambda>k. (MT25QL256ABA_PAGE_PROGRAM,
                    convert_4byte_address_to_3byte_address (flash_addr rs + 32 * of_nat k),
                    impact_sample_bytes (g_sample_set_buf rs ! k) @ replicate 6 0))
              [0 ..< g_buf_index rs]) \<and>
   map_option forget (mt25ql256aba_store_samples (recording dv) rs) =
     mt25ql256aba_store_samples dv (forget rs) \<and>
   length (impact_sample_bytes r @ replicate 6 0) = 32 \<and>
   take sizeof_impact_sample_t (impact_sample_bytes r @ replicate 6 0) = impact_sample_bytes r"
proof (intro conjI impI)
  assume r: "store_record dv i buf s = Some (buf1, s1)"
  show "flash_addr s1 = flash_addr s + 32" by (rule store_record_Some(3) [OF r])
next
  assume a: "mt25ql256aba_store_samples dv st = Some st'"
  show c: "flash_addr st' = flash_addr st + 32 * of_nat (g_buf_index st)"
    by (rule store_samples_gen(1) [OF a])
  assume "unat (flash_addr st) + 32 * g_buf_index st < 2 ^ 32"
  then show "unat (flash_addr st') = unat (flash_addr st) + 32 * g_buf_index st"
    unfolding c by (rule cursor_unat)
next
  show "(mt25ql256aba_store_samples dv st \<noteq> None) =
      (\<forall>p \<in> set (store_samples_polls dv st). mt25ql256aba_check_ready_flag dv p \<noteq> None)"
    by (rule store_samples_returns_iff)
next
  assume "mt25ql256aba_store_samples (recording dv) rs = Some rs'"
  then show "write_calls (snd (flash rs')) =
        write_calls (snd (flash rs)) @
          map (\<lambda>k. (MT25QL256ABA_PAGE_PROGRAM,
                    convert_4byte_address_to_3byte_address (flash_addr rs + 32 * of_nat k),
                    impact_sample_bytes (g_sample_set_buf rs ! k) @ replicate 6 0))
              [0 ..< g_buf_index rs]"
    by (rule store_samples_pages)
next
  show "map_option forget (mt25ql256aba_store_samples (recording dv) rs) =
     mt25ql256aba_store_samples dv (forget rs)"
    by (rule store_samples_forget)
next
  show "length (impact_sample_bytes r @ replicate 6 0) = 32"
    by (simp add: impact_sample_bytes_length)
next
  show "take sizeof_impact_sample_t (impact_sample_bytes r @ replicate 6 0) = impact_sample_bytes r"
    by (simp add: impact_sample_bytes_length)
qed

text \<open>
  Claim C4 as stated fails: after storing one record from cursor 0 the cursor is 32, not
  0 + 1 * 26 (26 being the size of the record image).
\<close>

theorem store_cursor_not_record_size:
  "map_option flash_addr
     (mt25ql256aba_store_samples example_flash (example_system\<lparr>g_buf_index := 1\<rparr>)) = Some 32 \<and>
   map_option flash_addr
     (mt25ql256aba_store_samples example_flash (example_system\<lparr>g_buf_index := 1\<rparr>)) \<noteq>
     Some (flash_addr example_system + of_nat (1 * sizeof_impact_sample_t))"
  by (simp add: mt25ql256aba_store_samples_def store_loop.simps store_record_def check_example
      Let_def example_system_def example_flash_ops)

text \<open>
  Claim C4 on the example flash: one iteration from cursor 0 leaves the cursor at 32.
  Recorded, with two buffered records that differ, every ready poll ends, so the loop
  returns; the cursor ends at 64, and the two page programs are the record images with
  their 6 zero bytes at the addresses 0 and 32.
\<close>

theorem store_cursor_advances_32_witness:
  "map_option (\<lambda>p. flash_addr (snd p))
     (store_record example_flash 0 (replicate 32 0) (example_system\<lparr>g_buf_index := 1\<rparr>)) =
     Some 32 \<and>
   map_option flash_addr
     (mt25ql256aba_store_samples (recording example_flash) example_recording_system) = Some 64 \<and>
   map_option (\<lambda>s. unat (flash_addr s))
     (mt25ql256aba_store_samples (recording example_flash) example_recording_system) = Some 64 \<and>
   map_option (\<lambda>s. write_calls (snd (flash s)))
     (mt25ql256aba_store_samples (recording example_flash) example_recording_system) =
     Some [(0x02, [0, 0, 0],
            [0x12, 0x11, 0x02, 0x01, 0x04, 0x03, 0x06, 0x05, 0x08, 0x07, 0x0A, 0x09, 0x0C, 0x0B,
             0x0E, 0x0D, 0x10, 0x0F, 21, 3, 5, 6, 13, 37, 11, 99, 0, 0, 0, 0, 0, 0]),
           (0x02, [0, 0, 0x20],
            [0x14, 0x13, 0x02, 0x01, 0x04, 0x03, 0x06, 0x05, 0x08, 0x07, 0x0A, 0x09, 0x0C, 0x0B,
             0x0E, 0x0D, 0x10, 0x0F, 21, 3, 5, 6, 13, 37, 11, 99, 0, 0, 0, 0, 0, 0])]"
proof -
  let ?S = "example_recording_system"
  have p: "\<forall>p \<in> set (store_samples_polls (recording example_flash) ?S).
             mt25ql256aba_check_ready_flag (recording example_flash) p \<noteq> None"
    by (simp add: check_example_recording)
  have "mt25ql256aba_store_samples (recording example_flash) ?S \<noteq> None"
    using store_cursor_advances_32 [where dv = "recording example_flash" and st = ?S] p by blast
  then obtain rs' where s: "mt25ql256aba_store_samples (recording example_flash) ?S = Some rs'"
    by auto
  have c: "flash_addr rs' = flash_addr ?S + 32 * of_nat (g_buf_index ?S)"
    using store_cursor_advances_32 [where dv = "recording example_flash" and st = ?S and st' = rs'] s
    by blast
  have w: "write_calls (snd (flash rs')) =
        write_calls (snd (flash ?S)) @
          map (\<lambda>k. (MT25QL256ABA_PAGE_PROGRAM,
                    convert_4byte_address_to_3byte_address (flash_addr ?S + 32 * of_nat k),
                    impact_sample_bytes (g_sample_set_buf ?S ! k) @ replicate 6 0))
              [0 ..< g_buf_index ?S]"
    using store_cursor_advances_32 [where dv = example_flash and rs = ?S and rs' = rs'] s
    by blast
  have u: "[0 ..< 2] = [0, 1 :: nat]" by (simp add: upt_rec)
  have z: "replicate 6 (0 :: u8) = [0, 0, 0, 0, 0, 0]" by (simp add: numeral_nat)
  have c': "flash_addr rs' = 64"
    using c by (simp add: example_recording_system_def)
  have w': "write_calls (snd (flash rs')) =
     [(0x02, [0, 0, 0],
            [0x12, 0x11, 0x02, 0x01, 0x04, 0x03, 0x06, 0x05, 0x08, 0x07, 0x0A, 0x09, 0x0C, 0x0B,
             0x0E, 0x0D, 0x10, 0x0F, 21, 3, 5, 6, 13, 37, 11, 99, 0, 0, 0, 0, 0, 0]),
           (0x02, [0, 0, 0x20],
            [0x14, 0x13, 0x02, 0x01, 0x04, 0x03, 0x06, 0x05, 0x08, 0x07, 0x0A, 0x09, 0x0C, 0x0B,
             0x0E, 0x0D, 0x10, 0x0F, 21, 3, 5, 6, 13, 37, 11, 99, 0, 0, 0, 0, 0, 0])]"
    using w by (simp add: example_recording_system_def u z example_image example_addresses)
  have b: "unat (flash_addr ?S) + 32 * g_buf_index ?S < 2 ^ 32"
    by (simp add: example_recording_system_def)
  have "unat (flash_addr rs') = unat (flash_addr ?S) + 32 * g_buf_index ?S"
    using store_cursor_advances_32 [where dv = "recording example_flash" and st = ?S and st' = rs'] s b
    by blast
  then have n: "unat (flash_addr rs') = 64"
    by (simp add: example_recording_system_def)
  let ?E = "example_system\<lparr>g_buf_index := 1\<rparr>"
  have "store_record example_flash 0 (replicate 32 0) ?E \<noteq> None"
    by (simp add: store_record_None_iff check_example)
  then obtain buf1 s1 where
    r: "store_record example_flash 0 (replicate 32 0) ?E = Some (buf1, s1)" by auto
  have "flash_addr s1 = flash_addr ?E + 32"
    using store_cursor_advances_32 [where dv = example_flash and i = 0 and buf = "replicate 32 0"
        and s = ?E and ?buf1.0 = buf1 and ?s1.0 = s1] r
    by blast
  then have q: "flash_addr s1 = 32" by (simp add: example_system_def)
  from s c' w' n r q show ?thesis by simp
qed

text \<open>
  Claim C5 fails on the code. With the ADI identity of the ADXL372 read as \<open>0x00\<close> instead
  of \<open>0xAD\<close> and the other two identities as expected, \<^verbatim>\<open>adxl372_startup_test\<close> logs
  the failure, then logs the pass and returns; with a good flash and ICM the whole
  self-test of \<^verbatim>\<open>main\<close> passes and the program goes on to arming.
\<close>

theorem adxl_identity_mismatch_passes:
  "adxl372_startup_test 0x00 0x1D 0xFA [] =
     PASSED () [LogText '''', LogText ''PERFORMING ADXL TEST....'', LogHex ''1: adi device id'' 0x00,
                LogText ''ADXL READ TEST FAIL'', LogHex ''2:mst device id2'' 0x1D,
                LogHex ''3:mems id'' 0xFA, LogText ''ADXL READ TEST PASS''] \<and>
   (case self_test example_flash [] 0xE1 0x01 0x00 0x1D 0xFA [] of
      HALT_FAULT l \<Rightarrow> False | PASSED d l \<Rightarrow> True)"
  by (simp add: adxl372_startup_test_def self_test_def mt25ql256aba_startup_test_def
      icm20649_read_test_def icm20649_write_test_def example_flash_def spi_ret_check_def Let_def)

text \<open>
  Claim C6, as the code has it. \<^verbatim>\<open>spi_ret_check\<close> appends one log line for a negative
  status and does nothing else. Whatever statuses the drivers return, the flash ready
  poll, reset, bulk erase, erase, store-samples and retrieve-samples operations, the
  ICM20649 register write and read (status returned apart), initialisation, read test and
  write test, and the ADXL372 initialisation and identity test yield the same result and
  leave the same state of the device: no abort, no retry, no rollback, no log line. For
  the store loop this holds also over the recording driver, so the calls made are the
  same. The byte read, the page read and the flash identity test hand the status to
  \<^verbatim>\<open>spi_ret_check\<close>: they log exactly one line more for a negative status of their read
  (the byte read in each iteration), and are otherwise the same whatever the statuses;
  in particular whether the identity test halts does not depend on them.

  The exception is \<^verbatim>\<open>icm20649_multibyte_read_reg\<close>: on a negative status it returns that
  status and leaves the caller's buffer as it was; \<^verbatim>\<open>icm20649_read_gyro_accel_data\<close>,
  whose buffer starts zeroed, then delivers zeros.

  The store loop returns if and only if every ready poll it makes ends, whatever the
  statuses; when it returns it has processed every buffered record in order, as its log
  shows: for \<open>i = 0, ..., g_buf_index - 1\<close> the write line and the read line of record
  \<open>i\<close> at cursor \<open>base + 32 * i\<close>; the sample buffer and its length are unchanged.

  An I2C transfer hands no status to the program; the driver reports a NACK to
  \<^verbatim>\<open>twi_handler\<close>, which logs it and leaves \<^verbatim>\<open>m_xfer_done\<close> as it is, whereas a completed
  transfer sets the flag. \<^verbatim>\<open>read_sensor_data\<close> does not read the flag: whatever the
  events, its result is the same up to the flag and the lines of \<^verbatim>\<open>twi_handler\<close>.
  \<^verbatim>\<open>ds_config\<close> and \<^verbatim>\<open>vcnl_config\<close> return if and only if both of their transfers are
  completed; \<^verbatim>\<open>readRegister\<close> returns if and only if the flag is set when it is called,
  and leaves it set if and only if its own transfer is completed.
\<close>

theorem negative_status_non_fatal:
  "mt25ql256aba_store_samples (with_statuses f dv) st = mt25ql256aba_store_samples dv st \<and>
   ((mt25ql256aba_store_samples (with_statuses f dv) st \<noteq> None) =
      (\<forall>p \<in> set (store_samples_polls dv st). mt25ql256aba_check_ready_flag dv p \<noteq> None)) \<and>
   (\<forall>st'. mt25ql256aba_store_samples (with_statuses f dv) st = Some st' \<longrightarrow>
      g_buf_index st' = g_buf_index st \<and>
      g_sample_set_buf st' = g_sample_set_buf st \<and>
      nrf_log st' = nrf_log st @ [LogText '''', LogText ''BEGIN STORE SAMPLES...''] @
        concat (map (store_lines (flash_addr st) (g_flash_output_buf st') (g_sample_set_buf st))
                    [0 ..< g_buf_index st])) \<and>
   (sint (fst (spi [reg_addr OR 0x80] (replicate (unat num_bytes + 1) 0) (unat num_bytes + 1))) < 0 \<longrightarrow>
      icm20649_multibyte_read_reg spi reg_addr reg_data num_bytes =
        (fst (spi [reg_addr OR 0x80] (replicate (unat num_bytes + 1) 0) (unat num_bytes + 1)),
         reg_data)) \<and>
   (sint (fst (spi [0xAD] (replicate 13 0) 13)) < 0 \<longrightarrow>
      icm20649_read_gyro_accel_data spi =
        \<lparr>accel_x = 0, accel_y = 0, accel_z = 0, gyro_x = 0, gyro_y = 0, gyro_z = 0\<rparr>) \<and>
   (\<forall>b s'. readRegister tbus reg s = Some (b, s') \<longrightarrow>
      m_xfer_done s' = (fst (tbus DS1388_ADDRESS [reg] [byte s] (twi s)) = NRF_DRV_TWI_EVT_DONE)) \<and>
   (readRegister tbus reg s \<noteq> None) = m_xfer_done s \<and>
   icm20649_read_reg (bus_with_statuses f sbus) address rx_buf e =
     (f (fst (icm20649_read_reg sbus address rx_buf e)),
      snd (icm20649_read_reg sbus address rx_buf e)) \<and>
   fail_lines (outcome_log (mt25ql256aba_startup_test dv d lg)) =
     fail_lines lg +
     (if sint (fst (mt25ql256aba_read_op dv MT25QL256ABA_READ_ID [] 3 d)) < 0 then 1 else 0) \<and>
   spi_ret_check ret lg = lg @ (if sint ret < 0 then [LogText ''SPI WRITE READ FAIL''] else []) \<and>
   mt25ql256aba_check_ready_flag (with_statuses f dv) d = mt25ql256aba_check_ready_flag dv d \<and>
   reset_device (with_statuses f dv) st = reset_device dv st \<and>
   bulk_erase (with_statuses f dv) st = bulk_erase dv st \<and>
   mt25ql256aba_erase (with_statuses f dv) st = mt25ql256aba_erase dv st \<and>
   mt25ql256aba_retrieve_samples (with_statuses f dv) st = mt25ql256aba_retrieve_samples dv st \<and>
   mt25ql256aba_store_samples (recording (with_statuses f dv)) rs =
     mt25ql256aba_store_samples (recording dv) rs \<and>
   map_option system_without_fail (flash_read_bytes (with_statuses f dv) num st) =
     map_option system_without_fail (flash_read_bytes dv num st) \<and>
   map_option system_without_fail (full_page_read (with_statuses f dv) st) =
     map_option system_without_fail (full_page_read dv st) \<and>
   outcome_without_fail (mt25ql256aba_startup_test (with_statuses f dv) d lg) =
     outcome_without_fail (mt25ql256aba_startup_test dv d lg) \<and>
   map_option (\<lambda>s. fail_lines (nrf_log s)) (full_page_read dv st) =
     map_option
       (\<lambda>d1. fail_lines (nrf_log st) +
              (if sint (fst (mt25ql256aba_read_op dv MT25QL256ABA_READ [0x00, 0x00, 0x00] 250 d1)) < 0
               then 1 else 0))
       (mt25ql256aba_check_ready_flag dv (flash st)) \<and>
   map_option (\<lambda>s. fail_lines (nrf_log s)) (flash_read_byte dv addr st) =
     map_option
       (\<lambda>d1. fail_lines (nrf_log st) +
              (if sint (fst (mt25ql256aba_read_op dv MT25QL256ABA_READ
                               (convert_4byte_address_to_3byte_address addr) 1 d1)) < 0
               then 1 else 0))
       (mt25ql256aba_check_ready_flag dv (flash st)) \<and>
   (\<exists>l. mt25ql256aba_startup_test (with_statuses f dv) d lg = HALT_FAULT l) =
     (\<exists>l. mt25ql256aba_startup_test dv d lg = HALT_FAULT l) \<and>
   icm20649_write_reg (bus_with_statuses f sbus) address data rx_buf e =
     (f (fst (icm20649_write_reg sbus address data rx_buf e)),
      snd (icm20649_write_reg sbus address data rx_buf e)) \<and>
   icm20649_init (bus_with_statuses f sbus) rx_buf e = icm20649_init sbus rx_buf e \<and>
   icm20649_read_test_on (bus_with_statuses f sbus) rx_buf e lg =
     icm20649_read_test_on sbus rx_buf e lg \<and>
   icm20649_write_test_on (bus_with_statuses f sbus) rx_buf e lg =
     icm20649_write_test_on sbus rx_buf e lg \<and>
   adxl372_init (adxl_with_statuses f drv) a = adxl372_init drv a \<and>
   adxl372_startup_test_on (adxl_with_statuses f drv) mst_reg dev_reg a lg =
     adxl372_startup_test_on drv mst_reg dev_reg a lg \<and>
   twi_handler NRF_DRV_TWI_EVT_DATA_NACK s =
     s\<lparr>i2c_log := i2c_log s @ [LogText ([CHR 0x0D, CHR 0x0A] @ ''DATA NACK ERROR'')]\<rparr> \<and>
   twi_handler NRF_DRV_TWI_EVT_ADDRESS_NACK s =
     s\<lparr>i2c_log := i2c_log s @ [LogText ([CHR 0x0D, CHR 0x0A] @ ''ADDRESS NACK ERROR'')]\<rparr> \<and>
   twi_handler NRF_DRV_TWI_EVT_DONE s = s\<lparr>m_xfer_done := True\<rparr> \<and>
   map_option without_events (read_sensor_data (twi_with_events g tbus) i2c_addr ps_data threshold s) =
     map_option without_events (read_sensor_data tbus i2c_addr ps_data threshold s) \<and>
   ds_config tbus init_time time_format s =
     (let reg0 = [CONTROL_REG, EN_OSCILLATOR OR DIS_WD_COUNTER];
          reg1 = [HUNDRED_SEC_REG, dec2hex (init_time ! 7), dec2hex (init_time ! 6),
                  dec2hex (init_time ! 5), dec2hex (init_time ! 4) OR time_format,
                  dec2hex (init_time ! 3), dec2hex (init_time ! 2), dec2hex (init_time ! 1),
                  dec2hex (init_time ! 0)];
          r0 = tbus DS1388_ADDRESS reg0 [] (twi s);
          r1 = tbus DS1388_ADDRESS reg1 [] (snd (snd r0))
      in if fst r0 = NRF_DRV_TWI_EVT_DONE \<and> fst r1 = NRF_DRV_TWI_EVT_DONE
         then Some (s\<lparr>m_xfer_done := True,
                      i2c_log := i2c_log s @ [LogText ''RTC initialized''],
                      twi := snd (snd r1)\<rparr>)
         else None) \<and>
   vcnl_config tbus i2c_addr reg1 reg2 s =
     (let r1 = tbus i2c_addr reg1 [] (twi s);
          r2 = tbus i2c_addr reg2 [] (snd (snd r1))
      in if fst r1 = NRF_DRV_TWI_EVT_DONE \<and> fst r2 = NRF_DRV_TWI_EVT_DONE
         then Some (s\<lparr>m_xfer_done := True,
                      i2c_log := i2c_log s @ [LogText ''Configuring VCNL...''],
                      twi := snd (snd r2)\<rparr>)
         else None)"
proof (intro conjI)
  show "mt25ql256aba_store_samples (with_statuses f dv) st = mt25ql256aba_store_samples dv st"
    by (rule store_samples_statuses)
  show "((mt25ql256aba_store_samples (with_statuses f dv) st \<noteq> None) =
      (\<forall>p \<in> set (store_samples_polls dv st). mt25ql256aba_check_ready_flag dv p \<noteq> None))"
    unfolding store_samples_statuses by (rule store_samples_returns_iff)
  show "(\<forall>st'. mt25ql256aba_store_samples (with_statuses f dv) st = Some st' \<longrightarrow>
      g_buf_index st' = g_buf_index st \<and>
      g_sample_set_buf st' = g_sample_set_buf st \<and>
      nrf_log st' = nrf_log st @ [LogText '''', LogText ''BEGIN STORE SAMPLES...''] @
        concat (map (store_lines (flash_addr st) (g_flash_output_buf st') (g_sample_set_buf st))
                    [0 ..< g_buf_index st]))"
    unfolding store_samples_statuses by (rule store_samples_all_records)
  show "(sint (fst (spi [reg_addr OR 0x80] (replicate (unat num_bytes + 1) 0) (unat num_bytes + 1))) < 0 \<longrightarrow>
      icm20649_multibyte_read_reg spi reg_addr reg_data num_bytes =
        (fst (spi [reg_addr OR 0x80] (replicate (unat num_bytes + 1) 0) (unat num_bytes + 1)),
         reg_data))"
    by (rule impI) (rule multibyte_fail)
  show "(sint (fst (spi [0xAD] (replicate 13 0) 13)) < 0 \<longrightarrow>
      icm20649_read_gyro_accel_data spi =
        \<lparr>accel_x = 0, accel_y = 0, accel_z = 0, gyro_x = 0, gyro_y = 0, gyro_z = 0\<rparr>)"
    by (rule impI) (rule read_gyro_fail)
  show "(\<forall>b s'. readRegister tbus reg s = Some (b, s') \<longrightarrow>
      m_xfer_done s' = (fst (tbus DS1388_ADDRESS [reg] [byte s] (twi s)) = NRF_DRV_TWI_EVT_DONE))"
    by (intro allI impI) (rule readRegister_flag)
  show "(readRegister tbus reg s \<noteq> None) = m_xfer_done s"
    by (rule readRegister_iff)
  show "icm20649_read_reg (bus_with_statuses f sbus) address rx_buf e =
     (f (fst (icm20649_read_reg sbus address rx_buf e)),
      snd (icm20649_read_reg sbus address rx_buf e))"
    by (rule read_reg_statuses)
  show "fail_lines (outcome_log (mt25ql256aba_startup_test dv d lg)) =
     fail_lines lg +
     (if sint (fst (mt25ql256aba_read_op dv MT25QL256ABA_READ_ID [] 3 d)) < 0 then 1 else 0)"
    by (rule startup_test_fail_lines)
  show "spi_ret_check ret lg = lg @ (if sint ret < 0 then [LogText ''SPI WRITE READ FAIL''] else [])"
    by (simp add: spi_ret_check_def)
  show "mt25ql256aba_check_ready_flag (with_statuses f dv) d = mt25ql256aba_check_ready_flag dv d"
    by (rule check_ready_statuses)
  show "reset_device (with_statuses f dv) st = reset_device dv st"
    by (rule reset_device_statuses)
  show "bulk_erase (with_statuses f dv) st = bulk_erase dv st"
    by (rule bulk_erase_statuses)
  show "mt25ql256aba_erase (with_statuses f dv) st = mt25ql256aba_erase dv st"
    by (rule erase_statuses)
  show "mt25ql256aba_retrieve_samples (with_statuses f dv) st = mt25ql256aba_retrieve_samples dv st"
    by (rule retrieve_samples_statuses)
  show "mt25ql256aba_store_samples (recording (with_statuses f dv)) rs =
     mt25ql256aba_store_samples (recording dv) rs"
    by (simp only: recording_statuses [symmetric] store_samples_statuses)
  show "map_option system_without_fail (flash_read_bytes (with_statuses f dv) num st) =
     map_option system_without_fail (flash_read_bytes dv num st)"
    by (rule flash_read_bytes_statuses)
  show "map_option system_without_fail (full_page_read (with_statuses f dv) st) =
     map_option system_without_fail (full_page_read dv st)"
    by (rule full_page_read_statuses)
  show "outcome_without_fail (mt25ql256aba_startup_test (with_statuses f dv) d lg) =
     outcome_without_fail (mt25ql256aba_startup_test dv d lg)"
    by (rule startup_test_statuses)
  show "map_option (\<lambda>s. fail_lines (nrf_log s)) (full_page_read dv st) =
     map_option
       (\<lambda>d1. fail_lines (nrf_log st) +
              (if sint (fst (mt25ql256aba_read_op dv MT25QL256ABA_READ [0x00, 0x00, 0x00] 250 d1)) < 0
               then 1 else 0))
       (mt25ql256aba_check_ready_flag dv (flash st))"
    by (rule full_page_read_fail_lines)
  show "map_option (\<lambda>s. fail_lines (nrf_log s)) (flash_read_byte dv addr st) =
     map_option
       (\<lambda>d1. fail_lines (nrf_log st) +
              (if sint (fst (mt25ql256aba_read_op dv MT25QL256ABA_READ
                               (convert_4byte_address_to_3byte_address addr) 1 d1)) < 0
               then 1 else 0))
       (mt25ql256aba_check_ready_flag dv (flash st))"
    by (rule flash_read_byte_fail_lines)
  show "(\<exists>l. mt25ql256aba_startup_test (with_statuses f dv) d lg = HALT_FAULT l) =
     (\<exists>l. mt25ql256aba_startup_test dv d lg = HALT_FAULT l)"
    by (rule startup_test_halts_statuses)
  show "icm20649_write_reg (bus_with_statuses f sbus) address data rx_buf e =
     (f (fst (icm20649_write_reg sbus address data rx_buf e)),
      snd (icm20649_write_reg sbus address data rx_buf e))"
    by (rule write_reg_statuses)
  show "icm20649_init (bus_with_statuses f sbus) rx_buf e = icm20649_init sbus rx_buf e"
    by (rule icm_init_statuses)
  show "icm20649_read_test_on (bus_with_statuses f sbus) rx_buf e lg =
     icm20649_read_test_on sbus rx_buf e lg"
    by (rule icm_read_test_statuses)
  show "icm20649_write_test_on (bus_with_statuses f sbus) rx_buf e lg =
     icm20649_write_test_on sbus rx_buf e lg"
    by (rule icm_write_test_statuses)
  show "adxl372_init (adxl_with_statuses f drv) a = adxl372_init drv a"
    by (rule adxl_init_statuses)
  show "adxl372_startup_test_on (adxl_with_statuses f drv) mst_reg dev_reg a lg =
     adxl372_startup_test_on drv mst_reg dev_reg a lg"
    by (rule adxl_startup_statuses)
  show "twi_handler NRF_DRV_TWI_EVT_DATA_NACK s =
     s\<lparr>i2c_log := i2c_log s @ [LogText ([CHR 0x0D, CHR 0x0A] @ ''DATA NACK ERROR'')]\<rparr>"
    by (rule twi_handler_simps)
  show "twi_handler NRF_DRV_TWI_EVT_ADDRESS_NACK s =
     s\<lparr>i2c_log := i2c_log s @ [LogText ([CHR 0x0D, CHR 0x0A] @ ''ADDRESS NACK ERROR'')]\<rparr>"
    by (rule twi_handler_simps)
  show "twi_handler NRF_DRV_TWI_EVT_DONE s = s\<lparr>m_xfer_done := True\<rparr>"
    by (rule twi_handler_simps)
  show "map_option without_events (read_sensor_data (twi_with_events g tbus) i2c_addr ps_data threshold s) =
     map_option without_events (read_sensor_data tbus i2c_addr ps_data threshold s)"
    by (rule read_sensor_data_events)
  show "ds_config tbus init_time time_format s =
     (let reg0 = [CONTROL_REG, EN_OSCILLATOR OR DIS_WD_COUNTER];
          reg1 = [HUNDRED_SEC_REG, dec2hex (init_time ! 7), dec2hex (init_time ! 6),
                  dec2hex (init_time ! 5), dec2hex (init_time ! 4) OR time_format,
                  dec2hex (init_time ! 3), dec2hex (init_time ! 2), dec2hex (init_time ! 1),
                  dec2hex (init_time ! 0)];
          r0 = tbus DS1388_ADDRESS reg0 [] (twi s);
          r1 = tbus DS1388_ADDRESS reg1 [] (snd (snd r0))
      in if fst r0 = NRF_DRV_TWI_EVT_DONE \<and> fst r1 = NRF_DRV_TWI_EVT_DONE
         then Some (s\<lparr>m_xfer_done := True,
                      i2c_log := i2c_log s @ [LogText ''RTC initialized''],
                      twi := snd (snd r1)\<rparr>)
         else None)"
    by (rule ds_config_iff)
  show "vcnl_config tbus i2c_addr reg1 reg2 s =
     (let r1 = tbus i2c_addr reg1 [] (twi s);
          r2 = tbus i2c_addr reg2 [] (snd (snd r1))
      in if fst r1 = NRF_DRV_TWI_EVT_DONE \<and> fst r2 = NRF_DRV_TWI_EVT_DONE
         then Some (s\<lparr>m_xfer_done := True,
                      i2c_log := i2c_log s @ [LogText ''Configuring VCNL...''],
                      twi := snd (snd r2)\<rparr>)
         else None)"
    by (rule vcnl_config_iff)
qed

text \<open>
  Claim C6 as stated fails in four ways. With a negative status
  \<^verbatim>\<open>icm20649_multibyte_read_reg\<close> returns at once and does not deliver the bytes received,
  whereas with status 0 the same received bytes are copied to the caller. With every
  status negative the store loop logs nothing about it: its log for one record has the
  banner, the write line and the read line only. On a flash that stays busy the store
  loop never returns, with every status 0, and the buffered record is not processed. And,
  the NACK being what an I2C transfer has in place of a negative status: on an I2C bus
  that answers the first transfer with a data NACK \<^verbatim>\<open>ds_config\<close> never returns, whereas
  it returns when the transfers are completed.
\<close>

theorem status_handling_counterexamples:
  "icm20649_multibyte_read_reg (example_spi (- 1)) 0x2D [0, 0] 2 = (- 1, [0, 0]) \<and>
   icm20649_multibyte_read_reg (example_spi 0) 0x2D [0, 0] 2 = (0, [0xAA, 0xBB]) \<and>
   map_option nrf_log
     (mt25ql256aba_store_samples (with_statuses all_nack example_flash)
        (example_system\<lparr>g_buf_index := 1\<rparr>)) =
     Some [LogText '''', LogText ''BEGIN STORE SAMPLES...'', LogText '''', LogWrite 0 0,
           LogRead 0 0 0 0] \<and>
   mt25ql256aba_store_samples busy_flash busy_system = None \<and>
   ds_config (example_twi NRF_DRV_TWI_EVT_DATA_NACK) [0, 0, 0, 0, 0, 0, 0, 0] 0 example_i2c = None \<and>
   map_option i2c_log
     (ds_config (example_twi NRF_DRV_TWI_EVT_DONE) [0, 0, 0, 0, 0, 0, 0, 0] 0 example_i2c) =
     Some [LogText ''RTC initialized'']"
proof (intro conjI)
  show "icm20649_multibyte_read_reg (example_spi (- 1)) 0x2D [0, 0] 2 = (- 1, [0, 0])"
    by (simp add: icm20649_multibyte_read_reg_def example_spi_def Let_def memcpy_def)
  show "icm20649_multibyte_read_reg (example_spi 0) 0x2D [0, 0] 2 = (0, [0xAA, 0xBB])"
    by (simp add: icm20649_multibyte_read_reg_def example_spi_def Let_def memcpy_def)
  have "mt25ql256aba_store_samples (with_statuses all_nack example_flash)
        (example_system\<lparr>g_buf_index := 1\<rparr>) =
      mt25ql256aba_store_samples example_flash (example_system\<lparr>g_buf_index := 1\<rparr>)"
    by (rule store_samples_statuses)
  then show "map_option nrf_log
     (mt25ql256aba_store_samples (with_statuses all_nack example_flash)
        (example_system\<lparr>g_buf_index := 1\<rparr>)) =
     Some [LogText '''', LogText ''BEGIN STORE SAMPLES...'', LogText '''', LogWrite 0 0,
           LogRead 0 0 0 0]"
    by (simp add: mt25ql256aba_store_samples_def store_loop.simps store_record_def check_example
      Let_def example_system_def example_flash_ops zero_sample_def impact_sample_of_bytes_def
      impact_sample_bytes_def s16_bytes_def memcpy_def s16_of_bytes_def)
  show "mt25ql256aba_store_samples busy_flash busy_system = None"
    by (simp add: mt25ql256aba_store_samples_def store_loop.simps store_record_def check_busy
      busy_system_def)
  show "ds_config (example_twi NRF_DRV_TWI_EVT_DATA_NACK) [0, 0, 0, 0, 0, 0, 0, 0] 0 example_i2c = None"
    by (simp add: ds_config_iff example_twi_def Let_def)
  show "map_option i2c_log
     (ds_config (example_twi NRF_DRV_TWI_EVT_DONE) [0, 0, 0, 0, 0, 0, 0, 0] 0 example_i2c) =
     Some [LogText ''RTC initialized'']"
    by (simp add: ds_config_iff example_twi_def example_i2c_def Let_def)
qed

text \<open>
  Claim C6 on the examples. On the example flash with every status replaced by -1 and two
  buffered records every ready poll ends: the result is the one of the flash that reports
  success, and the log has the write lines of record 0 at cursor 0 and of record 1 at
  cursor 32, in this order. With status -1 the multibyte read leaves the caller's buffer
  as it was and the gyro read delivers zeros, whereas the single register read still
  delivers the byte received. After a data NACK \<^verbatim>\<open>readRegister\<close>, called with the flag
  set, returns with the flag cleared. With every status -1 the flash identity test logs
  one line of \<^verbatim>\<open>spi_ret_check\<close>.
\<close>

theorem negative_status_non_fatal_witness:
  "mt25ql256aba_store_samples (with_statuses all_nack example_flash)
       (example_system\<lparr>g_buf_index := 2\<rparr>) =
     mt25ql256aba_store_samples example_flash (example_system\<lparr>g_buf_index := 2\<rparr>) \<and>
   map_option g_buf_index
     (mt25ql256aba_store_samples (with_statuses all_nack example_flash)
        (example_system\<lparr>g_buf_index := 2\<rparr>)) = Some 2 \<and>
   map_option (\<lambda>s. map (\<lambda>l. case l of LogWrite i a \<Rightarrow> Some (i, a) | _ \<Rightarrow> None) (nrf_log s))
     (mt25ql256aba_store_samples (with_statuses all_nack example_flash)
        (example_system\<lparr>g_buf_index := 2\<rparr>)) =
     Some [None, None, None, Some (0, 0), None, None, Some (1, 32), None] \<and>
   sint (fst (example_spi (- 1) [0x2D OR 0x80] (replicate (unat (2 :: u8) + 1) 0)
                (unat (2 :: u8) + 1))) < 0 \<and>
   icm20649_multibyte_read_reg (example_spi (- 1)) 0x2D [0, 0] 2 = (- 1, [0, 0]) \<and>
   sint (fst (example_spi (- 1) [0xAD] (replicate 13 0) 13)) < 0 \<and>
   icm20649_read_gyro_accel_data (example_spi (- 1)) =
     \<lparr>accel_x = 0, accel_y = 0, accel_z = 0, gyro_x = 0, gyro_y = 0, gyro_z = 0\<rparr> \<and>
   map_option (\<lambda>r. m_xfer_done (snd r))
     (readRegister (example_twi NRF_DRV_TWI_EVT_DATA_NACK) SEC_REG
        (example_i2c\<lparr>m_xfer_done := True\<rparr>)) = Some False \<and>
   icm20649_read_reg (bus_with_statuses all_nack (example_bus 0)) 0x0 [0, 0] 0 = (- 1, 0xE1, 1) \<and>
   fail_lines (outcome_log
     (mt25ql256aba_startup_test (with_statuses all_nack example_flash) [] [])) = 1"
proof -
  let ?S = "example_system\<lparr>g_buf_index := 2\<rparr>"
  let ?I = "example_i2c\<lparr>m_xfer_done := True\<rparr>"
  note t = negative_status_non_fatal [where f = all_nack and dv = example_flash and st = ?S
      and spi = "example_spi (- 1)" and reg_addr = "0x2D" and reg_data = "[0, 0]"
      and num_bytes = 2 and tbus = "example_twi NRF_DRV_TWI_EVT_DATA_NACK" and reg = SEC_REG
      and s = ?I and sbus = "example_bus 0" and address = "0x0" and rx_buf = "[0, 0]" and e = 0]
  note t' = negative_status_non_fatal [where dv = "with_statuses all_nack example_flash"
      and d = "[]" and lg = "[]"]
  note t1 = t [THEN conjunct1]
  note t2 = t [THEN conjunct2, THEN conjunct1]
  note t3 = t [THEN conjunct2, THEN conjunct2, THEN conjunct1]
  note t4 = t [THEN conjunct2, THEN conjunct2, THEN conjunct2, THEN conjunct1]
  note t5 = t [THEN conjunct2, THEN conjunct2, THEN conjunct2, THEN conjunct2, THEN conjunct1]
  note t6 = t [THEN conjunct2, THEN conjunct2, THEN conjunct2, THEN conjunct2, THEN conjunct2,
      THEN conjunct1]
  note t7 = t [THEN conjunct2, THEN conjunct2, THEN conjunct2, THEN conjunct2, THEN conjunct2,
      THEN conjunct2, THEN conjunct1]
  note t8 = t [THEN conjunct2, THEN conjunct2, THEN conjunct2, THEN conjunct2, THEN conjunct2,
      THEN conjunct2, THEN conjunct2, THEN conjunct1]
  note t9 = t' [THEN conjunct2, THEN conjunct2, THEN conjunct2, THEN conjunct2, THEN conjunct2,
      THEN conjunct2, THEN conjunct2, THEN conjunct2, THEN conjunct1]
  have p: "\<forall>p \<in> set (store_samples_polls example_flash ?S).
             mt25ql256aba_check_ready_flag example_flash p \<noteq> None"
    by (simp add: check_example)
  have n: "sint (fst (example_spi (- 1) [0x2D OR 0x80] (replicate (unat (2 :: u8) + 1) 0)
                (unat (2 :: u8) + 1))) < 0"
    by (simp add: example_spi_def)
  have n2: "sint (fst (example_spi (- 1) [0xAD] (replicate 13 0) 13)) < 0"
    by (simp add: example_spi_def)
  have "mt25ql256aba_store_samples (with_statuses all_nack example_flash) ?S \<noteq> None"
    using t2 p by simp
  then obtain st' where
    s: "mt25ql256aba_store_samples (with_statuses all_nack example_flash) ?S = Some st'"
    by auto
  note a = t3 [rule_format, OF s]
  have g: "g_buf_index st' = g_buf_index ?S" using a by simp
  have l: "nrf_log st' = nrf_log ?S @ [LogText '''', LogText ''BEGIN STORE SAMPLES...''] @
        concat (map (store_lines (flash_addr ?S) (g_flash_output_buf st') (g_sample_set_buf ?S))
                    [0 ..< g_buf_index ?S])"
    using a by simp
  have u: "[0 ..< 2] = [0, 1 :: nat]" by (simp add: upt_rec)
  have g': "g_buf_index st' = 2" using g by (simp add: example_system_def)
  have l': "map (\<lambda>l. case l of LogWrite i a \<Rightarrow> Some (i, a) | _ \<Rightarrow> None) (nrf_log st') =
     [None, None, None, Some (0, 0), None, None, Some (1, 32), None]"
    unfolding l by (simp add: example_system_def u store_lines_def)
  have m: "icm20649_multibyte_read_reg (example_spi (- 1)) 0x2D [0, 0] 2 = (- 1, [0, 0])"
    using t4 [rule_format, OF n] by (simp add: example_spi_def)
  note z = t5 [rule_format, OF n2]
  have "m_xfer_done ?I" by simp
  then have "readRegister (example_twi NRF_DRV_TWI_EVT_DATA_NACK) SEC_REG ?I \<noteq> None"
    using t7 by simp
  then obtain b s' where
    r: "readRegister (example_twi NRF_DRV_TWI_EVT_DATA_NACK) SEC_REG ?I = Some (b, s')"
    by auto
  have fl: "m_xfer_done s' = False"
    using t6 [rule_format, OF r] by (simp add: example_twi_def)
  have rr: "icm20649_read_reg (bus_with_statuses all_nack (example_bus 0)) 0x0 [0, 0] 0 =
      (- 1, 0xE1, 1)"
    unfolding t8 by (simp add: icm20649_read_reg_def example_bus_def all_nack_def Let_def)
  have fc: "fail_lines (outcome_log
     (mt25ql256aba_startup_test (with_statuses all_nack example_flash) [] [])) = 1"
    unfolding t9 by (simp add: with_statuses_def example_flash_def all_nack_def fail_lines_def)
  show ?thesis unfolding t1 using s [unfolded t1] g' l' n m n2 z r fl rr fc by simp
qed

text \<open>
  Claim C7. For any pair of conversion functions (in particular ones that change a value
  each time they are applied), every field of the low-g/gyro part of the buffered record
  \<open>i\<close> is the conversion applied once to the raw value read at acquisition \<open>i\<close>. The later
  phases (storing, retrieving, verification output) leave the sample buffer as it is, so
  no buffered value is converted again.
\<close>

theorem conversion_applied_once:
  "(g_buf_index st = 0 \<and> length (g_sample_set_buf st) = C \<and> i < min (length acqs) C \<longrightarrow>
      accel_x (icm_data (g_sample_set_buf (capture C to_mg to_mrad acqs st) ! i)) =
        to_mg (accel_x (icm20649_read_gyro_accel_data (acq_spi (acqs ! i)))) \<and>
      accel_y (icm_data (g_sample_set_buf (capture C to_mg to_mrad acqs st) ! i)) =
        to_mg (accel_y (icm20649_read_gyro_accel_data (acq_spi (acqs ! i)))) \<and>
      accel_z (icm_data (g_sample_set_buf (capture C to_mg to_mrad acqs st) ! i)) =
        to_mg (accel_z (icm20649_read_gyro_accel_data (acq_spi (acqs ! i)))) \<and>
      gyro_x (icm_data (g_sample_set_buf (capture C to_mg to_mrad acqs st) ! i)) =
        to_mrad (gyro_x (icm20649_read_gyro_accel_data (acq_spi (acqs ! i)))) \<and>
      gyro_y (icm_data (g_sample_set_buf (capture C to_mg to_mrad acqs st) ! i)) =
        to_mrad (gyro_y (icm20649_read_gyro_accel_data (acq_spi (acqs ! i)))) \<and>
      gyro_z (icm_data (g_sample_set_buf (capture C to_mg to_mrad acqs st) ! i)) =
        to_mrad (gyro_z (icm20649_read_gyro_accel_data (acq_spi (acqs ! i))))) \<and>
   (mt25ql256aba_store_samples dv st1 = Some st2 \<longrightarrow> g_sample_set_buf st2 = g_sample_set_buf st1) \<and>
   (mt25ql256aba_retrieve_samples dv st1 = Some st2 \<longrightarrow>
      g_sample_set_buf st2 = g_sample_set_buf st1) \<and>
   g_sample_set_buf (serial_output_flash_data st1) = g_sample_set_buf st1"
proof (intro conjI impI)
  assume a: "g_buf_index st = 0 \<and> length (g_sample_set_buf st) = C \<and> i < min (length acqs) C"
  then have le: "g_buf_index st \<le> C" and len: "length (g_sample_set_buf st) = C" by simp_all
  have "g_sample_set_buf (capture C to_mg to_mrad acqs st) ! i = acquired_sample to_mg to_mrad (acqs ! i)"
    using capture_gen [OF le len, of to_mg to_mrad acqs] a by simp
  then have r: "icm_data (g_sample_set_buf (capture C to_mg to_mrad acqs st) ! i) =
     icm20649_convert_data to_mg to_mrad (icm20649_read_gyro_accel_data (acq_spi (acqs ! i)))"
    by (simp add: acquired_sample_def)
  show "accel_x (icm_data (g_sample_set_buf (capture C to_mg to_mrad acqs st) ! i)) =
        to_mg (accel_x (icm20649_read_gyro_accel_data (acq_spi (acqs ! i))))"
    unfolding r by (simp add: convert_fields)
  show "accel_y (icm_data (g_sample_set_buf (capture C to_mg to_mrad acqs st) ! i)) =
        to_mg (accel_y (icm20649_read_gyro_accel_data (acq_spi (acqs ! i))))"
    unfolding r by (simp add: convert_fields)
  show "accel_z (icm_data (g_sample_set_buf (capture C to_mg to_mrad acqs st) ! i)) =
        to_mg (accel_z (icm20649_read_gyro_accel_data (acq_spi (acqs ! i))))"
    unfolding r by (simp add: convert_fields)
  show "gyro_x (icm_data (g_sample_set_buf (capture C to_mg to_mrad acqs st) ! i)) =
        to_mrad (gyro_x (icm20649_read_gyro_accel_data (acq_spi (acqs ! i))))"
    unfolding r by (simp add: convert_fields)
  show "gyro_y (icm_data (g_sample_set_buf (capture C to_mg to_mrad acqs st) ! i)) =
        to_mrad (gyro_y (icm20649_read_gyro_accel_data (acq_spi (acqs ! i))))"
    unfolding r by (simp add: convert_fields)
  show "gyro_z (icm_data (g_sample_set_buf (capture C to_mg to_mrad acqs st) ! i)) =
        to_mrad (gyro_z (icm20649_read_gyro_accel_data (acq_spi (acqs ! i))))"
    unfolding r by (simp add: convert_fields)
next
  assume "mt25ql256aba_store_samples dv st1 = Some st2"
  then show "g_sample_set_buf st2 = g_sample_set_buf st1" by (rule store_samples_gen(3))
next
  assume "mt25ql256aba_retrieve_samples dv st1 = Some st2"
  then show "g_sample_set_buf st2 = g_sample_set_buf st1" by (rule retrieve_samples_keeps)
next
  show "g_sample_set_buf (serial_output_flash_data st1) = g_sample_set_buf st1"
    by (simp add: serial_output_flash_data_def Let_def)
qed

text \<open>
  Claim C7 with the conversions \<open>v + 1\<close> and \<open>v + 2\<close>: the raw values \<open>0x0102\<close> and
  \<open>0x0B0C\<close> of the second acquisition are buffered as \<open>0x0103\<close> and \<open>0x0B0E\<close>.
\<close>

theorem conversion_applied_once_witness:
  "accel_x (icm_data (g_sample_set_buf
      (capture 2 example_to_mg example_to_mrad
         [example_acquisition 5, example_acquisition 6, example_acquisition 7] example_system) ! 1)) =
     0x0102 + 1 \<and>
   gyro_z (icm_data (g_sample_set_buf
      (capture 2 example_to_mg example_to_mrad
         [example_acquisition 5, example_acquisition 6, example_acquisition 7] example_system) ! 1)) =
     0x0B0C + 2"
  using conversion_applied_once [of example_system 2 1
      "[example_acquisition 5, example_acquisition 6, example_acquisition 7]"
      example_to_mg example_to_mrad example_flash example_system example_system]
  by (simp add: example_raw example_to_mg_def example_to_mrad_def) (simp add: example_system_def)

text \<open>
  Claim C8, as the code has it. The wait loop is left for the capture exactly when some
  reading has an axis whose absolute value is at least the threshold (\<^verbatim>\<open>>=\<close>); while
  every axis of every reading stays strictly below the threshold the loop goes on.
\<close>

theorem wait_impact_meets_threshold:
  "(wait_impact T rs = CAPTURING) =
     (\<exists>r \<in> set rs. T \<le> \<bar>sint (adxl_x r)\<bar> \<or> T \<le> \<bar>sint (adxl_y r)\<bar> \<or> T \<le> \<bar>sint (adxl_z r)\<bar>) \<and>
   ((\<forall>r \<in> set rs. \<bar>sint (adxl_x r)\<bar> < T \<and> \<bar>sint (adxl_y r)\<bar> < T \<and> \<bar>sint (adxl_z r)\<bar> < T) \<longrightarrow>
      wait_impact T rs = WAIT_IMPACT)"
proof -
  have a: "(wait_impact T rs = CAPTURING) =
     (\<exists>r \<in> set rs. T \<le> \<bar>sint (adxl_x r)\<bar> \<or> T \<le> \<bar>sint (adxl_y r)\<bar> \<or> T \<le> \<bar>sint (adxl_z r)\<bar>)"
    by (simp add: wait_impact_iff impact_threshold_met_def)
  have b: "wait_impact T rs = WAIT_IMPACT"
    if "\<forall>r \<in> set rs. \<bar>sint (adxl_x r)\<bar> < T \<and> \<bar>sint (adxl_y r)\<bar> < T \<and> \<bar>sint (adxl_z r)\<bar> < T"
  proof -
    have "wait_impact T rs \<noteq> CAPTURING" using that a by fastforce
    then show ?thesis by (cases "wait_impact T rs") simp_all
  qed
  from a b show ?thesis by blast
qed

text \<open>
  Claim C8 as stated fails at the boundary: with threshold 30 and a reading whose x axis
  is exactly 30 (no axis exceeds 30) the loop is left for the capture.
\<close>

theorem wait_impact_at_threshold:
  "wait_impact 30 [example_adxl 30] = CAPTURING \<and>
   \<not> (30 < \<bar>sint (adxl_x (example_adxl 30))\<bar> \<or> 30 < \<bar>sint (adxl_y (example_adxl 30))\<bar> \<or>
      30 < \<bar>sint (adxl_z (example_adxl 30))\<bar>)"
  by (simp add: example_adxl_def impact_threshold_met_def)

text \<open>
  Claim C8 with threshold 30: the reading \<open>-30\<close> triggers, the readings \<open>29\<close> and \<open>-29\<close>
  do not.
\<close>

theorem wait_impact_meets_threshold_witness:
  "wait_impact 30 [example_adxl 29, example_adxl (- 30), example_adxl 0] = CAPTURING \<and>
   wait_impact 30 [example_adxl 29, example_adxl (- 29)] = WAIT_IMPACT"
  using wait_impact_meets_threshold [of 30 "[example_adxl 29, example_adxl (- 30), example_adxl 0]"]
        wait_impact_meets_threshold [of 30 "[example_adxl 29, example_adxl (- 29)]"]
  by (simp add: example_adxl_def)

text \<open>
  Claim C9. For every byte \<open>v\<close> with \<open>v \<le> 99\<close>, \<open>hex2dec (dec2hex v) = v\<close>.
\<close>

theorem bcd_roundtrip: "val \<le> 99 \<Longrightarrow> hex2dec (dec2hex val) = val"
proof -
  assume a: "val \<le> 99"
  define n where "n = unat val"
  have n: "n < 100" using a unfolding n_def by (simp add: word_le_nat_alt)
  have d: "unat (val div 10) = n div 10" by (simp add: n_def unat_div)
  have e: "unat (dec2hex val) = n + 6 * (n div 10)"
    unfolding dec2hex_def using n d by (simp add: unat_word_ariths n_def [symmetric])
  have f: "unat (drop_bit 4 (dec2hex val)) = n div 10"
    using e unat_quotient_bcd [OF n] by (simp add: drop_bit_eq_div unat_div)
  have h: "unat (6 * drop_bit 4 (dec2hex val)) = 6 * (n div 10)"
    using f n by (simp add: unat_word_ariths)
  have "unat (hex2dec (dec2hex val)) = n"
    unfolding hex2dec_def using e h by (simp add: unat_sub_if')
  then show ?thesis unfolding n_def by (simp add: word_unat_eq_iff)
qed

text \<open>
  Claim C9 at 59, whose packed form is \<open>0x59\<close>.
\<close>

theorem bcd_roundtrip_witness: "(59 :: u8) \<le> 99 \<and> dec2hex 59 = 0x59 \<and> hex2dec (dec2hex 59) = 59"
  using bcd_roundtrip [of 59] by (simp add: dec2hex_def)

text \<open>
  Claim C10. Let the SPI transfer of \<^verbatim>\<open>icm20649_multibyte_read_reg\<close> return status \<open>ret\<close>
  and the \<open>num_bytes + 1\<close> received bytes \<open>rx\<close>. If \<open>ret\<close> is negative the function
  returns \<open>ret\<close> and \<^verbatim>\<open>reg_data\<close> is unchanged. Otherwise it returns \<open>ret\<close>, the first
  \<open>num_bytes\<close> bytes of \<^verbatim>\<open>reg_data\<close> are the received bytes after the first one, and the
  rest of \<^verbatim>\<open>reg_data\<close> is unchanged.
\<close>

theorem multibyte_read_atomic:
  assumes "spi [reg_addr OR 0x80] (replicate (unat num_bytes + 1) 0) (unat num_bytes + 1) = (ret, rx)"
  shows "(sint ret < 0 \<longrightarrow>
            icm20649_multibyte_read_reg spi reg_addr reg_data num_bytes = (ret, reg_data)) \<and>
         (\<not> sint ret < 0 \<and> length rx = unat num_bytes + 1 \<and> unat num_bytes \<le> length reg_data \<longrightarrow>
            fst (icm20649_multibyte_read_reg spi reg_addr reg_data num_bytes) = ret \<and>
            length (snd (icm20649_multibyte_read_reg spi reg_addr reg_data num_bytes)) =
              length reg_data \<and>
            take (unat num_bytes) (snd (icm20649_multibyte_read_reg spi reg_addr reg_data num_bytes)) =
              tl rx \<and>
            drop (unat num_bytes) (snd (icm20649_multibyte_read_reg spi reg_addr reg_data num_bytes)) =
              drop (unat num_bytes) reg_data)"
  using assms by (auto simp add: multibyte_fail multibyte_ok memcpy_def drop_Suc)

text \<open>
  Claim C10 for a two-byte read into a three-byte buffer, once with status -1 and once
  with status 0.
\<close>

theorem multibyte_read_atomic_witness:
  "icm20649_multibyte_read_reg (example_spi (- 1)) 0x2D [1, 2, 3] 2 = (- 1, [1, 2, 3]) \<and>
   snd (icm20649_multibyte_read_reg (example_spi 0) 0x2D [1, 2, 3] 2) = [0xAA, 0xBB, 3]"
proof -
  have a: "icm20649_multibyte_read_reg (example_spi (- 1)) 0x2D [1, 2, 3] 2 = (- 1, [1, 2, 3])"
    using multibyte_read_atomic [of "example_spi (- 1)" "0x2D" 2 "- 1" "[0, 0xAA, 0xBB]" "[1, 2, 3]"]
    by (simp add: example_spi_def)
  have b: "take 2 (snd (icm20649_multibyte_read_reg (example_spi 0) 0x2D [1, 2, 3] 2)) = [0xAA, 0xBB]
      \<and> drop 2 (snd (icm20649_multibyte_read_reg (example_spi 0) 0x2D [1, 2, 3] 2)) = [3]"
    using multibyte_read_atomic [of "example_spi 0" "0x2D" 2 "0" "[0, 0xAA, 0xBB]" "[1, 2, 3]"]
    by (simp add: example_spi_def)
  from b have "snd (icm20649_multibyte_read_reg (example_spi 0) 0x2D [1, 2, 3] 2) = [0xAA, 0xBB, 3]"
    by (metis append_take_drop_id append_Cons append_Nil)
  with a show ?thesis by simp
qed

end
